theory Spec2Isabelle
  imports Complex_Main "HOL-Library.Multiset" "HOL-Library.AList"
begin

section \<open>JavaScript values used by the layout code\<close>

text \<open>
  The repository holds four variants of the radar layout: the seeded-jitter variant
  (\<^verbatim>\<open>radar V8.tsx\<close>, suffix \<open>_V8\<close>), the seeded collision-retry variant
  (\<^verbatim>\<open>tech-radar.tsx\<close>, suffix \<open>_TR\<close>), the optimized seeded variant (first module of
  \<^verbatim>\<open>part_000\<close>, suffix \<open>_opt\<close>) and the spiral variant with force relaxation (second module
  of \<^verbatim>\<open>part_000\<close>, no suffix).

  JavaScript numbers are IEEE doubles. They are modelled as \<open>real\<close>, with \<^verbatim>\<open>Math.sin\<close>,
  \<^verbatim>\<open>Math.cos\<close>, \<^verbatim>\<open>Math.sqrt\<close> and \<^verbatim>\<open>Math.floor\<close> as the exact functions; rounding is not
  modelled. Where the source computes \<^verbatim>\<open>NaN\<close> the model says so with \<open>None\<close>.
  A point \<^verbatim>\<open>{ x, y }\<close> is the pair \<open>(x, y)\<close>.
\<close>

subsection \<open>Strings\<close>

text \<open>
  A string is a \<open>string\<close> whose \<open>char\<close>s stand for UTF-16 code units below 256.
  \<^verbatim>\<open>s.toLowerCase().replace(/\s+/g, "").replace("&", "")\<close> lowers every letter, deletes
  every white-space character and deletes the first \<^verbatim>\<open>&\<close>.
\<close>

definition toLowerCase_char :: "char \<Rightarrow> char" where
  "toLowerCase_char c =
     (let n = (of_char c :: nat)
      in if (65 \<le> n \<and> n \<le> 90) \<or> (192 \<le> n \<and> n \<le> 222 \<and> n \<noteq> 215)
         then char_of (n + 32) else c)"

definition toLowerCase :: "string \<Rightarrow> string" where
  "toLowerCase s = map toLowerCase_char s"

definition isWhiteSpace :: "char \<Rightarrow> bool" where
  "isWhiteSpace c = ((of_char c :: nat) \<in> {9, 10, 11, 12, 13, 32, 160})"

definition normalizeKey :: "string \<Rightarrow> string" where
  "normalizeKey s = remove1 (CHR ''&'') (filter (\<lambda>c. \<not> isWhiteSpace c) (toLowerCase s))"

text \<open>
  \<^verbatim>\<open>name.split("").reduce((acc, char) => acc + char.charCodeAt(0), 0)\<close>
\<close>

definition generateSeed :: "string \<Rightarrow> nat" where
  "generateSeed s = foldl (\<lambda>acc char. acc + of_char char) 0 s"

subsection \<open>Numbers\<close>

text \<open>\<^verbatim>\<open>const x = Math.sin(seed) * 10000; return x - Math.floor(x)\<close>\<close>

definition seededRandom :: "real \<Rightarrow> real" where
  "seededRandom seed = (let x = sin seed * 10000 in x - of_int \<lfloor>x\<rfloor>)"

text \<open>\<^verbatim>\<open>Math.atan2(y, x)\<close> on reals (signed zeros are not modelled).\<close>

definition atan2 :: "real \<Rightarrow> real \<Rightarrow> real" where
  "atan2 y x =
     (if 0 < x then arctan (y / x)
      else if x < 0 then (if 0 \<le> y then arctan (y / x) + pi else arctan (y / x) - pi)
      else if 0 < y then pi / 2
      else if y < 0 then - (pi / 2)
      else 0)"

text \<open>
  \<^verbatim>\<open>const currentAngle = Math.atan2(y, x)\<close>,
  \<^verbatim>\<open>const normalizedAngle = currentAngle < 0 ? currentAngle + 2 * Math.PI : currentAngle\<close>:
  the polar angle of a point in \<open>[0, 2\<pi>)\<close>.
\<close>

definition normalizedAngle :: "real \<times> real \<Rightarrow> real" where
  "normalizedAngle p =
     (let currentAngle = atan2 (snd p) (fst p)
      in if currentAngle < 0 then currentAngle + 2 * pi else currentAngle)"

text \<open>\<^verbatim>\<open>Math.sqrt(Math.pow(x - e.x, 2) + Math.pow(y - e.y, 2))\<close>\<close>

definition distance :: "real \<times> real \<Rightarrow> real \<times> real \<Rightarrow> real" where
  "distance p e = sqrt ((fst p - fst e)\<^sup>2 + (snd p - snd e)\<^sup>2)"

text \<open>
  \<^verbatim>\<open>let angleRange = endAngleRad - startAngleRad\<close>,
  \<^verbatim>\<open>if (angleRange <= 0) angleRange += 2 * Math.PI\<close>
\<close>

definition angleRangeOf :: "real \<Rightarrow> real \<Rightarrow> real" where
  "angleRangeOf startAngleRad endAngleRad =
     (let angleRange = endAngleRad - startAngleRad
      in if angleRange \<le> 0 then angleRange + 2 * pi else angleRange)"

subsection \<open>Arrays and objects\<close>

text \<open>\<^verbatim>\<open>xs.findIndex(p)\<close>, with \<open>None\<close> for \<^verbatim>\<open>-1\<close>; \<^verbatim>\<open>xs.find(p)\<close> is \<^const>\<open>find\<close>.\<close>

fun findIndex :: "('a \<Rightarrow> bool) \<Rightarrow> 'a list \<Rightarrow> nat option" where
  "findIndex P [] = None"
| "findIndex P (x # xs) = (if P x then Some 0 else map_option Suc (findIndex P xs))"

text \<open>
  A property read \<^verbatim>\<open>obj[key]\<close> on an object literal finds the object's own property, or
  else one it inherits from \<^verbatim>\<open>Object.prototype\<close> (a function or an object, so truthy and
  without the fields of a configuration entry), or else \<^verbatim>\<open>undefined\<close>.
\<close>

definition Object_prototype_keys :: "string list" where
  "Object_prototype_keys =
     [''constructor'', ''__defineGetter__'', ''__defineSetter__'', ''hasOwnProperty'',
      ''__lookupGetter__'', ''__lookupSetter__'', ''isPrototypeOf'', ''propertyIsEnumerable'',
      ''toString'', ''valueOf'', ''__proto__'', ''toLocaleString'']"

datatype 'a property = Own 'a | Inherited | Undefined

definition getProperty :: "(string \<times> 'a) list \<Rightarrow> string \<Rightarrow> 'a property" where
  "getProperty obj k =
     (case map_of obj k of
        Some v \<Rightarrow> Own v
      | None \<Rightarrow> if k \<in> set Object_prototype_keys then Inherited else Undefined)"

section \<open>Data model\<close>

text \<open>\<^verbatim>\<open>interface RadarTechnology\<close> of \<^verbatim>\<open>radar-data.ts\<close>: one classified item.\<close>

record RadarTechnology =
  name :: string
  description :: string
  quadrant :: string
  ring :: string
  score :: real
  rationale :: string
  source_url :: string

text \<open>
  \<^verbatim>\<open>interface RadarItem\<close>: an item with its coordinates and its index; the colour fields
  are display attributes and are left out. The fields \<^verbatim>\<open>x\<close>, \<^verbatim>\<open>y\<close>, \<^verbatim>\<open>id\<close> are named
  \<open>item_x\<close>, \<open>item_y\<close>, \<open>item_id\<close>.
\<close>

record RadarItem = RadarTechnology +
  item_x :: real
  item_y :: real
  item_id :: nat

definition coords :: "RadarItem \<Rightarrow> real \<times> real" where
  "coords i = (item_x i, item_y i)"

text \<open>The technology an output item was made from, \<^verbatim>\<open>{ ...item }\<close>.\<close>

definition technologyOf :: "'a RadarTechnology_scheme \<Rightarrow> RadarTechnology" where
  "technologyOf i = RadarTechnology.truncate i"

text \<open>Sector and ring configuration entries.\<close>

record AngleRange =
  startAngle :: real
  endAngle :: real

record Quadrant = AngleRange +
  quadrant_name :: string
  key :: string

record Ring =
  ring_name :: string
  ring_radius :: real

record RingV8 = Ring +
  altName :: string

text \<open>
  \<^verbatim>\<open>const minRadius = ring === rings[0] ? 25 : rings[rings.indexOf(ring) - 1].radius + 15\<close>,
  for the ring found at index \<open>ringIndex\<close>.
\<close>

definition minRadiusOf :: "'a Ring_scheme list \<Rightarrow> nat \<Rightarrow> real" where
  "minRadiusOf rings ringIndex =
     (if ringIndex = 0 then 25 else ring_radius (rings ! (ringIndex - 1)) + 15)"

section \<open>Seeded-jitter layout (\<^verbatim>\<open>radar V8.tsx\<close>)\<close>

definition center_V8 :: real where
  "center_V8 = 600 / 2"

definition maxRadius_V8 :: real where
  "maxRadius_V8 = center_V8 - 40"

definition rings_V8 :: "RingV8 list" where
  "rings_V8 =
     [\<lparr>ring_name = ''Adopt'', ring_radius = maxRadius_V8 * 0.25, altName = ''ADOPT''\<rparr>,
      \<lparr>ring_name = ''Trial'', ring_radius = maxRadius_V8 * 0.45, altName = ''TRIAL''\<rparr>,
      \<lparr>ring_name = ''Assess'', ring_radius = maxRadius_V8 * 0.7, altName = ''ASSESS''\<rparr>,
      \<lparr>ring_name = ''Hold'', ring_radius = maxRadius_V8 * 0.95, altName = ''HOLD''\<rparr>]"

definition quadrants :: "Quadrant list" where
  "quadrants =
     [\<lparr>startAngle = 180, endAngle = 270, quadrant_name = ''Techniques'', key = ''techniques''\<rparr>,
      \<lparr>startAngle = 270, endAngle = 360, quadrant_name = ''Tools'', key = ''tools''\<rparr>,
      \<lparr>startAngle = 90, endAngle = 180, quadrant_name = ''Platforms'', key = ''platforms''\<rparr>,
      \<lparr>startAngle = 0, endAngle = 90, quadrant_name = ''Languages & Frameworks'',
        key = ''languagesframeworks''\<rparr>]"

text \<open>The angle of \<^verbatim>\<open>calculatePosition\<close>: the single-item branch and the distributed one.\<close>

definition angle_V8 :: "real \<Rightarrow> real \<Rightarrow> real \<Rightarrow> int \<Rightarrow> nat \<Rightarrow> real" where
  "angle_V8 startAngleRad angleRange random1 itemIndex totalItems =
     (let usableAngleRange = angleRange * 0.7;
          angleMargin = angleRange * 0.15
      in if totalItems = 1
         then startAngleRad + angleRange * 0.5 + (random1 - 0.5) * angleRange * 0.3
         else (let baseAngleStep = usableAngleRange / real totalItems;
                   baseAngle = startAngleRad + angleMargin + (of_int itemIndex + 0.5) * baseAngleStep;
                   randomOffset = (random1 - 0.5) * baseAngleStep * 0.6
               in baseAngle + randomOffset))"

definition radius_V8 :: "real \<Rightarrow> real \<Rightarrow> real \<Rightarrow> real \<Rightarrow> real" where
  "radius_V8 minRadius maxRadius random2 random3 =
     (let radiusRange = maxRadius - minRadius;
          baseRadius = minRadius + radiusRange * 0.1 + radiusRange * 0.7 * random2;
          radiusJitter = radiusRange * 0.3 * (random3 - 0.5)
      in max (minRadius + 3) (min (maxRadius - 3) (baseRadius + radiusJitter)))"

text \<open>
  \<^verbatim>\<open>calculatePosition(item, itemsInSameRingQuadrant)\<close>. \<open>findIndex\<close> by name gives \<^verbatim>\<open>-1\<close>
  when no item of the list has the name. The caller always passes a list that holds the
  item; for the empty list the source divides by zero, which this model does not
  represent.
\<close>

definition calculatePosition_V8 :: "'a RadarTechnology_scheme \<Rightarrow> 'b RadarTechnology_scheme list \<Rightarrow> real \<times> real" where
  "calculatePosition_V8 item itemsInSameRingQuadrant =
     (case (find (\<lambda>q. quadrant_name q = quadrant item \<or> key q = normalizeKey (quadrant item)) quadrants,
            findIndex (\<lambda>r. ring_name r = ring item \<or> altName r = ring item) rings_V8) of
        (Some q, Some ringIndex) \<Rightarrow>
          (let seed = real (generateSeed (name item));
               random1 = sin (seed * 0.1) * 0.5 + 0.5;
               random2 = sin (seed * 0.2) * 0.5 + 0.5;
               random3 = sin (seed * 0.3) * 0.5 + 0.5;
               itemIndex = (case findIndex (\<lambda>i. name i = name item) itemsInSameRingQuadrant of
                              Some k \<Rightarrow> int k | None \<Rightarrow> - 1);
               totalItems = length itemsInSameRingQuadrant;
               startAngleRad = startAngle q * pi / 180;
               endAngleRad = endAngle q * pi / 180;
               angleRange = angleRangeOf startAngleRad endAngleRad;
               angle = angle_V8 startAngleRad angleRange random1 itemIndex totalItems;
               minRadius = minRadiusOf rings_V8 ringIndex;
               maxRadius = ring_radius (rings_V8 ! ringIndex) - 15;
               radius = radius_V8 minRadius maxRadius random2 random3;
               baseX = center_V8 + radius * cos angle;
               baseY = center_V8 + radius * sin angle;
               jitterAmount = 8;
               x = baseX + (random2 - 0.5) * jitterAmount;
               y = baseY + (random3 - 0.5) * jitterAmount
           in (x, y))
      | _ \<Rightarrow> (center_V8, center_V8))"

text \<open>
  \<^verbatim>\<open>processedData\<close>: \<^verbatim>\<open>if (!radarData?.radar_data) return []\<close>, then one output item per
  input item, in a \<^verbatim>\<open>map\<close> over the input.
\<close>

definition processItem_V8 :: "RadarTechnology list \<Rightarrow> RadarTechnology \<times> nat \<Rightarrow> RadarItem" where
  "processItem_V8 radar_data = (\<lambda>(item, globalIndex).
     (let itemsInSameRingQuadrant =
            filter (\<lambda>other. ring other = ring item \<and> quadrant other = quadrant item) radar_data;
          position = calculatePosition_V8 item itemsInSameRingQuadrant
      in RadarTechnology.extend item
           (RadarItem.fields (fst position) (snd position) globalIndex)))"

definition processedData_V8 :: "RadarTechnology list option \<Rightarrow> RadarItem list" where
  "processedData_V8 radarData =
     (case radarData of
        None \<Rightarrow> []
      | Some radar_data \<Rightarrow> map (processItem_V8 radar_data) (zip radar_data [0..<length radar_data]))"

section \<open>Seeded collision-retry layout (\<^verbatim>\<open>tech-radar.tsx\<close>)\<close>

definition center_TR :: real where
  "center_TR = 400 / 2"

definition rings_TR :: "Ring list" where
  "rings_TR =
     [\<lparr>ring_name = ''ADOPT'', ring_radius = 60\<rparr>,
      \<lparr>ring_name = ''TRIAL'', ring_radius = 100\<rparr>,
      \<lparr>ring_name = ''ASSESS'', ring_radius = 140\<rparr>,
      \<lparr>ring_name = ''HOLD'', ring_radius = 180\<rparr>]"

text \<open>\<^verbatim>\<open>Number.MAX_VALUE\<close>\<close>

definition MAX_VALUE :: real where
  "MAX_VALUE = (2 - 1 / 2 ^ 52) * 2 ^ 1023"

text \<open>
  The inner \<^verbatim>\<open>for (const existing of existingPositions)\<close> of the retry loop: it lowers
  \<^verbatim>\<open>minDistanceToExisting\<close> sibling by sibling and stops at the first sibling closer than
  \<^verbatim>\<open>minDistance\<close> (\<^verbatim>\<open>hasCollision = true; break\<close>). The result is
  \<open>(hasCollision, minDistanceToExisting)\<close>.
\<close>

fun scanExisting :: "real \<times> real \<Rightarrow> (real \<times> real) list \<Rightarrow> real \<Rightarrow> real \<Rightarrow> bool \<times> real" where
  "scanExisting p [] minDistance minDistanceToExisting = (False, minDistanceToExisting)"
| "scanExisting p (existing # rest) minDistance minDistanceToExisting =
     (let d = distance p existing;
          m = min minDistanceToExisting d
      in if d < minDistance then (True, m) else scanExisting p rest minDistance m)"

text \<open>
  The \<^verbatim>\<open>while (attempts < maxAttempts)\<close> loop of \<^verbatim>\<open>calculatePosition\<close>. The candidate of an
  attempt depends on the attempt number only (everything else it reads is fixed before
  the loop), so the loop takes the candidates as a function of the attempt. It returns
  the position and the value of \<^verbatim>\<open>attempts\<close> on exit.
\<close>

function placeLoop ::
  "(nat \<Rightarrow> real \<times> real) \<Rightarrow> (real \<times> real) list \<Rightarrow> real \<Rightarrow> nat \<Rightarrow> nat \<Rightarrow> real \<times> real \<Rightarrow> real
     \<Rightarrow> (real \<times> real) \<times> nat" where
  "placeLoop candidate existingPositions minDistance maxAttempts attempts bestPosition bestDistance =
     (if attempts < maxAttempts then
        (case scanExisting (candidate attempts) existingPositions minDistance MAX_VALUE of
           (hasCollision, minDistanceToExisting) \<Rightarrow>
             if \<not> hasCollision \<or> length existingPositions = 0 then (candidate attempts, attempts)
             else if minDistanceToExisting > bestDistance
             then placeLoop candidate existingPositions minDistance maxAttempts (attempts + 1)
                    (candidate attempts) minDistanceToExisting
             else placeLoop candidate existingPositions minDistance maxAttempts (attempts + 1)
                    bestPosition bestDistance)
      else (bestPosition, attempts))"
  by pat_completeness auto
termination
  by (relation "measure (\<lambda>(c, e, d, maxAttempts, attempts, b, bd). maxAttempts - attempts)") auto

text \<open>The candidate of one attempt: the body of the loop up to \<^verbatim>\<open>const y = ...\<close>.\<close>

definition candidate_TR :: "nat \<Rightarrow> real \<Rightarrow> real \<Rightarrow> real \<Rightarrow> real \<Rightarrow> nat \<Rightarrow> nat \<Rightarrow> nat \<Rightarrow> real \<times> real" where
  "candidate_TR seed startAngleRad angleRange minRadius radiusRange itemIndex allItemsLength attempts =
     (let attemptSeed = real (seed + attempts * 1337);
          normalizedIndex = real itemIndex / max (real allItemsLength - 1) 1;
          baseAngle = startAngleRad + angleRange * 0.8 * normalizedIndex + angleRange * 0.1;
          randomAngleOffset = (seededRandom attemptSeed - 0.5) * angleRange * 0.3;
          angle = baseAngle + randomAngleOffset;
          radiusProgress = seededRandom (attemptSeed + 1);
          radius = minRadius + radiusProgress * radiusRange
      in (center_TR + radius * cos angle, center_TR + radius * sin angle))"

text \<open>\<^verbatim>\<open>calculatePosition(item, allItems, itemIndex)\<close>, with its position and final attempt count.\<close>

definition calculatePosition_attempts_TR ::
  "RadarItem \<Rightarrow> RadarItem list \<Rightarrow> nat \<Rightarrow> (real \<times> real) \<times> nat" where
  "calculatePosition_attempts_TR item allItems itemIndex =
     (case (find (\<lambda>q. key q = normalizeKey (quadrant item)) quadrants,
            findIndex (\<lambda>r. ring_name r = ring item) rings_TR) of
        (Some q, Some ringIndex) \<Rightarrow>
          (let seed = generateSeed (name item);
               existingPositions =
                 map coords
                   (filter (\<lambda>existing. ring existing = ring item \<and> quadrant existing = quadrant item)
                      (take itemIndex allItems));
               startAngleRad = startAngle q * pi / 180;
               endAngleRad = endAngle q * pi / 180;
               angleRange = angleRangeOf startAngleRad endAngleRad;
               minRadius = minRadiusOf rings_TR ringIndex;
               maxRadius = ring_radius (rings_TR ! ringIndex) - 15;
               radiusRange = maxRadius - minRadius;
               minDistance = 25;
               maxAttempts = 50
           in placeLoop
                (candidate_TR seed startAngleRad angleRange minRadius radiusRange itemIndex
                   (length allItems))
                existingPositions minDistance maxAttempts 0 (center_TR, center_TR) 0)
      | _ \<Rightarrow> ((center_TR, center_TR), 0))"

definition calculatePosition_TR :: "RadarItem \<Rightarrow> RadarItem list \<Rightarrow> nat \<Rightarrow> real \<times> real" where
  "calculatePosition_TR item allItems itemIndex =
     fst (calculatePosition_attempts_TR item allItems itemIndex)"

text \<open>
  \<^verbatim>\<open>processedData\<close>: a first pass puts every item at the centre (\<^verbatim>\<open>tempItems\<close>); the second
  pass maps over \<^verbatim>\<open>tempItems\<close> and stores each processed item back
  (\<^verbatim>\<open>tempItems[globalIndex] = processedItem\<close>), so that later items see the positions of
  the earlier ones. The state is \<open>(tempItems, result so far)\<close>.
\<close>

definition tempItems_TR :: "RadarTechnology list \<Rightarrow> RadarItem list" where
  "tempItems_TR radar_data =
     map (\<lambda>(item, globalIndex).
            RadarTechnology.extend item (RadarItem.fields center_TR center_TR globalIndex))
       (zip radar_data [0..<length radar_data])"

definition processStep_TR :: "RadarItem list \<times> RadarItem list \<Rightarrow> nat \<Rightarrow> RadarItem list \<times> RadarItem list" where
  "processStep_TR = (\<lambda>(tempItems, result) globalIndex.
     (let item = tempItems ! globalIndex;
          position = calculatePosition_TR item tempItems globalIndex;
          processedItem = item\<lparr>item_x := fst position, item_y := snd position\<rparr>
      in (tempItems[globalIndex := processedItem], result @ [processedItem])))"

definition processedData_TR :: "RadarTechnology list option \<Rightarrow> RadarItem list" where
  "processedData_TR radarData =
     (case radarData of
        None \<Rightarrow> []
      | Some radar_data \<Rightarrow>
          snd (foldl processStep_TR (tempItems_TR radar_data, []) [0..<length radar_data]))"

section \<open>Optimized seeded layout (first module of \<^verbatim>\<open>part_000\<close>)\<close>

text \<open>
  \<^verbatim>\<open>interface TechnologyPosition\<close>. A coordinate is \<open>None\<close> when the source's value is
  \<^verbatim>\<open>NaN\<close>. The fields \<^verbatim>\<open>id\<close>, \<^verbatim>\<open>x\<close>, \<^verbatim>\<open>y\<close> are named \<open>tp_id\<close>, \<open>tp_x\<close>, \<open>tp_y\<close>.
\<close>

record TechnologyPosition = RadarTechnology +
  tp_id :: nat
  tp_x :: "real option"
  tp_y :: "real option"

record Sector = AngleRange +
  sector :: nat

record RingBounds =
  ring_minRadius :: real
  ring_maxRadius :: real
  order :: nat

definition quadrantMap_opt :: "(string \<times> Sector) list" where
  "quadrantMap_opt =
     [(''techniques'', \<lparr>startAngle = pi + 0.1, endAngle = 3 * pi / 2 - 0.1, sector = 0\<rparr>),
      (''tools'', \<lparr>startAngle = 3 * pi / 2 + 0.1, endAngle = 2 * pi - 0.1, sector = 1\<rparr>),
      (''platforms'', \<lparr>startAngle = 0.1, endAngle = pi / 2 - 0.1, sector = 2\<rparr>),
      (''languagesframeworks'', \<lparr>startAngle = pi / 2 + 0.1, endAngle = pi - 0.1, sector = 3\<rparr>)]"

definition ringMap :: "(string \<times> RingBounds) list" where
  "ringMap =
     [(''adopt'', \<lparr>ring_minRadius = 20, ring_maxRadius = 80, order = 0\<rparr>),
      (''trial'', \<lparr>ring_minRadius = 90, ring_maxRadius = 150, order = 1\<rparr>),
      (''assess'', \<lparr>ring_minRadius = 160, ring_maxRadius = 220, order = 2\<rparr>),
      (''hold'', \<lparr>ring_minRadius = 230, ring_maxRadius = 290, order = 3\<rparr>)]"

text \<open>
  The inner \<^verbatim>\<open>for (const otherTech of itemsInSameRingQuadrant)\<close>: siblings of the same
  name are skipped, the first sibling closer than \<^verbatim>\<open>minDistance\<close> ends the scan. A
  distance to a \<^verbatim>\<open>NaN\<close> coordinate is \<^verbatim>\<open>NaN\<close> and compares false.
\<close>

fun hasCollision_opt :: "string \<Rightarrow> TechnologyPosition list \<Rightarrow> real \<Rightarrow> real \<times> real \<Rightarrow> bool" where
  "hasCollision_opt techName [] minDistance test = False"
| "hasCollision_opt techName (otherTech # rest) minDistance test =
     (if name otherTech = techName then hasCollision_opt techName rest minDistance test
      else (case (tp_x otherTech, tp_y otherTech) of
              (Some ox, Some oy) \<Rightarrow>
                if distance test (ox, oy) < minDistance then True
                else hasCollision_opt techName rest minDistance test
            | _ \<Rightarrow> hasCollision_opt techName rest minDistance test))"

text \<open>
  The \<^verbatim>\<open>while (attempts < maxAttempts)\<close> loop of \<^verbatim>\<open>calculateOptimizedPosition\<close>, over the
  current candidate \<open>(finalRadius, finalAngle)\<close>: \<open>collides\<close> is the collision test of the
  candidate, \<open>resample attempts\<close> the candidate drawn after a collision. It returns the
  candidate and the value of \<^verbatim>\<open>attempts\<close> on exit.
\<close>

function adjustLoop ::
  "(nat \<Rightarrow> real \<times> real) \<Rightarrow> (real \<times> real \<Rightarrow> bool) \<Rightarrow> nat \<Rightarrow> nat \<Rightarrow> real \<times> real
     \<Rightarrow> (real \<times> real) \<times> nat" where
  "adjustLoop resample collides maxAttempts attempts final =
     (if attempts < maxAttempts then
        (if \<not> collides final then (final, attempts)
         else adjustLoop resample collides maxAttempts (attempts + 1) (resample attempts))
      else (final, attempts))"
  by pat_completeness auto
termination
  by (relation "measure (\<lambda>(r, c, maxAttempts, attempts, f). maxAttempts - attempts)") auto

text \<open>
  \<^verbatim>\<open>calculateOptimizedPosition(tech, itemsInSameRingQuadrant, center)\<close>, with the final
  attempt count. \<^verbatim>\<open>quadrantMap[quadrantKey]\<close> and \<^verbatim>\<open>ringMap[ringKey]\<close> are property reads:
  an inherited property is truthy and passes the guard, and its \<^verbatim>\<open>startAngle\<close>,
  \<^verbatim>\<open>minRadius\<close>, ... are \<^verbatim>\<open>undefined\<close>, so the angle or the radius and with it both
  coordinates are \<^verbatim>\<open>NaN\<close>.
\<close>

definition polar_opt :: "real \<Rightarrow> real \<times> real \<Rightarrow> real \<times> real" where
  "polar_opt center = (\<lambda>(finalRadius, finalAngle).
     (center + finalRadius * cos finalAngle, center + finalRadius * sin finalAngle))"

definition calculateOptimizedPosition_attempts ::
  "RadarTechnology \<Rightarrow> TechnologyPosition list \<Rightarrow> real \<Rightarrow> (real option \<times> real option) \<times> nat" where
  "calculateOptimizedPosition_attempts tech itemsInSameRingQuadrant center =
     (let quadrantKey = normalizeKey (quadrant tech);
          ringKey = toLowerCase (ring tech)
      in case (getProperty quadrantMap_opt quadrantKey, getProperty ringMap ringKey) of
           (Own quadrantConfig, Own ringConfig) \<Rightarrow>
             (let seed = real (generateSeed (name tech));
                  random1 = seededRandom seed;
                  random2 = seededRandom (seed + 1);
                  angleRange = angleRangeOf (startAngle quadrantConfig) (endAngle quadrantConfig);
                  paddedAngleRange = angleRange * 0.8;
                  angle = startAngle quadrantConfig + angleRange * 0.1 + random1 * paddedAngleRange;
                  radiusRange = ring_maxRadius ringConfig - ring_minRadius ringConfig - 20;
                  radius = ring_minRadius ringConfig + 10 + random2 * radiusRange;
                  minDistance = 35;
                  maxAttempts = 10;
                  resample = (\<lambda>attempts.
                     (let adjustSeed = seed + real attempts + 10
                      in (ring_minRadius ringConfig + 10 + seededRandom (adjustSeed + 1) * radiusRange,
                          startAngle quadrantConfig + angleRange * 0.1
                            + seededRandom adjustSeed * paddedAngleRange)));
                  collides = (\<lambda>final.
                     hasCollision_opt (name tech) itemsInSameRingQuadrant minDistance
                       (polar_opt center final))
              in case adjustLoop resample collides maxAttempts 0 (radius, angle) of
                   (final, attempts) \<Rightarrow>
                     ((Some (fst (polar_opt center final)), Some (snd (polar_opt center final))),
                      attempts))
         | (Undefined, _) \<Rightarrow> ((Some center, Some center), 0)
         | (_, Undefined) \<Rightarrow> ((Some center, Some center), 0)
         | _ \<Rightarrow> ((None, None), 0))"

definition calculateOptimizedPosition ::
  "RadarTechnology \<Rightarrow> TechnologyPosition list \<Rightarrow> real \<Rightarrow> real option \<times> real option" where
  "calculateOptimizedPosition tech itemsInSameRingQuadrant center =
     fst (calculateOptimizedPosition_attempts tech itemsInSameRingQuadrant center)"

text \<open>
  \<^verbatim>\<open>technologies.forEach(tech => ...)\<close> of \<^verbatim>\<open>calculateTechnologyPositions\<close>, over the
  state \<open>(positionedTechnologies, idCounter)\<close>.
\<close>

definition positionStep_opt ::
  "TechnologyPosition list \<times> nat \<Rightarrow> RadarTechnology \<Rightarrow> TechnologyPosition list \<times> nat" where
  "positionStep_opt = (\<lambda>(positionedTechnologies, idCounter) tech.
     (let quadrantKey = normalizeKey (quadrant tech);
          ringKey = toLowerCase (ring tech);
          itemsInSameGroup =
            filter (\<lambda>positioned. normalizeKey (quadrant positioned) = quadrantKey
                      \<and> toLowerCase (ring positioned) = ringKey) positionedTechnologies;
          position = calculateOptimizedPosition tech itemsInSameGroup 300
      in (positionedTechnologies
            @ [RadarTechnology.extend tech
                 (TechnologyPosition.fields idCounter (fst position) (snd position))],
          idCounter + 1)))"

definition calculateTechnologyPositions_opt :: "RadarTechnology list \<Rightarrow> TechnologyPosition list" where
  "calculateTechnologyPositions_opt technologies = fst (foldl positionStep_opt ([], 1) technologies)"

section \<open>Spiral layout with force relaxation (second module of \<^verbatim>\<open>part_000\<close>)\<close>

text \<open>
  \<^verbatim>\<open>Math.random()\<close> reads a hidden generator. The model makes it a parameter: \<open>rnd k\<close>
  is the value of the \<open>k\<close>-th call, and every function that calls \<^verbatim>\<open>Math.random\<close> takes
  and returns the number of calls made so far.

  Of a \<^verbatim>\<open>TechWithPosition\<close> only \<^verbatim>\<open>x\<close> and \<^verbatim>\<open>y\<close> are ever read, so the list
  \<^verbatim>\<open>allPositioned\<close> is a list of points.
\<close>

definition quadrantMap :: "(string \<times> Sector) list" where
  "quadrantMap =
     [(''techniques'', \<lparr>startAngle = pi + 0.15, endAngle = 3 * pi / 2 - 0.15, sector = 0\<rparr>),
      (''tools'', \<lparr>startAngle = 3 * pi / 2 + 0.15, endAngle = 2 * pi - 0.15, sector = 1\<rparr>),
      (''platforms'', \<lparr>startAngle = 0.15, endAngle = pi / 2 - 0.15, sector = 2\<rparr>),
      (''languagesframeworks'', \<lparr>startAngle = pi / 2 + 0.15, endAngle = pi - 0.15, sector = 3\<rparr>)]"

subsection \<open>Force relaxation\<close>

text \<open>
  \<^verbatim>\<open>for (let i = start; i < iterations; i++) body\<close> over a state \<open>s\<close>, with the value of
  \<^verbatim>\<open>i\<close> on exit; the body reads \<open>i\<close> and the state.
\<close>

function forLoop :: "nat \<Rightarrow> nat \<Rightarrow> (nat \<Rightarrow> 's \<Rightarrow> 's) \<Rightarrow> 's \<Rightarrow> 's \<times> nat" where
  "forLoop i iterations body s =
     (if i < iterations then forLoop (i + 1) iterations body (body i s) else (s, i))"
  by pat_completeness auto
termination
  by (relation "measure (\<lambda>(i, iterations, body, s). iterations - i)") auto

text \<open>
  \<^verbatim>\<open>existingPositions.forEach(existing => ...)\<close>: the summed repulsion \<open>(forceX, forceY)\<close>
  on the point from the siblings nearer than \<open>reach\<close>.
\<close>

definition repulsion :: "real \<Rightarrow> real \<Rightarrow> (real \<times> real) list \<Rightarrow> real \<times> real \<Rightarrow> real \<times> real" where
  "repulsion forceStrength reach existingPositions = (\<lambda>(x, y).
     foldl (\<lambda>(forceX, forceY) existing.
              (let dx = x - fst existing;
                   dy = y - snd existing;
                   d = sqrt (dx * dx + dy * dy)
               in if d < reach \<and> d > 0
                  then (let force = forceStrength / max d 1
                        in (forceX + dx / d * force, forceY + dy / d * force))
                  else (forceX, forceY)))
       (0, 0) existingPositions)"

text \<open>The block \<^verbatim>\<open>// Constrain to ring\<close>.\<close>

definition constrainToRing :: "'a Ring_scheme \<Rightarrow> real \<times> real \<Rightarrow> real \<times> real" where
  "constrainToRing ringConfig = (\<lambda>(x, y).
     (let currentRadius = sqrt (x * x + y * y);
          minRadius = max 60 (ring_radius ringConfig - 45);
          maxRadius = ring_radius ringConfig - 30
      in if currentRadius > 0
         then (let targetRadius = max minRadius (min maxRadius currentRadius);
                   scale = targetRadius / currentRadius
               in (x * scale, y * scale))
         else (x, y)))"

text \<open>The block \<^verbatim>\<open>// Constrain to quadrant\<close>.\<close>

definition constrainToQuadrant :: "'a AngleRange_scheme \<Rightarrow> real \<times> real \<Rightarrow> real \<times> real" where
  "constrainToQuadrant quadrantConfig = (\<lambda>(x, y).
     (if normalizedAngle (x, y) < startAngle quadrantConfig
           \<or> normalizedAngle (x, y) > endAngle quadrantConfig
      then (let midAngle = (startAngle quadrantConfig + endAngle quadrantConfig) / 2;
                currentRadius = sqrt (x * x + y * y)
            in (cos midAngle * currentRadius, sin midAngle * currentRadius))
      else (x, y)))"

text \<open>One iteration of the loop of \<^verbatim>\<open>findForceBasedPosition\<close>.\<close>

definition forceStep ::
  "'a Ring_scheme \<Rightarrow> 'b AngleRange_scheme \<Rightarrow> (real \<times> real) list \<Rightarrow> real \<Rightarrow> real \<times> real \<Rightarrow> real \<times> real" where
  "forceStep ringConfig quadrantConfig existingPositions minDistance = (\<lambda>(x, y).
     (let forceStrength = 5;
          force = repulsion forceStrength (minDistance * 2) existingPositions (x, y)
      in constrainToQuadrant quadrantConfig
           (constrainToRing ringConfig (x + fst force, y + snd force))))"

definition midPoint :: "'a Ring_scheme \<Rightarrow> 'b AngleRange_scheme \<Rightarrow> real \<times> real" where
  "midPoint ringConfig quadrantConfig =
     (let midRadius = (ring_radius ringConfig + max 60 (ring_radius ringConfig - 45)) / 2;
          midAngle = (startAngle quadrantConfig + endAngle quadrantConfig) / 2
      in (cos midAngle * midRadius, sin midAngle * midRadius))"

definition findForceBasedPosition ::
  "'a Ring_scheme \<Rightarrow> 'b AngleRange_scheme \<Rightarrow> (real \<times> real) list \<Rightarrow> real \<Rightarrow> real \<times> real" where
  "findForceBasedPosition ringConfig quadrantConfig existingPositions minDistance =
     (let iterations = 50
      in fst (forLoop 0 iterations
                (\<lambda>i. forceStep ringConfig quadrantConfig existingPositions minDistance)
                (midPoint ringConfig quadrantConfig)))"

text \<open>One iteration of the loop of \<^verbatim>\<open>findEmergencyPosition\<close>: the ring is constrained, the quadrant is not.\<close>

definition emergencyStep ::
  "'a Ring_scheme \<Rightarrow> (real \<times> real) list \<Rightarrow> real \<times> real \<Rightarrow> real \<times> real" where
  "emergencyStep ringConfig existingPositions = (\<lambda>(x, y).
     (let forceStrength = 3;
          force = repulsion forceStrength 32 existingPositions (x, y)
      in constrainToRing ringConfig (x + fst force, y + snd force)))"

definition findEmergencyPosition ::
  "'a Ring_scheme \<Rightarrow> 'b AngleRange_scheme \<Rightarrow> (real \<times> real) list \<Rightarrow> real \<times> real" where
  "findEmergencyPosition ringConfig quadrantConfig existingPositions =
     (let iterations = 30
      in fst (forLoop 0 iterations (\<lambda>i. emergencyStep ringConfig existingPositions)
                (midPoint ringConfig quadrantConfig)))"

subsection \<open>Spiral candidates\<close>

text \<open>A distance that may be \<^verbatim>\<open>Infinity\<close>, with the two comparisons the source makes.\<close>

datatype extended = Finite real | Infinity

fun ext_ge :: "extended \<Rightarrow> real \<Rightarrow> bool" where
  "ext_ge Infinity m = True"
| "ext_ge (Finite d) m = (d \<ge> m)"

fun ext_gt :: "extended \<Rightarrow> extended \<Rightarrow> bool" where
  "ext_gt Infinity Infinity = False"
| "ext_gt Infinity (Finite m) = True"
| "ext_gt (Finite d) Infinity = False"
| "ext_gt (Finite d) (Finite m) = (d > m)"

text \<open>
  The candidate of one attempt for the item of index \<open>i\<close> among \<open>itemCount\<close> (the source's \<^verbatim>\<open>count\<close>);
  \<open>random1\<close> and \<open>random2\<close> are the two values of \<^verbatim>\<open>Math.random()\<close> it draws.
\<close>

definition gridCandidate ::
  "'a Ring_scheme \<Rightarrow> 'b AngleRange_scheme \<Rightarrow> nat \<Rightarrow> nat \<Rightarrow> real \<Rightarrow> real \<Rightarrow> real \<times> real" where
  "gridCandidate ringConfig quadrantConfig itemCount i random1 random2 =
     (let minRadius = max 60 (ring_radius ringConfig - 45);
          maxRadius = ring_radius ringConfig - 30;
          arcAngle = endAngle quadrantConfig - startAngle quadrantConfig;
          radialSpace = maxRadius - minRadius;
          spiralTurns = max 2 \<lceil>real itemCount / 6\<rceil>;
          angleStep = arcAngle / real (max itemCount 6);
          radiusStep = radialSpace / of_int spiralTurns;
          spiralProgress = real i / real itemCount;
          angle = startAngle quadrantConfig + spiralProgress * arcAngle
                    + (random1 - 0.5) * angleStep * 0.8;
          radius = minRadius + spiralProgress * radialSpace + (random2 - 0.5) * radiusStep * 0.6;
          clampedAngle = max (startAngle quadrantConfig + 0.1) (min (endAngle quadrantConfig - 0.1) angle);
          clampedRadius = max (minRadius + 15) (min (maxRadius - 15) radius)
      in (cos clampedAngle * clampedRadius, sin clampedAngle * clampedRadius))"

text \<open>
  \<^verbatim>\<open>distances.length > 0 ? Math.min(...distances) : Infinity\<close>, for the distances of \<open>p\<close>
  to \<open>others\<close>, which is \<^verbatim>\<open>[...existingPositions, ...positions]\<close>.
\<close>

definition minDistanceTo :: "(real \<times> real) list \<Rightarrow> real \<times> real \<Rightarrow> extended" where
  "minDistanceTo others p =
     (let distances = map (distance p) others
      in if length distances > 0 then Finite (Min (set distances)) else Infinity)"

text \<open>
  The body of \<^verbatim>\<open>for (let attempt = 0; attempt < 20; attempt++)\<close>, over
  \<open>(bestPosition, maxDistance)\<close> and the number \<open>n\<close> of random draws made so far.
\<close>

definition attemptStep ::
  "(real \<Rightarrow> real \<Rightarrow> real \<times> real) \<Rightarrow> (real \<times> real) list \<Rightarrow> real \<Rightarrow> (nat \<Rightarrow> real)
     \<Rightarrow> (real \<times> real) option \<times> extended \<times> nat \<Rightarrow> (real \<times> real) option \<times> extended \<times> nat" where
  "attemptStep candidate others minDistance rnd = (\<lambda>(bestPosition, maxDistance, n).
     (let p = candidate (rnd n) (rnd (n + 1));
          minDistanceToOthers = minDistanceTo others p
      in if ext_ge minDistanceToOthers minDistance \<and> ext_gt minDistanceToOthers maxDistance
         then (Some p, minDistanceToOthers, n + 2)
         else (bestPosition, maxDistance, n + 2)))"

text \<open>
  The body of \<^verbatim>\<open>for (let i = 0; i < count; i++)\<close> of \<^verbatim>\<open>generateGridPositions\<close>, over
  \<open>positions\<close> and the number of random draws.
\<close>

definition gridStep ::
  "'a Ring_scheme \<Rightarrow> 'b AngleRange_scheme \<Rightarrow> nat \<Rightarrow> (real \<times> real) list \<Rightarrow> (nat \<Rightarrow> real) \<Rightarrow> nat
     \<Rightarrow> (real \<times> real) list \<times> nat \<Rightarrow> (real \<times> real) list \<times> nat" where
  "gridStep ringConfig quadrantConfig itemCount existingPositions rnd i = (\<lambda>(positions, n).
     (let dotRadius = 8;
          minDistance = dotRadius * 4
      in case fst (forLoop 0 20
                     (\<lambda>attempt. attemptStep (gridCandidate ringConfig quadrantConfig itemCount i)
                                   (existingPositions @ positions) minDistance rnd)
                     (None, Finite 0, n)) of
           (Some bestPosition, maxDistance, n') \<Rightarrow> (positions @ [bestPosition], n')
         | (None, maxDistance, n') \<Rightarrow>
             (positions @ [findForceBasedPosition ringConfig quadrantConfig
                             (existingPositions @ positions) minDistance], n')))"

definition generateGridPositions ::
  "'a Ring_scheme \<Rightarrow> 'b AngleRange_scheme \<Rightarrow> nat \<Rightarrow> (real \<times> real) list \<Rightarrow> (nat \<Rightarrow> real) \<Rightarrow> nat
     \<Rightarrow> (real \<times> real) list \<times> nat" where
  "generateGridPositions ringConfig quadrantConfig itemCount existingPositions rnd n =
     fst (forLoop 0 itemCount (gridStep ringConfig quadrantConfig itemCount existingPositions rnd)
            ([], n))"

subsection \<open>Grouping and the orchestrator\<close>

text \<open>
  \<^verbatim>\<open>grouped\<close> is an object of objects of arrays, modelled by the lists of own properties
  in insertion order. \<^verbatim>\<open>acc[quadrantKey]\<close> and \<^verbatim>\<open>acc[quadrantKey][ringKey]\<close> are property
  reads: when the ring key names a property inherited from \<^verbatim>\<open>Object.prototype\<close>, the value
  read is not an array and \<^verbatim>\<open>.push\<close> throws a \<^verbatim>\<open>TypeError\<close>; when the quadrant key does,
  the source works on a shared builtin object, which this model does not follow
  (\<open>BuiltinObject\<close>).
\<close>

datatype error = TypeError | BuiltinObject

definition groupStep ::
  "error + (string \<times> (string \<times> RadarTechnology list) list) list \<Rightarrow> RadarTechnology
     \<Rightarrow> error + (string \<times> (string \<times> RadarTechnology list) list) list" where
  "groupStep acc tech =
     (case acc of
        Inl e \<Rightarrow> Inl e
      | Inr grouped \<Rightarrow>
          (let quadrantKey = normalizeKey (quadrant tech);
               ringKey = toLowerCase (ring tech)
           in if quadrantKey \<in> set Object_prototype_keys then Inl BuiltinObject
              else if ringKey \<in> set Object_prototype_keys then Inl TypeError
              else (let rings = (case map_of grouped quadrantKey of None \<Rightarrow> [] | Some r \<Rightarrow> r);
                        techs = (case map_of rings ringKey of None \<Rightarrow> [] | Some t \<Rightarrow> t)
                    in Inr (AList.update quadrantKey (AList.update ringKey (techs @ [tech]) rings)
                              grouped))))"

text \<open>
  \<^verbatim>\<open>Object.entries(obj)\<close>: the own properties whose key is an array index (a canonical
  decimal numeral below \<open>2\<^sup>3\<^sup>2 - 1\<close>) in ascending numeric order, then the others in
  insertion order.
\<close>

definition decimalValue :: "string \<Rightarrow> nat" where
  "decimalValue s = foldl (\<lambda>n c. 10 * n + (of_char c - 48)) 0 s"

definition isArrayIndex :: "string \<Rightarrow> bool" where
  "isArrayIndex s =
     (s \<noteq> [] \<and> list_all (\<lambda>c. 48 \<le> (of_char c :: nat) \<and> (of_char c :: nat) \<le> 57) s
      \<and> (length s = 1 \<or> hd s \<noteq> CHR ''0'') \<and> decimalValue s < 2 ^ 32 - 1)"

definition Object_entries :: "(string \<times> 'a) list \<Rightarrow> (string \<times> 'a) list" where
  "Object_entries obj =
     sort_key (\<lambda>e. decimalValue (fst e)) (filter (\<lambda>e. isArrayIndex (fst e)) obj)
       @ filter (\<lambda>e. \<not> isArrayIndex (fst e)) obj"

text \<open>
  The state of the two nested \<^verbatim>\<open>forEach\<close> loops:
  \<open>(allPositioned, positionedTechnologies, idCounter, random draws so far)\<close>.
\<close>

type_synonym layout_state = "(real \<times> real) list \<times> TechnologyPosition list \<times> nat \<times> nat"

text \<open>
  \<^verbatim>\<open>techs.forEach((tech, index) => ...)\<close>: the position is \<^verbatim>\<open>positions[index]\<close>, or the
  emergency position when \<^verbatim>\<open>positions\<close> has no such entry.
\<close>

definition placeTech ::
  "'a Ring_scheme \<Rightarrow> 'b AngleRange_scheme \<Rightarrow> (real \<times> real) list \<Rightarrow> layout_state
     \<Rightarrow> RadarTechnology \<times> nat \<Rightarrow> layout_state" where
  "placeTech ringConfig quadrantConfig positions = (\<lambda>(allPositioned, positionedTechnologies, idCounter, n) (tech, index).
     (let position = (if index < length positions then positions ! index
                      else findEmergencyPosition ringConfig quadrantConfig allPositioned)
      in (allPositioned @ [position],
          positionedTechnologies
            @ [RadarTechnology.extend tech
                 (TechnologyPosition.fields idCounter (Some (fst position)) (Some (snd position)))],
          idCounter + 1, n)))"

text \<open>
  The body of \<^verbatim>\<open>Object.entries(rings).forEach(([ringKey, techs]) => ...)\<close> for the quadrant
  key \<open>quadrantKey\<close>: a group whose ring or quadrant is not configured is skipped.
\<close>

definition placeGroup ::
  "Ring list \<Rightarrow> (nat \<Rightarrow> real) \<Rightarrow> string \<Rightarrow> layout_state \<Rightarrow> string \<times> RadarTechnology list \<Rightarrow> layout_state" where
  "placeGroup config_rings rnd quadrantKey = (\<lambda>(allPositioned, positionedTechnologies, idCounter, n) (ringKey, techs).
     (case find (\<lambda>r. toLowerCase (ring_name r) = ringKey) config_rings of
        None \<Rightarrow> (allPositioned, positionedTechnologies, idCounter, n)
      | Some ringConfig \<Rightarrow>
          (case map_of quadrantMap quadrantKey of
             None \<Rightarrow> (allPositioned, positionedTechnologies, idCounter, n)
           | Some quadrantConfig \<Rightarrow>
               (let techsInRing = length techs
                in case generateGridPositions ringConfig quadrantConfig techsInRing allPositioned rnd n of
                     (positions, n') \<Rightarrow>
                       foldl (placeTech ringConfig quadrantConfig positions)
                         (allPositioned, positionedTechnologies, idCounter, n')
                         (zip techs [0..<length techs])))))"

definition placeQuadrant ::
  "Ring list \<Rightarrow> (nat \<Rightarrow> real) \<Rightarrow> layout_state \<Rightarrow> string \<times> (string \<times> RadarTechnology list) list \<Rightarrow> layout_state" where
  "placeQuadrant config_rings rnd st = (\<lambda>(quadrantKey, rings).
     foldl (placeGroup config_rings rnd quadrantKey) st (Object_entries rings))"

text \<open>
  \<^verbatim>\<open>calculateTechnologyPositions(technologies, config)\<close>; of \<^verbatim>\<open>config\<close> only
  \<^verbatim>\<open>config.rings\<close> is read.
\<close>

definition grouped :: "RadarTechnology list \<Rightarrow> error + (string \<times> (string \<times> RadarTechnology list) list) list" where
  "grouped technologies = foldl groupStep (Inr []) technologies"

definition calculateTechnologyPositions ::
  "RadarTechnology list \<Rightarrow> Ring list \<Rightarrow> (nat \<Rightarrow> real) \<Rightarrow> error + TechnologyPosition list" where
  "calculateTechnologyPositions technologies config_rings rnd =
     (case grouped technologies of
        Inl e \<Rightarrow> Inl e
      | Inr g \<Rightarrow>
          (case foldl (placeQuadrant config_rings rnd) ([], [], 1, 0) (Object_entries g) of
             (allPositioned, positionedTechnologies, idCounter, n) \<Rightarrow> Inr positionedTechnologies))"

section \<open>Notions used to state the properties\<close>

text \<open>An item with the given name, quadrant and ring, the other fields empty.\<close>

definition technology :: "string \<Rightarrow> string \<Rightarrow> string \<Rightarrow> RadarTechnology" where
  "technology n q r =
     \<lparr>name = n, description = [], quadrant = q, ring = r, score = 0, rationale = [],
      source_url = []\<rparr>"







text \<open>
  A candidate collides when some sibling is nearer than \<open>minDistance\<close>; this is the
  \<^verbatim>\<open>hasCollision\<close> of the retry loop of \<^verbatim>\<open>tech-radar.tsx\<close>, and \<open>recordedDistance\<close> is the
  \<^verbatim>\<open>minDistanceToExisting\<close> the loop has when the scan of the siblings ends.
\<close>

definition tooClose :: "real \<Rightarrow> (real \<times> real) list \<Rightarrow> real \<times> real \<Rightarrow> bool" where
  "tooClose minDistance existingPositions p =
     list_ex (\<lambda>e. distance p e < minDistance) existingPositions"

definition recordedDistance :: "real \<Rightarrow> (real \<times> real) list \<Rightarrow> real \<times> real \<Rightarrow> real" where
  "recordedDistance minDistance existingPositions p =
     snd (scanExisting p existingPositions minDistance MAX_VALUE)"

text \<open>
  The candidates of the loop of \<^verbatim>\<open>calculateOptimizedPosition\<close> in the order they are
  made: the initial one, then the one drawn after each collision.
\<close>

definition nthCandidate :: "(nat \<Rightarrow> real \<times> real) \<Rightarrow> real \<times> real \<Rightarrow> nat \<Rightarrow> real \<times> real" where
  "nthCandidate resample initial k = (case k of 0 \<Rightarrow> initial | Suc j \<Rightarrow> resample j)"

text \<open>
  A ring of the configuration of \<^verbatim>\<open>tech-radar.tsx\<close> and the sector of the key
  \<^verbatim>\<open>platforms\<close> in the \<^verbatim>\<open>quadrantMap\<close> of the spiral layout.
\<close>

definition HOLD :: Ring where
  "HOLD = \<lparr>ring_name = ''HOLD'', ring_radius = 180\<rparr>"

definition PLAT :: Sector where
  "PLAT = \<lparr>startAngle = 0.15, endAngle = pi / 2 - 0.15, sector = 2\<rparr>"

text \<open>
  The sector of a quadrant in radians, the band of the ring at an index (from the radius
  of the ring before it, or 0, to its own radius), and a point strictly inside both, for
  the centre \<open>(center, center)\<close>.
\<close>

definition sectorOf :: "'a AngleRange_scheme \<Rightarrow> real \<times> real" where
  "sectorOf q = (startAngle q * pi / 180, endAngle q * pi / 180)"

definition bandOf :: "'a Ring_scheme list \<Rightarrow> nat \<Rightarrow> real \<times> real" where
  "bandOf rings ringIndex =
     (if ringIndex = 0 then 0 else ring_radius (rings ! (ringIndex - 1)),
      ring_radius (rings ! ringIndex))"

definition strictlyInside :: "real \<Rightarrow> real \<times> real \<Rightarrow> real \<times> real \<Rightarrow> real \<times> real \<Rightarrow> bool" where
  "strictlyInside center sec bnd p =
     (fst sec < normalizedAngle (fst p - center, snd p - center)
      \<and> normalizedAngle (fst p - center, snd p - center) < snd sec
      \<and> fst bnd < distance p (center, center)
      \<and> distance p (center, center) < snd bnd)"

text \<open>
  The values \<^verbatim>\<open>random1\<close>, \<^verbatim>\<open>random2\<close>, \<^verbatim>\<open>random3\<close> of \<^verbatim>\<open>calculatePosition\<close> in
  \<^verbatim>\<open>radar V8.tsx\<close> (with the factors 0.1, 0.2, 0.3) and its \<^verbatim>\<open>itemIndex\<close>.
\<close>

definition random_V8 :: "real \<Rightarrow> string \<Rightarrow> real" where
  "random_V8 factor nm = sin (real (generateSeed nm) * factor) * 0.5 + 0.5"

definition itemIndex_V8 :: "string \<Rightarrow> 'a RadarTechnology_scheme list \<Rightarrow> int" where
  "itemIndex_V8 nm items = (case findIndex (\<lambda>i. name i = nm) items of Some k \<Rightarrow> int k | None \<Rightarrow> - 1)"

text \<open>A placed sibling with the given name and coordinates, its other fields empty.\<close>

definition positionedAt :: "string \<Rightarrow> real \<Rightarrow> real \<Rightarrow> TechnologyPosition" where
  "positionedAt n x y =
     RadarTechnology.extend (technology n [] []) (TechnologyPosition.fields 0 (Some x) (Some y))"

section \<open>Auxiliary facts\<close>

subsection \<open>Seeds and the seeded-jitter layout\<close>


lemma foldl_add_sum_list:
  "foldl (\<lambda>acc c. acc + f c) (a::nat) xs = a + sum_list (map f xs)"
  by (induction xs arbitrary: a) simp_all

lemma generateSeed_sum_list: "generateSeed s = sum_list (map of_char s)"
  by (simp add: generateSeed_def foldl_add_sum_list)

lemma technologyOf_extend_item [simp]:
  "technologyOf (RadarTechnology.extend (item :: RadarTechnology) (RadarItem.fields a b c)) = item"
  by (simp add: technologyOf_def RadarTechnology.extend_def RadarTechnology.truncate_def RadarItem.fields_def)

lemma processItem_V8_technology [simp]:
  "technologyOf (processItem_V8 d (item, k)) = item"
  by (simp add: processItem_V8_def Let_def)

lemma processItem_V8_id [simp]:
  "item_id (processItem_V8 d (item, k)) = k"
  by (simp add: processItem_V8_def Let_def RadarTechnology.extend_def RadarItem.fields_def)

lemma processItem_V8_coords:
  "coords (processItem_V8 d (item, k)) =
     calculatePosition_V8 item (filter (\<lambda>other. ring other = ring item \<and> quadrant other = quadrant item) d)"
  by (simp add: processItem_V8_def Let_def coords_def RadarTechnology.extend_def RadarItem.fields_def)

lemma processedData_V8_nth:
  "i < length d \<Longrightarrow> processedData_V8 (Some d) ! i = processItem_V8 d (d ! i, i)"
  by (simp add: processedData_V8_def)


lemma calculatePosition_V8_cong:
  assumes "name a = name b" "quadrant a = quadrant b" "ring a = ring b"
    and "map name ga = map name gb"
  shows "calculatePosition_V8 a ga = calculatePosition_V8 b gb"
proof -
  have len: "length ga = length gb"
    using assms(4) by (rule map_eq_imp_length_eq)
  have "findIndex (\<lambda>i. name i = n) ga = findIndex (\<lambda>i. name i = n) gb" for n
    using assms(4)
  proof (induction ga arbitrary: gb)
    case Nil
    then show ?case by simp
  next
    case (Cons x xs)
    then obtain y ys where "gb = y # ys" "name x = name y" "map name xs = map name ys"
      by (cases gb) auto
    with Cons.IH show ?case by simp
  qed
  then show ?thesis
    unfolding calculatePosition_V8_def using assms(1-3) len
    by (simp add: Let_def cong: option.case_cong)
qed

subsection \<open>Loops and random draws of the spiral layout\<close>


lemma forLoop_fold: "forLoop i n body s = (fold body [i..<n] s, max i n)"
proof (induction i n body s rule: forLoop.induct)
  case (1 i n body s)
  show ?case
  proof (cases "i < n")
    case True
    with 1 show ?thesis
      by (subst forLoop.simps) (simp add: upt_conv_Cons max_def del: forLoop.simps)
  next
    case False
    then show ?thesis by simp
  qed
qed

lemma fold_const_funpow: "fold (\<lambda>i. f) [i..<n] s = (f ^^ (n - i)) s"
proof (induction "n - i" arbitrary: i s)
  case 0
  then show ?case by simp
next
  case (Suc k)
  then have "i < n" and "k = n - Suc i" by simp_all
  with Suc.hyps(1) [of "Suc i" "f s"] Suc.hyps(2) [symmetric] show ?case
    by (simp add: upt_conv_Cons funpow_swap1)
qed

lemma forLoop_funpow: "forLoop 0 n (\<lambda>i. f) s = ((f ^^ n) s, n)"
  by (simp add: forLoop_fold fold_const_funpow del: forLoop.simps)

lemma attemptStep_draws: "snd (snd (attemptStep c others m rnd st)) = snd (snd st) + 2"
  by (cases st) (simp add: attemptStep_def Let_def)

lemma attemptStep_cong:
  assumes "rnd (snd (snd st)) = rnd' (snd (snd st))"
    and "rnd (snd (snd st) + 1) = rnd' (snd (snd st) + 1)"
  shows "attemptStep c others m rnd st = attemptStep c others m rnd' st"
proof (cases st)
  case (fields b md n)
  with assms have "rnd n = rnd' n" "rnd (n + 1) = rnd' (n + 1)" by simp_all
  then show ?thesis
    unfolding fields attemptStep_def by (simp only: prod.case)
qed

lemma fold_attemptStep_draws:
  "snd (snd (fold (\<lambda>attempt. attemptStep c others m rnd) as st)) = snd (snd st) + 2 * length as"
  by (induction as arbitrary: st) (simp_all add: attemptStep_draws)

lemma fold_attemptStep_cong:
  assumes "\<And>k. snd (snd st) \<le> k \<Longrightarrow> k < snd (snd st) + 2 * length as \<Longrightarrow> rnd k = rnd' k"
  shows "fold (\<lambda>attempt. attemptStep c others m rnd) as st
       = fold (\<lambda>attempt. attemptStep c others m rnd') as st"
  using assms
proof (induction as arbitrary: st)
  case Nil
  then show ?case by simp
next
  case (Cons a as)
  have step: "attemptStep c others m rnd st = attemptStep c others m rnd' st"
    by (rule attemptStep_cong) (auto intro!: Cons.prems)
  have "fold (\<lambda>attempt. attemptStep c others m rnd) as (attemptStep c others m rnd st)
      = fold (\<lambda>attempt. attemptStep c others m rnd') as (attemptStep c others m rnd st)"
    by (rule Cons.IH) (auto simp: attemptStep_draws intro!: Cons.prems)
  with step show ?case by simp
qed

lemma gridStep_draws: "snd (gridStep rc qc cnt ex rnd i st) = snd st + 40"
proof (cases st)
  case (Pair positions n)
  obtain b md n' where f: "fold (\<lambda>attempt. attemptStep (gridCandidate rc qc cnt i) (ex @ positions) 32 rnd)
          [0..<20] (None, Finite 0, n) = (b, md, n')"
    by (metis prod_cases3)
  from fold_attemptStep_draws [of "gridCandidate rc qc cnt i" "ex @ positions" 32 rnd "[0..<20]" "(None, Finite 0, n)"]
  have "n' = n + 40" by (simp add: f)
  with Pair f show ?thesis
    by (cases b) (simp_all add: gridStep_def Let_def forLoop_fold del: forLoop.simps)
qed

lemma gridStep_length: "length (fst (gridStep rc qc cnt ex rnd i st)) = length (fst st) + 1"
  by (cases st) (auto simp: gridStep_def Let_def split: prod.splits option.splits)

lemma gridStep_cong:
  assumes "\<And>k. snd st \<le> k \<Longrightarrow> k < snd st + 40 \<Longrightarrow> rnd k = rnd' k"
  shows "gridStep rc qc cnt ex rnd i st = gridStep rc qc cnt ex rnd' i st"
proof (cases st)
  case (Pair positions n)
  have "fold (\<lambda>attempt. attemptStep (gridCandidate rc qc cnt i) (ex @ positions) 32 rnd)
          [0..<20] (None, Finite 0, n)
      = fold (\<lambda>attempt. attemptStep (gridCandidate rc qc cnt i) (ex @ positions) 32 rnd')
          [0..<20] (None, Finite 0, n)"
    by (rule fold_attemptStep_cong) (use assms Pair in auto)
  with Pair show ?thesis
    by (simp add: gridStep_def Let_def forLoop_fold del: forLoop.simps)
qed

lemma fold_gridStep_draws:
  "snd (fold (gridStep rc qc cnt ex rnd) is st) = snd st + 40 * length is"
  by (induction "is" arbitrary: st) (simp_all add: gridStep_draws)

lemma fold_gridStep_length:
  "length (fst (fold (gridStep rc qc cnt ex rnd) is st)) = length (fst st) + length is"
  by (induction "is" arbitrary: st) (simp_all add: gridStep_length)

lemma fold_gridStep_cong:
  assumes "\<And>k. snd st \<le> k \<Longrightarrow> k < snd st + 40 * length is \<Longrightarrow> rnd k = rnd' k"
  shows "fold (gridStep rc qc cnt ex rnd) is st = fold (gridStep rc qc cnt ex rnd') is st"
  using assms
proof (induction "is" arbitrary: st)
  case Nil
  then show ?case by simp
next
  case (Cons i "is")
  have step: "gridStep rc qc cnt ex rnd i st = gridStep rc qc cnt ex rnd' i st"
    by (rule gridStep_cong) (auto intro!: Cons.prems)
  have "fold (gridStep rc qc cnt ex rnd) is (gridStep rc qc cnt ex rnd i st)
      = fold (gridStep rc qc cnt ex rnd') is (gridStep rc qc cnt ex rnd i st)"
    by (rule Cons.IH) (auto simp: gridStep_draws intro!: Cons.prems)
  with step show ?case by simp
qed

lemma generateGridPositions_draws:
  "snd (generateGridPositions rc qc cnt ex rnd n) = n + 40 * cnt"
  by (simp add: generateGridPositions_def forLoop_fold fold_gridStep_draws del: forLoop.simps)

lemma generateGridPositions_length:
  "length (fst (generateGridPositions rc qc cnt ex rnd n)) = cnt"
  by (simp add: generateGridPositions_def forLoop_fold fold_gridStep_length del: forLoop.simps)

lemma generateGridPositions_cong:
  assumes "\<And>k. n \<le> k \<Longrightarrow> k < n + 40 * cnt \<Longrightarrow> rnd k = rnd' k"
  shows "generateGridPositions rc qc cnt ex rnd n = generateGridPositions rc qc cnt ex rnd' n"
proof -
  have "fold (gridStep rc qc cnt ex rnd) [0..<cnt] ([], n) = fold (gridStep rc qc cnt ex rnd') [0..<cnt] ([], n)"
    by (rule fold_gridStep_cong) (use assms in auto)
  then show ?thesis
    by (simp add: generateGridPositions_def forLoop_fold del: forLoop.simps)
qed

subsection \<open>Groups of the spiral layout\<close>

lemma technologyOf_extend_position [simp]:
  "technologyOf (RadarTechnology.extend (tech :: RadarTechnology) (TechnologyPosition.fields a b c)) = tech"
  by (simp add: technologyOf_def RadarTechnology.extend_def RadarTechnology.truncate_def
      TechnologyPosition.fields_def)



lemma map_fst_zip_upt [simp]: "map fst (zip xs [0..<length xs]) = xs"
  by (rule nth_equalityI) simp_all





lemma calculateTechnologyPositions_Inl:
  "grouped techs = Inl e \<Longrightarrow> calculateTechnologyPositions techs rings rnd = Inl e"
  by (simp add: calculateTechnologyPositions_def)


lemma groupStep_Inl [simp]: "groupStep (Inl e) tech = Inl e"
  by (simp add: groupStep_def)

lemma foldl_groupStep_Inl [simp]: "foldl groupStep (Inl e) techs = Inl e"
  by (induction techs) simp_all


lemma set_Object_entries [simp]: "set (Object_entries obj) = set obj"
  by (auto simp: Object_entries_def)





subsection \<open>The retry loops\<close>

declare placeLoop.simps [simp del] adjustLoop.simps [simp del]

lemma scanExisting_fst:
  "fst (scanExisting p es md m) = tooClose md es p"
  by (induction es arbitrary: m) (simp_all add: tooClose_def Let_def)

lemma tooClose_Nil [simp]: "\<not> tooClose md [] p"
  by (simp add: tooClose_def)

lemma placeLoop_unfold:
  "placeLoop c es md maxAttempts attempts bp bd =
     (if attempts < maxAttempts then
        (if \<not> tooClose md es (c attempts) then (c attempts, attempts)
         else if recordedDistance md es (c attempts) > bd
         then placeLoop c es md maxAttempts (Suc attempts) (c attempts) (recordedDistance md es (c attempts))
         else placeLoop c es md maxAttempts (Suc attempts) bp bd)
      else (bp, attempts))"
proof -
  obtain h m where sc: "scanExisting (c attempts) es md MAX_VALUE = (h, m)"
    by (cases "scanExisting (c attempts) es md MAX_VALUE")
  from sc scanExisting_fst [of "c attempts" es md MAX_VALUE] have h: "h = tooClose md es (c attempts)"
    by simp
  from sc have m: "m = recordedDistance md es (c attempts)"
    by (simp add: recordedDistance_def)
  have ne: "tooClose md es (c attempts) \<Longrightarrow> es \<noteq> []"
    by (auto simp: tooClose_def)
  show ?thesis
    apply (subst placeLoop.simps)
    using ne by (auto simp: sc h [symmetric] m [symmetric])
qed

lemma placeLoop_step_accept:
  assumes "attempts < maxAttempts" "\<not> tooClose md es (c attempts)"
  shows "placeLoop c es md maxAttempts attempts bp bd = (c attempts, attempts)"
  using assms by (subst placeLoop_unfold) simp

lemma placeLoop_step_collide:
  assumes "attempts < maxAttempts" "tooClose md es (c attempts)"
  shows "\<exists>bp' bd'. (bp' = bp \<or> bp' = c attempts)
     \<and> placeLoop c es md maxAttempts attempts bp bd = placeLoop c es md maxAttempts (Suc attempts) bp' bd'"
proof (cases "recordedDistance md es (c attempts) > bd")
  case True
  with assms have "placeLoop c es md maxAttempts attempts bp bd
      = placeLoop c es md maxAttempts (Suc attempts) (c attempts) (recordedDistance md es (c attempts))"
    by (subst placeLoop_unfold) simp
  then show ?thesis by blast
next
  case False
  with assms have "placeLoop c es md maxAttempts attempts bp bd
      = placeLoop c es md maxAttempts (Suc attempts) bp bd"
    by (subst placeLoop_unfold) simp
  then show ?thesis by blast
qed

lemma placeLoop_accept:
  assumes "attempts \<le> k" "k < maxAttempts" "\<not> tooClose md es (c k)"
    and "\<And>j. attempts \<le> j \<Longrightarrow> j < k \<Longrightarrow> tooClose md es (c j)"
  shows "placeLoop c es md maxAttempts attempts bp bd = (c k, k)"
  using assms
proof (induction "k - attempts" arbitrary: attempts bp bd)
  case 0
  then have "attempts = k" by simp
  with 0 show ?case by (simp add: placeLoop_step_accept)
next
  case (Suc d)
  then have lt: "attempts < k" by simp
  with Suc.prems have a: "attempts < maxAttempts" and t: "tooClose md es (c attempts)" by simp_all
  from placeLoop_step_collide [of attempts maxAttempts md es c bp bd, OF a t] obtain bp' bd' where
    eq: "placeLoop c es md maxAttempts attempts bp bd = placeLoop c es md maxAttempts (Suc attempts) bp' bd'"
    by blast
  have "placeLoop c es md maxAttempts (Suc attempts) bp' bd' = (c k, k)"
    by (rule Suc.hyps(1)) (use Suc.hyps(2) Suc.prems lt in auto)
  with eq show ?case by simp
qed

lemma placeLoop_exhausted:
  assumes "\<And>j. attempts \<le> j \<Longrightarrow> j < maxAttempts \<Longrightarrow> tooClose md es (c j)"
  shows "snd (placeLoop c es md maxAttempts attempts bp bd) = max attempts maxAttempts
     \<and> (fst (placeLoop c es md maxAttempts attempts bp bd) = bp
        \<or> (\<exists>k. attempts \<le> k \<and> k < maxAttempts \<and> fst (placeLoop c es md maxAttempts attempts bp bd) = c k))"
  using assms
proof (induction "maxAttempts - attempts" arbitrary: attempts bp bd)
  case 0
  then show ?case by (subst (1 2 3) placeLoop_unfold) (simp add: max_def)
next
  case (Suc d)
  then have a: "attempts < maxAttempts" by simp
  with Suc.prems have t: "tooClose md es (c attempts)" by simp
  from placeLoop_step_collide [of attempts maxAttempts md es c bp bd, OF a t] obtain bp' bd' where
    bp': "bp' = bp \<or> bp' = c attempts" and
    eq: "placeLoop c es md maxAttempts attempts bp bd = placeLoop c es md maxAttempts (Suc attempts) bp' bd'"
    by blast
  have IH: "snd (placeLoop c es md maxAttempts (Suc attempts) bp' bd') = max (Suc attempts) maxAttempts
     \<and> (fst (placeLoop c es md maxAttempts (Suc attempts) bp' bd') = bp'
        \<or> (\<exists>k. Suc attempts \<le> k \<and> k < maxAttempts \<and> fst (placeLoop c es md maxAttempts (Suc attempts) bp' bd') = c k))"
    by (rule Suc.hyps(1)) (use Suc.hyps(2) Suc.prems in auto)
  show ?case
    unfolding eq using IH bp' a by (auto simp: max_def intro: Suc_leD)
qed

lemma placeLoop_attempts: "snd (placeLoop c es md maxAttempts attempts bp bd) \<le> max attempts maxAttempts"
proof (induction "maxAttempts - attempts" arbitrary: attempts bp bd)
  case 0
  then show ?case by (subst placeLoop_unfold) simp
next
  case (Suc d)
  then have a: "attempts < maxAttempts" by simp
  have IH: "snd (placeLoop c es md maxAttempts (Suc attempts) bp' bd') \<le> max (Suc attempts) maxAttempts" for bp' bd'
    by (rule Suc.hyps(1)) (use Suc.hyps(2) in auto)
  show ?case
    by (subst placeLoop_unfold) (use a IH in \<open>auto simp: max_def\<close>)
qed

lemma placeLoop_cong:
  assumes "\<And>k. attempts \<le> k \<Longrightarrow> k < maxAttempts \<Longrightarrow> c k = c' k"
  shows "placeLoop c es md maxAttempts attempts bp bd = placeLoop c' es md maxAttempts attempts bp bd"
  using assms
proof (induction "maxAttempts - attempts" arbitrary: attempts bp bd)
  case 0
  then show ?case by (simp add: placeLoop_unfold [of c] placeLoop_unfold [of c'])
next
  case (Suc d)
  then have a: "attempts < maxAttempts" by simp
  with Suc.prems have c: "c attempts = c' attempts" by simp
  have IH: "placeLoop c es md maxAttempts (Suc attempts) bp' bd' = placeLoop c' es md maxAttempts (Suc attempts) bp' bd'" for bp' bd'
    by (rule Suc.hyps(1)) (use Suc.hyps(2) Suc.prems in auto)
  show ?case
    by (subst placeLoop_unfold, subst (2) placeLoop_unfold) (simp add: a c IH)
qed

lemma adjustLoop_accept:
  assumes "k < maxAttempts" "\<not> collides (nthCandidate resample final k)"
    and "\<And>j. j < k \<Longrightarrow> collides (nthCandidate resample final j)"
  shows "adjustLoop resample collides maxAttempts 0 final = (nthCandidate resample final k, k)"
proof -
  have "attempts \<le> k \<Longrightarrow> cur = nthCandidate resample final attempts
     \<Longrightarrow> adjustLoop resample collides maxAttempts attempts cur = (nthCandidate resample final k, k)"
    for attempts cur
  proof (induction "k - attempts" arbitrary: attempts cur)
    case 0
    with assms(1,2) show ?case by (subst adjustLoop.simps) simp
  next
    case (Suc d)
    then have lt: "attempts < k" by simp
    with assms(1,3) Suc.prems have a: "attempts < maxAttempts" and t: "collides cur" by simp_all
    have "adjustLoop resample collides maxAttempts (Suc attempts) (resample attempts) = (nthCandidate resample final k, k)"
      by (rule Suc.hyps(1)) (use Suc.hyps(2) lt in \<open>auto simp: nthCandidate_def\<close>)
    with a t show ?case by (subst adjustLoop.simps) simp
  qed
  from this [of 0 final] show ?thesis by (simp add: nthCandidate_def)
qed

lemma adjustLoop_exhausted:
  assumes "\<And>j. j < maxAttempts \<Longrightarrow> collides (nthCandidate resample final j)"
  shows "adjustLoop resample collides maxAttempts 0 final = (nthCandidate resample final maxAttempts, maxAttempts)"
proof -
  have "attempts \<le> maxAttempts \<Longrightarrow> cur = nthCandidate resample final attempts
     \<Longrightarrow> adjustLoop resample collides maxAttempts attempts cur
          = (nthCandidate resample final maxAttempts, maxAttempts)"
    for attempts cur
  proof (induction "maxAttempts - attempts" arbitrary: attempts cur)
    case 0
    then show ?case by (subst adjustLoop.simps) simp
  next
    case (Suc d)
    then have a: "attempts < maxAttempts" by simp
    with assms Suc.prems have t: "collides cur" by simp
    have "adjustLoop resample collides maxAttempts (Suc attempts) (resample attempts)
            = (nthCandidate resample final maxAttempts, maxAttempts)"
      by (rule Suc.hyps(1)) (use Suc.hyps(2) a in \<open>auto simp: nthCandidate_def\<close>)
    with a t show ?case by (subst adjustLoop.simps) simp
  qed
  from this [of 0 final] show ?thesis by (simp add: nthCandidate_def)
qed

lemma adjustLoop_attempts: "snd (adjustLoop resample collides maxAttempts attempts final) \<le> max attempts maxAttempts"
proof (induction resample collides maxAttempts attempts final rule: adjustLoop.induct)
  case (1 resample collides maxAttempts attempts final)
  show ?case
  proof (cases "attempts < maxAttempts \<and> collides final")
    case True
    with 1 show ?thesis
      by (subst adjustLoop.simps) (simp add: max_def)
  next
    case False
    then show ?thesis by (subst adjustLoop.simps) (auto simp: max_def)
  qed
qed

lemma MAX_VALUE_large: "1024 \<le> MAX_VALUE"
proof -
  have "(2::real) ^ 10 \<le> 2 ^ 1023"
    by (rule power_increasing) simp_all
  moreover have "(1::real) \<le> 2 - 1 / 2 ^ 52"
    by simp
  ultimately have "1 * (2::real) ^ 10 \<le> (2 - 1 / 2 ^ 52) * 2 ^ 1023"
    by (intro mult_mono) simp_all
  then show ?thesis
    by (simp add: MAX_VALUE_def)
qed

lemma distance_on_axis [simp]: "distance (a, 0) (b, 0) = \<bar>a - b\<bar>"
  by (simp add: distance_def)

lemma recordedDistance_first:
  assumes "distance p e < md" "distance p e \<le> MAX_VALUE"
  shows "recordedDistance md (e # es) p = distance p e"
  using assms by (simp add: recordedDistance_def Let_def min_def)

lemma tooClose_Cons [simp]:
  "tooClose md (e # es) p = (distance p e < md \<or> tooClose md es p)"
  by (simp add: tooClose_def)

lemma calculatePosition_attempts_TR_le: "snd (calculatePosition_attempts_TR item allItems itemIndex) \<le> 50"
proof -
  have "snd (placeLoop c es md 50 0 bp bd) \<le> 50" for c es md bp bd
    using placeLoop_attempts [of c es md 50 0 bp bd] by simp
  then show ?thesis
    by (simp add: calculatePosition_attempts_TR_def Let_def split: option.splits)
qed

lemma calculateOptimizedPosition_attempts_le:
  "snd (calculateOptimizedPosition_attempts tech items center) \<le> 10"
proof -
  have "snd (adjustLoop r c 10 0 f) \<le> 10" for r c f
    using adjustLoop_attempts [of r c 10 0 f] by simp
  then show ?thesis
    by (simp add: calculateOptimizedPosition_attempts_def Let_def case_prod_beta
        split: property.splits)
qed

lemma findForceBasedPosition_funpow:
  "findForceBasedPosition rc qc ex md = ((forceStep rc qc ex md) ^^ 50) (midPoint rc qc)"
  by (simp add: findForceBasedPosition_def forLoop_funpow del: forLoop.simps)

lemma findEmergencyPosition_funpow:
  "findEmergencyPosition rc qc ex = ((emergencyStep rc ex) ^^ 30) (midPoint rc qc)"
  by (simp add: findEmergencyPosition_def forLoop_funpow del: forLoop.simps)

subsection \<open>Concrete keys and groups\<close>

lemma technology_sel [simp]:
  "name (technology n q r) = n" "quadrant (technology n q r) = q" "ring (technology n q r) = r"
  by (simp_all add: technology_def)

lemma nk1: "normalizeKey ''Tools'' = ''tools''"
  by code_simp

lemma nk2: "normalizeKey ''Languages & Frameworks'' = ''languagesframeworks''"
  by code_simp

lemma nk3: "normalizeKey ''Platforms'' = ''platforms''" "toLowerCase ''Adopt'' = ''adopt''" "toLowerCase ''ADOPT'' = ''adopt''"
  by code_simp+


lemma ai: "\<not> isArrayIndex ''tools''" "\<not> isArrayIndex ''platforms''" "\<not> isArrayIndex ''adopt''"
  by code_simp+



subsection \<open>Unresolved categories and levels\<close>

lemma unresolved_TR:
  assumes "find (\<lambda>q. key q = normalizeKey (quadrant item)) quadrants = None
           \<or> findIndex (\<lambda>r. ring_name r = ring item) rings_TR = None"
  shows "calculatePosition_TR item allItems itemIndex = (center_TR, center_TR)"
  using assms
  by (auto simp: calculatePosition_TR_def calculatePosition_attempts_TR_def split: option.splits)

lemma unresolved_opt:
  assumes "getProperty quadrantMap_opt (normalizeKey (quadrant tech)) = Undefined
           \<or> getProperty ringMap (toLowerCase (ring tech)) = Undefined"
  shows "calculateOptimizedPosition tech items center = (Some center, Some center)"
  using assms
  by (auto simp: calculateOptimizedPosition_def calculateOptimizedPosition_attempts_def Let_def
      split: property.splits)

lemma inherited_opt:
  assumes "getProperty quadrantMap_opt (normalizeKey (quadrant tech)) = Inherited"
    and "getProperty ringMap (toLowerCase (ring tech)) \<noteq> Undefined"
  shows "calculateOptimizedPosition tech items center = (None, None)"
  using assms
  by (auto simp: calculateOptimizedPosition_def calculateOptimizedPosition_attempts_def Let_def
      split: property.splits)

lemma nk_constructor: "normalizeKey ''constructor'' = ''constructor''"
  by code_simp

lemma getProperty_constructor: "getProperty quadrantMap_opt ''constructor'' = Inherited"
  by (simp add: getProperty_def quadrantMap_opt_def Object_prototype_keys_def)

lemma getProperty_adopt: "getProperty ringMap ''adopt'' \<noteq> Undefined"
  by (simp add: getProperty_def ringMap_def)

subsection \<open>Spiral candidates under constant random draws\<close>

lemma pi_ge_3: "3 \<le> pi"
proof -
  have "sin (pi / 6) \<le> pi / 6"
    by (rule sin_x_le_x) simp
  then show ?thesis by (simp add: sin_30)
qed

lemma distance_polar:
  assumes "0 \<le> r"
  shows "distance (cos a * r, sin a * r) (cos b * r, sin b * r) = r * sqrt (2 - 2 * cos (a - b))"
proof -
  have alg: "(ca * r - cb * r)\<^sup>2 + (sa * r - sb * r)\<^sup>2
      = r\<^sup>2 * ((ca\<^sup>2 + sa\<^sup>2) + (cb\<^sup>2 + sb\<^sup>2) - 2 * (ca * cb + sa * sb))"
    for ca sa cb sb :: real
    by (simp add: power2_eq_square algebra_simps)
  have "(cos a * r - cos b * r)\<^sup>2 + (sin a * r - sin b * r)\<^sup>2
      = r\<^sup>2 * (((cos a)\<^sup>2 + (sin a)\<^sup>2) + ((cos b)\<^sup>2 + (sin b)\<^sup>2) - 2 * (cos a * cos b + sin a * sin b))"
    by (rule alg)
  also have "\<dots> = r\<^sup>2 * (2 - 2 * cos (a - b))"
    by (simp add: cos_diff)
  finally show ?thesis
    using assms by (simp add: distance_def real_sqrt_mult)
qed

lemma distance_polar_far:
  assumes "pi / 6 \<le> a - b" "a - b \<le> pi"
  shows "32 \<le> distance (cos a * 150, sin a * 150) (cos b * 150, sin b * 150)"
proof -
  have "cos (a - b) \<le> cos (pi / 6)"
    using assms by (intro cos_monotone_0_pi_le) simp_all
  also have "\<dots> = sqrt 3 / 2" by (rule cos_30)
  also have "\<dots> \<le> 9 / 10"
  proof -
    have "sqrt 3 \<le> sqrt ((9 / 5)\<^sup>2)"
      by (intro real_sqrt_le_mono) (simp add: power2_eq_square)
    then show ?thesis by simp
  qed
  finally have "(1 / 5 :: real) \<le> 2 - 2 * cos (a - b)" by simp
  then have "sqrt ((32 / 150)\<^sup>2) \<le> sqrt (2 - 2 * cos (a - b))"
    by (intro real_sqrt_le_mono) (simp add: power2_eq_square)
  then have "32 / 150 \<le> sqrt (2 - 2 * cos (a - b))" by simp
  then show ?thesis
    by (simp add: distance_polar)
qed

lemma attemptStep_const:
  "attemptStep c others md (\<lambda>k. r) (b, m, n) =
     (if ext_ge (minDistanceTo others (c r r)) md \<and> ext_gt (minDistanceTo others (c r r)) m
      then (Some (c r r), minDistanceTo others (c r r), n + 2) else (b, m, n + 2))"
  by (simp add: attemptStep_def Let_def)

lemma ext_gt_irrefl [simp]: "\<not> ext_gt d d"
  by (cases d) simp_all

lemma fold_attemptStep_accepted:
  "fold (\<lambda>attempt. attemptStep c others md (\<lambda>k. r)) as
           (Some (c r r), minDistanceTo others (c r r), n)
       = (Some (c r r), minDistanceTo others (c r r), n + 2 * length as)"
  by (induction as arbitrary: n) (simp_all add: attemptStep_const)

lemma fold_attemptStep_const:
  "fold (\<lambda>attempt. attemptStep c others md (\<lambda>k. r)) as (None, Finite 0, n)
       = (if as \<noteq> [] \<and> ext_ge (minDistanceTo others (c r r)) md
               \<and> ext_gt (minDistanceTo others (c r r)) (Finite 0)
          then (Some (c r r), minDistanceTo others (c r r), n + 2 * length as)
          else (None, Finite 0, n + 2 * length as))"
proof (induction as arbitrary: n)
  case Nil
  then show ?case by simp
next
  case (Cons a as)
  show ?case
    using Cons.IH [of "n + 2"] fold_attemptStep_accepted [of c others md r as "n + 2"]
    by (simp add: attemptStep_const)
qed

lemma gridStep_const:
  "gridStep rc qc cnt ex (\<lambda>k. r) i (positions, n) =
     (if ext_ge (minDistanceTo (ex @ positions) (gridCandidate rc qc cnt i r r)) 32
         \<and> ext_gt (minDistanceTo (ex @ positions) (gridCandidate rc qc cnt i r r)) (Finite 0)
      then (positions @ [gridCandidate rc qc cnt i r r], n + 40)
      else (positions @ [findForceBasedPosition rc qc (ex @ positions) 32], n + 40))"
  by (simp add: gridStep_def Let_def forLoop_fold fold_attemptStep_const del: forLoop.simps)

lemma minDistanceTo_Nil [simp]: "minDistanceTo [] p = Infinity"
  by (simp add: minDistanceTo_def)

lemma minDistanceTo_single [simp]: "minDistanceTo [e] p = Finite (distance p e)"
  by (simp add: minDistanceTo_def)

lemma generateGridPositions_two_const:
  assumes "32 \<le> distance (gridCandidate rc qc 2 1 r r) (gridCandidate rc qc 2 0 r r)"
  shows "generateGridPositions rc qc 2 [] (\<lambda>k. r) 0
       = ([gridCandidate rc qc 2 0 r r, gridCandidate rc qc 2 1 r r], 80)"
proof -
  have "[0..<2] = [0, 1::nat]" by (simp add: upt_rec)
  then show ?thesis
    using assms
    by (simp add: generateGridPositions_def forLoop_fold gridStep_const del: forLoop.simps)
qed

lemma gridCandidate_HOLD_PLAT:
  "gridCandidate HOLD PLAT 2 i r r' =
     (let clampedAngle = max (1 / 4) (min (pi / 2 - 1 / 4)
            (3 / 20 + real i / 2 * (pi / 2 - 3 / 10) + (r - 1 / 2) * ((pi / 2 - 3 / 10) / 6) * (4 / 5)))
      in (cos clampedAngle * 150, sin clampedAngle * 150))"
proof -
  have radius: "max 150 (min 135 x) = (150::real)" for x
    by (simp add: max_def min_def)
  have angle: "3 / 20 + real i / 2 * (pi / 2 - 3 / 20 - 3 / 20) + (r - 5 / 10) * ((pi / 2 - 3 / 20 - 3 / 20) / 6) * (8 / 10)
      = 3 / 20 + real i / 2 * (pi / 2 - 3 / 10) + (r - 1 / 2) * ((pi / 2 - 3 / 10) / 6) * (4 / 5)"
    by simp
  have "gridCandidate HOLD PLAT 2 i r r' =
     (cos (max (3 / 20 + 1 / 10) (min (pi / 2 - 3 / 20 - 1 / 10)
            (3 / 20 + real i / 2 * (pi / 2 - 3 / 20 - 3 / 20) + (r - 5 / 10) * ((pi / 2 - 3 / 20 - 3 / 20) / 6) * (8 / 10)))) * 150,
      sin (max (3 / 20 + 1 / 10) (min (pi / 2 - 3 / 20 - 1 / 10)
            (3 / 20 + real i / 2 * (pi / 2 - 3 / 20 - 3 / 20) + (r - 5 / 10) * ((pi / 2 - 3 / 20 - 3 / 20) / 6) * (8 / 10)))) * 150)"
    by (simp add: gridCandidate_def HOLD_def PLAT_def Let_def radius mult.commute)
  also have "\<dots> = (let clampedAngle = max (1 / 4) (min (pi / 2 - 1 / 4)
            (3 / 20 + real i / 2 * (pi / 2 - 3 / 10) + (r - 1 / 2) * ((pi / 2 - 3 / 10) / 6) * (4 / 5)))
      in (cos clampedAngle * 150, sin clampedAngle * 150))"
    unfolding angle Let_def by simp
  finally show ?thesis .
qed

lemma gc0: "r = 1 / 2 \<or> r = 3 / 4 \<Longrightarrow> gridCandidate HOLD PLAT 2 0 r r' = (cos (1 / 4) * 150, sin (1 / 4) * 150)"
proof -
  assume r: "r = 1 / 2 \<or> r = 3 / 4"
  have e1: "3 / 20 + real 0 / 2 * (pi / 2 - 3 / 10) + (1 / 2 - 1 / 2) * ((pi / 2 - 3 / 10) / 6) * (4 / 5)
      = 3 / 20"
    by simp
  have e2: "3 / 20 + real 0 / 2 * (pi / 2 - 3 / 10) + (3 / 4 - 1 / 2) * ((pi / 2 - 3 / 10) / 6) * (4 / 5)
      = 7 / 50 + pi / 60"
    by (simp add: field_simps)
  have m1: "max (1 / 4) (min (pi / 2 - 1 / 4) (3 / 20)) = 1 / 4"
    using pi_ge_3 pi_less_4 by (auto simp: max_def min_def)
  have m2: "max (1 / 4) (min (pi / 2 - 1 / 4) (7 / 50 + pi / 60)) = 1 / 4"
    using pi_ge_3 pi_less_4 by (auto simp: max_def min_def)
  from r show ?thesis
  proof
    assume "r = 1 / 2"
    then show ?thesis by (simp only: gridCandidate_HOLD_PLAT Let_def e1 m1)
  next
    assume "r = 3 / 4"
    then show ?thesis by (simp only: gridCandidate_HOLD_PLAT Let_def e2 m2)
  qed
qed

lemma gc1_half: "gridCandidate HOLD PLAT 2 1 (1 / 2) r' = (cos (pi / 4) * 150, sin (pi / 4) * 150)"
proof -
  have e: "3 / 20 + real 1 / 2 * (pi / 2 - 3 / 10) + (1 / 2 - 1 / 2) * ((pi / 2 - 3 / 10) / 6) * (4 / 5) = pi / 4"
    by (simp add: field_simps)
  have "max (1 / 4) (min (pi / 2 - 1 / 4) (pi / 4)) = pi / 4"
    using pi_ge_3 pi_less_4 by (auto simp: max_def min_def)
  then show ?thesis
    by (simp only: gridCandidate_HOLD_PLAT Let_def e)
qed

lemma gc1_three_quarters:
  "gridCandidate HOLD PLAT 2 1 (3 / 4) r' = (cos (4 * pi / 15 - 1 / 100) * 150, sin (4 * pi / 15 - 1 / 100) * 150)"
proof -
  have e: "3 / 20 + real 1 / 2 * (pi / 2 - 3 / 10) + (3 / 4 - 1 / 2) * ((pi / 2 - 3 / 10) / 6) * (4 / 5)
      = 4 * pi / 15 - 1 / 100"
    by (simp add: field_simps)
  have "max (1 / 4) (min (pi / 2 - 1 / 4) (4 * pi / 15 - 1 / 100)) = 4 * pi / 15 - 1 / 100"
    using pi_ge_3 pi_less_4 by (auto simp: max_def min_def)
  then show ?thesis
    by (simp only: gridCandidate_HOLD_PLAT Let_def e)
qed

lemma grid_half:
  "generateGridPositions HOLD PLAT 2 [] (\<lambda>k. 1 / 2) 0
     = ([(cos (1 / 4) * 150, sin (1 / 4) * 150), (cos (pi / 4) * 150, sin (pi / 4) * 150)], 80)"
proof -
  have c0: "gridCandidate HOLD PLAT 2 0 (1 / 2) (1 / 2) = (cos (1 / 4) * 150, sin (1 / 4) * 150)"
    by (rule gc0) simp
  have c1: "gridCandidate HOLD PLAT 2 1 (1 / 2) (1 / 2) = (cos (pi / 4) * 150, sin (pi / 4) * 150)"
    by (rule gc1_half)
  have "32 \<le> distance (cos (pi / 4) * 150, sin (pi / 4) * 150) (cos (1 / 4) * 150, sin (1 / 4) * 150)"
    using pi_ge_3 by (intro distance_polar_far) simp_all
  then have "32 \<le> distance (gridCandidate HOLD PLAT 2 1 (1 / 2) (1 / 2))
                      (gridCandidate HOLD PLAT 2 0 (1 / 2) (1 / 2))"
    by (simp only: c0 c1)
  from generateGridPositions_two_const [OF this] show ?thesis
    by (simp only: c0 c1)
qed

lemma grid_three_quarters:
  "generateGridPositions HOLD PLAT 2 [] (\<lambda>k. 3 / 4) 0
     = ([(cos (1 / 4) * 150, sin (1 / 4) * 150),
         (cos (4 * pi / 15 - 1 / 100) * 150, sin (4 * pi / 15 - 1 / 100) * 150)], 80)"
proof -
  have c0: "gridCandidate HOLD PLAT 2 0 (3 / 4) (3 / 4) = (cos (1 / 4) * 150, sin (1 / 4) * 150)"
    by (rule gc0) simp
  have c1: "gridCandidate HOLD PLAT 2 1 (3 / 4) (3 / 4)
      = (cos (4 * pi / 15 - 1 / 100) * 150, sin (4 * pi / 15 - 1 / 100) * 150)"
    by (rule gc1_three_quarters)
  have "32 \<le> distance (cos (4 * pi / 15 - 1 / 100) * 150, sin (4 * pi / 15 - 1 / 100) * 150)
                (cos (1 / 4) * 150, sin (1 / 4) * 150)"
    using pi_ge_3 by (intro distance_polar_far) simp_all
  then have "32 \<le> distance (gridCandidate HOLD PLAT 2 1 (3 / 4) (3 / 4))
                      (gridCandidate HOLD PLAT 2 0 (3 / 4) (3 / 4))"
    by (simp only: c0 c1)
  from generateGridPositions_two_const [OF this] show ?thesis
    by (simp only: c0 c1)
qed

lemma cos_differs: "cos (pi / 4) \<noteq> cos (4 * pi / 15 - 1 / 100)"
proof
  assume "cos (pi / 4) = cos (4 * pi / 15 - 1 / 100)"
  moreover have "0 \<le> pi / 4" "pi / 4 \<le> pi" "0 \<le> 4 * pi / 15 - 1 / 100" "4 * pi / 15 - 1 / 100 \<le> pi"
    using pi_ge_3 by linarith+
  ultimately have "pi / 4 = 4 * pi / 15 - 1 / 100"
    by (rule cos_inj_pi [rotated 4])
  with pi_ge_3 show False by linarith
qed

lemma nk_hold: "toLowerCase ''Hold'' = ''hold''" "toLowerCase ''HOLD'' = ''hold''"
  "toLowerCase ''TRIAL'' \<noteq> ''hold''" "toLowerCase ''ASSESS'' \<noteq> ''hold''" "toLowerCase ''ADOPT'' \<noteq> ''hold''"
  "\<not> isArrayIndex ''hold''"
  by code_simp+

lemma grouped_two:
  "grouped [technology ''A'' ''Platforms'' ''Hold'', technology ''B'' ''Platforms'' ''Hold'']
     = Inr [(''platforms'', [(''hold'', [technology ''A'' ''Platforms'' ''Hold'',
                                         technology ''B'' ''Platforms'' ''Hold''])])]"
  by (simp add: grouped_def groupStep_def nk3 nk_hold Object_prototype_keys_def Let_def)

lemma layout_two:
  assumes "generateGridPositions HOLD PLAT 2 [] rnd 0 = ([p0, p1], n)"
  shows "calculateTechnologyPositions
           [technology ''A'' ''Platforms'' ''Hold'', technology ''B'' ''Platforms'' ''Hold''] rings_TR rnd
     = Inr [RadarTechnology.extend (technology ''A'' ''Platforms'' ''Hold'')
              (TechnologyPosition.fields 1 (Some (fst p0)) (Some (snd p0))),
            RadarTechnology.extend (technology ''B'' ''Platforms'' ''Hold'')
              (TechnologyPosition.fields 2 (Some (fst p1)) (Some (snd p1)))]"
proof -
  have f: "find (\<lambda>r. toLowerCase (ring_name r) = ''hold'') rings_TR = Some HOLD"
    by (simp add: rings_TR_def nk_hold HOLD_def)
  have q: "map_of quadrantMap ''platforms'' = Some PLAT"
    by (simp add: quadrantMap_def PLAT_def)
  have z: "zip [technology ''A'' ''Platforms'' ''Hold'', technology ''B'' ''Platforms'' ''Hold''] [0..<2]
      = [(technology ''A'' ''Platforms'' ''Hold'', 0), (technology ''B'' ''Platforms'' ''Hold'', 1)]"
    by (simp add: upt_rec)
  have g: "generateGridPositions HOLD PLAT (Suc (Suc 0)) [] rnd 0 = ([p0, p1], n)"
    using assms by (simp add: numeral_2_eq_2)
  have two: "Suc (Suc 0) = 2" by simp
  show ?thesis
    by (simp add: calculateTechnologyPositions_def grouped_two Object_entries_def ai nk_hold
        placeQuadrant_def placeGroup_def f q g z placeTech_def Let_def)
      (simp only: two)
qed

subsection \<open>Polar angles and margins\<close>

lemma normalizedAngle_eq:
  "normalizedAngle (dx, dy) = (if atan2 dy dx < 0 then atan2 dy dx + 2 * pi else atan2 dy dx)"
  by (simp add: normalizedAngle_def Let_def)

lemma normalizedAngle_quadrant1:
  assumes "0 < dx" "0 < dy"
  shows "0 < normalizedAngle (dx, dy) \<and> normalizedAngle (dx, dy) < pi / 2"
proof -
  define t where "t = arctan (dy / dx)"
  have "0 < dy / dx" using assms by simp
  then have "0 < t" by (simp add: t_def zero_less_arctan_iff)
  moreover have "t < pi / 2" unfolding t_def by (rule arctan_ubound)
  moreover have "atan2 dy dx = t" using assms by (simp add: atan2_def t_def)
  ultimately show ?thesis
    by (simp add: normalizedAngle_eq)
qed

lemma normalizedAngle_quadrant2:
  assumes "dx < 0" "0 < dy"
  shows "pi / 2 < normalizedAngle (dx, dy) \<and> normalizedAngle (dx, dy) < pi"
proof -
  define t where "t = arctan (dy / dx)"
  have "dy / dx < 0" using assms by (simp add: divide_pos_neg)
  then have "t < 0" by (simp add: t_def arctan_less_zero_iff)
  moreover have "- (pi / 2) < t" unfolding t_def by (rule arctan_lbound)
  moreover have "atan2 dy dx = t + pi" using assms by (simp add: atan2_def t_def)
  ultimately show ?thesis
    by (simp add: normalizedAngle_eq)
qed

lemma normalizedAngle_quadrant3:
  assumes "dx < 0" "dy < 0"
  shows "pi < normalizedAngle (dx, dy) \<and> normalizedAngle (dx, dy) < 3 * pi / 2"
proof -
  define t where "t = arctan (dy / dx)"
  have "0 < dy / dx" using assms by (simp add: divide_neg_neg)
  then have "0 < t" by (simp add: t_def zero_less_arctan_iff)
  moreover have "t < pi / 2" unfolding t_def by (rule arctan_ubound)
  moreover have "atan2 dy dx = t - pi" using assms by (simp add: atan2_def t_def)
  ultimately show ?thesis
    by (simp add: normalizedAngle_eq)
qed

lemma normalizedAngle_quadrant4:
  assumes "0 < dx" "dy < 0"
  shows "3 * pi / 2 < normalizedAngle (dx, dy) \<and> normalizedAngle (dx, dy) < 2 * pi"
proof -
  define t where "t = arctan (dy / dx)"
  have "dy / dx < 0" using assms by (simp add: divide_neg_pos)
  then have "t < 0" by (simp add: t_def arctan_less_zero_iff)
  moreover have "- (pi / 2) < t" unfolding t_def by (rule arctan_lbound)
  moreover have "atan2 dy dx = t" using assms by (simp add: atan2_def t_def)
  ultimately show ?thesis
    by (simp add: normalizedAngle_eq)
qed

lemma sin_lower:
  fixes x :: real
  assumes "0 \<le> x"
  shows "x - x ^ 3 / 6 \<le> sin x"
proof -
  have "\<bar>sin x - (\<Sum>m<3. sin_coeff m * x ^ m)\<bar> \<le> inverse (fact 3) * \<bar>x\<bar> ^ 3"
    by (rule Maclaurin_sin_bound)
  moreover have "(\<Sum>m<3. sin_coeff m * x ^ m) = x"
    by (simp add: sin_coeff_def numeral_3_eq_3)
  moreover have "inverse (fact 3) * \<bar>x\<bar> ^ 3 = x ^ 3 / 6"
    using assms by (simp add: fact_numeral)
  ultimately show ?thesis by linarith
qed

lemma sin_margin: "1 / 7 < sin (3 * pi / 40)"
proof -
  have "(9 / 40 :: real) - (9 / 40) ^ 3 / 6 \<le> sin (9 / 40)"
    by (rule sin_lower) simp
  moreover have "sin (9 / 40) \<le> sin (3 * pi / 40)"
    using pi_ge_3 pi_less_4 by (subst sin_mono_le_eq) simp_all
  moreover have "(1 / 7 :: real) < 9 / 40 - (9 / 40) ^ 3 / 6"
    by (simp add: power3_eq_cube)
  ultimately show ?thesis by linarith
qed

lemma sin_cos_margin:
  assumes "3 * pi / 40 \<le> b" "b \<le> 17 * pi / 40"
  shows "1 / 7 < sin b \<and> 1 / 7 < cos b"
proof -
  have "sin (3 * pi / 40) \<le> sin b"
    using assms pi_ge_3 by (subst sin_mono_le_eq) simp_all
  with sin_margin have 1: "1 / 7 < sin b" by linarith
  have "sin (3 * pi / 40) \<le> sin (pi / 2 - b)"
    using assms pi_ge_3 by (subst sin_mono_le_eq) simp_all
  with sin_margin have "1 / 7 < cos b" by (simp add: sin_diff)
  with 1 show ?thesis by simp
qed

subsection \<open>Angle and radius of the seeded-jitter layout\<close>

lemma unit_random: "0 \<le> sin t * 0.5 + 0.5 \<and> sin t * 0.5 + 0.5 \<le> (1::real)"
proof -
  have "0 \<le> sin t * (1 / 2) + 1 / 2 \<and> sin t * (1 / 2) + 1 / 2 \<le> 1"
    using sin_ge_minus_one [of t] sin_le_one [of t] by linarith
  then show ?thesis by simp
qed

lemma angle_V8_single_eq:
  "angle_V8 s R r1 idx 1 = s + R / 2 + (r1 - 1 / 2) * (R * (3 / 10))"
  by (simp add: angle_V8_def Let_def algebra_simps)

lemma angle_V8_single:
  assumes "0 \<le> r1" "r1 \<le> 1" "0 \<le> R"
  shows "\<bar>angle_V8 s R r1 idx 1 - (s + R / 2)\<bar> \<le> 3 / 20 * R"
proof -
  define d where "d = (r1 - 1 / 2) * (R * (3 / 10))"
  have "d \<le> (1 / 2) * (R * (3 / 10))"
    unfolding d_def using assms by (intro mult_right_mono) simp_all
  moreover have "(- (1 / 2)) * (R * (3 / 10)) \<le> d"
    unfolding d_def using assms by (intro mult_right_mono) simp_all
  moreover have "angle_V8 s R r1 idx 1 = s + R / 2 + d"
    by (simp only: angle_V8_single_eq d_def)
  ultimately show ?thesis by linarith
qed

lemma angle_V8_multi:
  assumes "0 \<le> r1" "r1 \<le> 1" "0 \<le> R" "0 \<le> idx" "idx < int totalItems" "totalItems \<noteq> 1"
  shows "s + 3 / 20 * R \<le> angle_V8 s R r1 idx totalItems
       \<and> angle_V8 s R r1 idx totalItems \<le> s + 17 / 20 * R"
proof -
  define k where "k = R * (7 / 10) / real totalItems"
  define u where "u = of_int idx + 1 / 5 + r1 * (3 / 5)"
  have t: "0 < real totalItems" using assms by simp
  have k: "0 \<le> k" using assms t by (simp add: k_def)
  have "real_of_int idx \<le> real totalItems - 1" "0 \<le> real_of_int idx"
    using assms(4,5) by linarith+
  then have u: "0 \<le> u" "u \<le> real totalItems"
    unfolding u_def using assms(1,2) by linarith+
  have a: "angle_V8 s R r1 idx totalItems = s + R * (3 / 20) + u * k"
    using assms(6) by (simp add: angle_V8_def Let_def u_def k_def algebra_simps)
  have "u * k \<le> real totalItems * k"
    using u k by (intro mult_right_mono) simp_all
  also have "\<dots> = R * (7 / 10)"
    using t by (simp add: k_def)
  finally have "u * k \<le> R * (7 / 10)" .
  moreover have "0 \<le> u * k" using u k by simp
  ultimately show ?thesis unfolding a by linarith
qed

lemma angle_V8_bounds:
  assumes "0 \<le> r1" "r1 \<le> 1" "0 \<le> R" "0 \<le> idx" "idx < int totalItems"
  shows "s + 3 / 20 * R \<le> angle_V8 s R r1 idx totalItems
       \<and> angle_V8 s R r1 idx totalItems \<le> s + 17 / 20 * R"
proof (cases "totalItems = 1")
  case True
  from angle_V8_single [OF assms(1-3), of s idx] assms(3) show ?thesis
    unfolding True by linarith
next
  case False
  with assms show ?thesis by (intro angle_V8_multi) simp_all
qed

lemma radius_V8_bounds:
  assumes "minRadius + 3 \<le> maxRadius - 3"
  shows "minRadius + 3 \<le> radius_V8 minRadius maxRadius r2 r3
       \<and> radius_V8 minRadius maxRadius r2 r3 \<le> maxRadius - 3"
  using assms by (simp add: radius_V8_def Let_def)

lemma findIndex_Some:
  "findIndex P xs = Some k \<Longrightarrow> k < length xs \<and> P (xs ! k)"
proof (induction xs arbitrary: k)
  case Nil
  then show ?case by simp
next
  case (Cons x xs)
  then show ?case by (cases "P x") (auto split: if_splits)
qed

lemma findIndex_mem:
  "x \<in> set xs \<Longrightarrow> P x \<Longrightarrow> \<exists>k. findIndex P xs = Some k"
  by (induction xs) auto

lemma find_Some_mem: "find P xs = Some x \<Longrightarrow> x \<in> set xs \<and> P x"
  by (induction xs) (auto split: if_splits)

lemma quadrants_sector:
  assumes "q \<in> set quadrants"
  shows "sectorOf q = (0, pi / 2) \<or> sectorOf q = (pi / 2, pi) \<or> sectorOf q = (pi, 3 * pi / 2)
       \<or> sectorOf q = (3 * pi / 2, 2 * pi)"
  using assms by (auto simp: quadrants_def sectorOf_def)

lemma quadrants_angleRange:
  assumes "q \<in> set quadrants"
  shows "angleRangeOf (startAngle q * pi / 180) (endAngle q * pi / 180) = pi / 2"
  using assms by (auto simp: quadrants_def angleRangeOf_def Let_def)

lemma rings_V8_band:
  assumes "k < length rings_V8"
  shows "fst (bandOf rings_V8 k) + 18 \<le> minRadiusOf rings_V8 k + 3
       \<and> ring_radius (rings_V8 ! k) - 15 - 3 = snd (bandOf rings_V8 k) - 18
       \<and> minRadiusOf rings_V8 k + 3 \<le> ring_radius (rings_V8 ! k) - 15 - 3
       \<and> 28 \<le> minRadiusOf rings_V8 k + 3"
proof -
  from assms have "k = 0 \<or> k = 1 \<or> k = 2 \<or> k = 3"
    by (auto simp: rings_V8_def)
  then show ?thesis
    by (auto simp: rings_V8_def bandOf_def minRadiusOf_def maxRadius_V8_def center_V8_def)
qed

lemma jitter_small:
  assumes "\<bar>jx\<bar> \<le> 4" "\<bar>jy\<bar> \<le> (4::real)"
  shows "sqrt (jx\<^sup>2 + jy\<^sup>2) < 6"
proof -
  have "jx\<^sup>2 \<le> 4\<^sup>2" "jy\<^sup>2 \<le> 4\<^sup>2"
    using assms by (simp_all only: abs_le_square_iff [symmetric] abs_numeral)
  then have "jx\<^sup>2 + jy\<^sup>2 < 6\<^sup>2" by simp
  then have "sqrt (jx\<^sup>2 + jy\<^sup>2) < sqrt (6\<^sup>2)"
    by (rule real_sqrt_less_mono)
  then show ?thesis by simp
qed

lemma polar_norm:
  assumes "0 \<le> r"
  shows "sqrt ((r * cos a)\<^sup>2 + (r * sin a)\<^sup>2) = r"
proof -
  have "(r * cos a)\<^sup>2 + (r * sin a)\<^sup>2 = r\<^sup>2 * ((cos a)\<^sup>2 + (sin a)\<^sup>2)"
    by (simp only: power_mult_distrib distrib_left)
  also have "\<dots> = r\<^sup>2" by simp
  finally show ?thesis using assms by simp
qed

lemma near_radius:
  assumes "0 \<le> r" "\<bar>jx\<bar> \<le> 4" "\<bar>jy\<bar> \<le> 4"
  shows "r - 6 < sqrt ((r * cos a + jx)\<^sup>2 + (r * sin a + jy)\<^sup>2)
       \<and> sqrt ((r * cos a + jx)\<^sup>2 + (r * sin a + jy)\<^sup>2) < r + 6"
proof -
  let ?d = "sqrt ((r * cos a + jx)\<^sup>2 + (r * sin a + jy)\<^sup>2)"
  have j: "sqrt (jx\<^sup>2 + jy\<^sup>2) < 6" using assms by (intro jitter_small)
  have "?d \<le> sqrt ((r * cos a)\<^sup>2 + (r * sin a)\<^sup>2) + sqrt (jx\<^sup>2 + jy\<^sup>2)"
    by (rule real_sqrt_sum_squares_triangle_ineq)
  then have up: "?d \<le> r + sqrt (jx\<^sup>2 + jy\<^sup>2)"
    by (simp only: polar_norm [OF assms(1)])
  have "sqrt (((r * cos a + jx) + (- jx))\<^sup>2 + ((r * sin a + jy) + (- jy))\<^sup>2)
      \<le> ?d + sqrt ((- jx)\<^sup>2 + (- jy)\<^sup>2)"
    by (rule real_sqrt_sum_squares_triangle_ineq)
  then have "sqrt ((r * cos a)\<^sup>2 + (r * sin a)\<^sup>2) \<le> ?d + sqrt (jx\<^sup>2 + jy\<^sup>2)"
    by simp
  then have lo: "r \<le> ?d + sqrt (jx\<^sup>2 + jy\<^sup>2)"
    by (simp only: polar_norm [OF assms(1)])
  from up lo j show ?thesis by linarith
qed

lemma inside_quadrant:
  assumes sec: "sec = (0, pi / 2) \<or> sec = (pi / 2, pi) \<or> sec = (pi, 3 * pi / 2)
             \<or> sec = (3 * pi / 2, 2 * pi)"
    and a: "fst sec + 3 * pi / 40 \<le> a" "a \<le> fst sec + 17 * pi / 40"
    and r: "28 \<le> r" "fst bnd + 18 \<le> r" "r \<le> snd bnd - 18"
    and j: "\<bar>jx\<bar> \<le> 4" "\<bar>jy\<bar> \<le> 4"
  shows "strictlyInside c sec bnd (c + r * cos a + jx, c + r * sin a + jy)"
proof -
  define b where "b = a - fst sec"
  have b: "3 * pi / 40 \<le> b" "b \<le> 17 * pi / 40"
    using a by (simp_all add: b_def)
  from sin_cos_margin [OF b] have m: "1 / 7 < sin b" "1 / 7 < cos b" by simp_all
  have r0: "0 < r" using r by simp
  have "r * (1 / 7) < r * sin b" "r * (1 / 7) < r * cos b"
    using m r0 by (simp_all only: mult_less_cancel_left_pos)
  moreover have "4 \<le> r * (1 / 7)" using r by simp
  ultimately have big: "4 < r * sin b" "4 < r * cos b" by linarith+
  have ab: "a = fst sec + b" by (simp add: b_def)
  have angle: "fst sec < normalizedAngle (r * cos a + jx, r * sin a + jy)
       \<and> normalizedAngle (r * cos a + jx, r * sin a + jy) < snd sec"
    using sec
  proof (elim disjE)
    assume s: "sec = (0, pi / 2)"
    then have "cos a = cos b" "sin a = sin b" by (simp_all add: ab)
    with big j have "0 < r * cos a + jx" "0 < r * sin a + jy" by (simp_all add: abs_le_iff)
    from normalizedAngle_quadrant1 [OF this] s show ?thesis by simp
  next
    assume s: "sec = (pi / 2, pi)"
    then have "cos a = - sin b" "sin a = cos b" by (simp_all add: ab cos_add sin_add)
    with big j have "r * cos a + jx < 0" "0 < r * sin a + jy" by (simp_all add: abs_le_iff)
    from normalizedAngle_quadrant2 [OF this] s show ?thesis by simp
  next
    assume s: "sec = (pi, 3 * pi / 2)"
    then have "cos a = - cos b" "sin a = - sin b" by (simp_all add: ab cos_add sin_add)
    with big j have "r * cos a + jx < 0" "r * sin a + jy < 0" by (simp_all add: abs_le_iff)
    from normalizedAngle_quadrant3 [OF this] s show ?thesis by simp
  next
    assume s: "sec = (3 * pi / 2, 2 * pi)"
    have "3 * pi / 2 = 3 / 2 * pi" by simp
    then have "cos (3 * pi / 2) = 0" "sin (3 * pi / 2) = - 1"
      by (simp_all only: cos_3over2_pi sin_3over2_pi)
    with s have "cos a = sin b" "sin a = - cos b" by (simp_all add: ab cos_add sin_add)
    with big j have "0 < r * cos a + jx" "r * sin a + jy < 0" by (simp_all add: abs_le_iff)
    from normalizedAngle_quadrant4 [OF this] s show ?thesis by simp
  qed
  have "distance (c + r * cos a + jx, c + r * sin a + jy) (c, c)
      = sqrt ((r * cos a + jx)\<^sup>2 + (r * sin a + jy)\<^sup>2)"
    by (simp add: distance_def)
  with near_radius [of r jx jy a] r j
  have "fst bnd < distance (c + r * cos a + jx, c + r * sin a + jy) (c, c)
      \<and> distance (c + r * cos a + jx, c + r * sin a + jy) (c, c) < snd bnd"
    by simp
  with angle show ?thesis
    by (simp add: strictlyInside_def)
qed

lemma calculatePosition_V8_resolved:
  assumes "find (\<lambda>q. quadrant_name q = quadrant item \<or> key q = normalizeKey (quadrant item)) quadrants = Some q"
    and "findIndex (\<lambda>r. ring_name r = ring item \<or> altName r = ring item) rings_V8 = Some k"
  shows "calculatePosition_V8 item items =
     (center_V8
        + radius_V8 (minRadiusOf rings_V8 k) (ring_radius (rings_V8 ! k) - 15)
            (random_V8 0.2 (name item)) (random_V8 0.3 (name item))
          * cos (angle_V8 (fst (sectorOf q)) (pi / 2) (random_V8 0.1 (name item))
                   (itemIndex_V8 (name item) items) (length items))
        + (random_V8 0.2 (name item) - 0.5) * 8,
      center_V8
        + radius_V8 (minRadiusOf rings_V8 k) (ring_radius (rings_V8 ! k) - 15)
            (random_V8 0.2 (name item)) (random_V8 0.3 (name item))
          * sin (angle_V8 (fst (sectorOf q)) (pi / 2) (random_V8 0.1 (name item))
                   (itemIndex_V8 (name item) items) (length items))
        + (random_V8 0.3 (name item) - 0.5) * 8)"
proof -
  from assms(1) have "q \<in> set quadrants" by (simp add: find_Some_mem)
  then have ar: "angleRangeOf (startAngle q * pi / 180) (endAngle q * pi / 180) = pi / 2"
    by (rule quadrants_angleRange)
  show ?thesis
    unfolding calculatePosition_V8_def Let_def random_V8_def itemIndex_V8_def sectorOf_def assms
    by (simp add: ar)
qed

lemma random_V8_unit: "0 \<le> random_V8 f nm \<and> random_V8 f nm \<le> 1"
  unfolding random_V8_def by (rule unit_random)

lemma jitter_V8: "\<bar>(random_V8 f nm - 0.5) * 8\<bar> \<le> 4"
proof -
  have "(random_V8 f nm - 1 / 2) * 8 = 8 * random_V8 f nm - 4" by simp
  moreover have "\<bar>8 * random_V8 f nm - 4\<bar> \<le> 4"
    using random_V8_unit [of f nm] by linarith
  ultimately have "\<bar>(random_V8 f nm - 1 / 2) * 8\<bar> \<le> 4" by simp
  then show ?thesis by simp
qed

lemma itemIndex_V8_range:
  assumes "nm \<in> name ` set items"
  shows "0 \<le> itemIndex_V8 nm items \<and> itemIndex_V8 nm items < int (length items)"
proof -
  from assms obtain x where "x \<in> set items" "name x = nm" by auto
  then obtain k where k: "findIndex (\<lambda>i. name i = nm) items = Some k"
    using findIndex_mem [of x items "\<lambda>i. name i = nm"] by auto
  with findIndex_Some [OF k] show ?thesis
    by (simp add: itemIndex_V8_def)
qed

lemma calculatePosition_V8_inside:
  assumes q: "find (\<lambda>q. quadrant_name q = quadrant item \<or> key q = normalizeKey (quadrant item)) quadrants = Some q"
    and k: "findIndex (\<lambda>r. ring_name r = ring item \<or> altName r = ring item) rings_V8 = Some k"
    and n: "name item \<in> name ` set items"
  shows "strictlyInside center_V8 (sectorOf q) (bandOf rings_V8 k) (calculatePosition_V8 item items)"
proof -
  let ?r = "radius_V8 (minRadiusOf rings_V8 k) (ring_radius (rings_V8 ! k) - 15)
            (random_V8 0.2 (name item)) (random_V8 0.3 (name item))"
  let ?a = "angle_V8 (fst (sectorOf q)) (pi / 2) (random_V8 0.1 (name item))
                   (itemIndex_V8 (name item) items) (length items)"
  from q have "q \<in> set quadrants" by (simp add: find_Some_mem)
  then have sec: "sectorOf q = (0, pi / 2) \<or> sectorOf q = (pi / 2, pi) \<or> sectorOf q = (pi, 3 * pi / 2)
       \<or> sectorOf q = (3 * pi / 2, 2 * pi)"
    by (rule quadrants_sector)
  from findIndex_Some [OF k] have kl: "k < length rings_V8" by simp
  note band = rings_V8_band [OF kl]
  from band have "minRadiusOf rings_V8 k + 3 \<le> (ring_radius (rings_V8 ! k) - 15) - 3" by simp
  from radius_V8_bounds [OF this, of "random_V8 0.2 (name item)" "random_V8 0.3 (name item)"]
  have r: "minRadiusOf rings_V8 k + 3 \<le> ?r" "?r \<le> ring_radius (rings_V8 ! k) - 15 - 3"
    by simp_all
  from random_V8_unit [of "0.1" "name item"] itemIndex_V8_range [OF n]
  have "fst (sectorOf q) + 3 / 20 * (pi / 2) \<le> ?a \<and> ?a \<le> fst (sectorOf q) + 17 / 20 * (pi / 2)"
    by (intro angle_V8_bounds) simp_all
  then have a: "fst (sectorOf q) + 3 * pi / 40 \<le> ?a" "?a \<le> fst (sectorOf q) + 17 * pi / 40"
    by simp_all
  have "strictlyInside center_V8 (sectorOf q) (bandOf rings_V8 k)
          (center_V8 + ?r * cos ?a + (random_V8 0.2 (name item) - 0.5) * 8,
           center_V8 + ?r * sin ?a + (random_V8 0.3 (name item) - 0.5) * 8)"
    using sec a
  proof (rule inside_quadrant)
    show "28 \<le> ?r" using band r by linarith
    show "fst (bandOf rings_V8 k) + 18 \<le> ?r" using band r by linarith
    show "?r \<le> snd (bandOf rings_V8 k) - 18" using band r by linarith
  qed (rule jitter_V8)+
  then show ?thesis
    by (simp only: calculatePosition_V8_resolved [OF q k])
qed

subsection \<open>Radius of the seeded collision-retry layout\<close>

lemma seededRandom_unit: "0 \<le> seededRandom s \<and> seededRandom s < 1"
  unfolding seededRandom_def Let_def by linarith

lemma placeLoop_result:
  "fst (placeLoop c es md maxAttempts attempts bp bd) = bp
   \<or> (\<exists>k. attempts \<le> k \<and> k < maxAttempts \<and> fst (placeLoop c es md maxAttempts attempts bp bd) = c k)"
proof (induction "maxAttempts - attempts" arbitrary: attempts bp bd)
  case 0
  then show ?case by (subst (1 2) placeLoop_unfold) simp
next
  case (Suc d)
  then have a: "attempts < maxAttempts" by simp
  have IH: "fst (placeLoop c es md maxAttempts (Suc attempts) bp' bd') = bp'
     \<or> (\<exists>k. Suc attempts \<le> k \<and> k < maxAttempts
            \<and> fst (placeLoop c es md maxAttempts (Suc attempts) bp' bd') = c k)" for bp' bd'
    by (rule Suc.hyps(1)) (use Suc.hyps(2) in auto)
  show ?case
  proof (cases "tooClose md es (c attempts)")
    case False
    with a show ?thesis by (subst (1 2) placeLoop_unfold) auto
  next
    case True
    from placeLoop_step_collide [of attempts maxAttempts md es c bp bd, OF a True] obtain bp' bd' where
      bp': "bp' = bp \<or> bp' = c attempts" and
      eq: "placeLoop c es md maxAttempts attempts bp bd = placeLoop c es md maxAttempts (Suc attempts) bp' bd'"
      by blast
    show ?thesis
      unfolding eq using IH [of bp' bd'] bp' a by (auto intro: Suc_leD)
  qed
qed

lemma candidate_TR_distance:
  assumes "0 \<le> minRadius" "0 < radiusRange"
  shows "minRadius \<le> distance (candidate_TR seed s R minRadius radiusRange idx n attempts) (center_TR, center_TR)
       \<and> distance (candidate_TR seed s R minRadius radiusRange idx n attempts) (center_TR, center_TR)
           < minRadius + radiusRange"
proof -
  define rp where "rp = seededRandom (real (seed + attempts * 1337) + 1)"
  define a where "a = s + R * 0.8 * (real idx / max (real n - 1) 1) + R * 0.1
     + (seededRandom (real (seed + attempts * 1337)) - 0.5) * R * 0.3"
  have rp: "0 \<le> rp" "rp < 1" using seededRandom_unit by (simp_all add: rp_def)
  have "0 \<le> rp * radiusRange" using rp assms by simp
  moreover have "rp * radiusRange < 1 * radiusRange"
    using rp assms by (intro mult_strict_right_mono) simp_all
  ultimately have r: "0 \<le> minRadius + rp * radiusRange" "minRadius \<le> minRadius + rp * radiusRange"
    "minRadius + rp * radiusRange < minRadius + radiusRange"
    using assms by simp_all
  have c: "candidate_TR seed s R minRadius radiusRange idx n attempts
      = (center_TR + (minRadius + rp * radiusRange) * cos a, center_TR + (minRadius + rp * radiusRange) * sin a)"
    by (simp only: candidate_TR_def Let_def rp_def a_def)
  have "distance (candidate_TR seed s R minRadius radiusRange idx n attempts) (center_TR, center_TR)
      = sqrt (((minRadius + rp * radiusRange) * cos a)\<^sup>2 + ((minRadius + rp * radiusRange) * sin a)\<^sup>2)"
    unfolding c by (simp add: distance_def)
  also have "\<dots> = minRadius + rp * radiusRange"
    by (rule polar_norm [OF r(1)])
  finally show ?thesis using r by simp
qed

lemma rings_TR_band:
  assumes "k < length rings_TR"
  shows "0 \<le> minRadiusOf rings_TR k \<and> 0 < ring_radius (rings_TR ! k) - 15 - minRadiusOf rings_TR k"
proof -
  from assms have "k = 0 \<or> k = 1 \<or> k = 2 \<or> k = 3"
    by (auto simp: rings_TR_def)
  then show ?thesis
    by (auto simp: rings_TR_def minRadiusOf_def)
qed

lemma calculatePosition_TR_band:
  assumes q: "find (\<lambda>q. key q = normalizeKey (quadrant item)) quadrants = Some q"
    and k: "findIndex (\<lambda>r. ring_name r = ring item) rings_TR = Some k"
  shows "calculatePosition_TR item allItems itemIndex = (center_TR, center_TR)
     \<or> (minRadiusOf rings_TR k \<le> distance (calculatePosition_TR item allItems itemIndex) (center_TR, center_TR)
        \<and> distance (calculatePosition_TR item allItems itemIndex) (center_TR, center_TR)
             < ring_radius (rings_TR ! k) - 15)"
proof -
  from findIndex_Some [OF k] have kl: "k < length rings_TR" by simp
  note band = rings_TR_band [OF kl]
  define c where "c = candidate_TR (generateSeed (name item)) (startAngle q * pi / 180)
     (angleRangeOf (startAngle q * pi / 180) (endAngle q * pi / 180)) (minRadiusOf rings_TR k)
     (ring_radius (rings_TR ! k) - 15 - minRadiusOf rings_TR k) itemIndex (length allItems)"
  define es where "es = map coords (filter (\<lambda>existing. ring existing = ring item \<and> quadrant existing = quadrant item)
                      (take itemIndex allItems))"
  have cp: "calculatePosition_TR item allItems itemIndex
      = fst (placeLoop c es 25 50 0 (center_TR, center_TR) 0)"
    by (simp add: calculatePosition_TR_def calculatePosition_attempts_TR_def q k Let_def c_def es_def)
  have cd: "minRadiusOf rings_TR k \<le> distance (c j) (center_TR, center_TR)
       \<and> distance (c j) (center_TR, center_TR) < ring_radius (rings_TR ! k) - 15" for j
    using candidate_TR_distance [of "minRadiusOf rings_TR k" "ring_radius (rings_TR ! k) - 15 - minRadiusOf rings_TR k"
        "generateSeed (name item)" "startAngle q * pi / 180"
        "angleRangeOf (startAngle q * pi / 180) (endAngle q * pi / 180)" itemIndex "length allItems" j]
      band
    by (simp add: c_def)
  from placeLoop_result [of c es 25 50 0 "(center_TR, center_TR)" 0]
  show ?thesis
    unfolding cp using cd by metis
qed

lemma calculatePosition_V8_polar:
  assumes q: "find (\<lambda>q. quadrant_name q = quadrant item \<or> key q = normalizeKey (quadrant item)) quadrants = Some q"
    and k: "findIndex (\<lambda>r. ring_name r = ring item \<or> altName r = ring item) rings_V8 = Some k"
    and n: "name item \<in> name ` set items"
  shows "\<exists>radius angle.
      fst (sectorOf q) + 3 / 20 * (snd (sectorOf q) - fst (sectorOf q)) \<le> angle
    \<and> angle \<le> snd (sectorOf q) - 3 / 20 * (snd (sectorOf q) - fst (sectorOf q))
    \<and> (length items = 1 \<longrightarrow>
          angle = fst (sectorOf q) + pi / 2 * 0.5 + (random_V8 0.1 (name item) - 0.5) * (pi / 2) * 0.3
        \<and> \<bar>angle - (fst (sectorOf q) + snd (sectorOf q)) / 2\<bar>
             \<le> 3 / 20 * (snd (sectorOf q) - fst (sectorOf q)))
    \<and> minRadiusOf rings_V8 k + 3 \<le> radius
    \<and> radius \<le> ring_radius (rings_V8 ! k) - 15 - 3
    \<and> \<bar>fst (calculatePosition_V8 item items) - (center_V8 + radius * cos angle)\<bar> \<le> 4
    \<and> \<bar>snd (calculatePosition_V8 item items) - (center_V8 + radius * sin angle)\<bar> \<le> 4"
proof -
  let ?r = "radius_V8 (minRadiusOf rings_V8 k) (ring_radius (rings_V8 ! k) - 15)
            (random_V8 0.2 (name item)) (random_V8 0.3 (name item))"
  let ?a = "angle_V8 (fst (sectorOf q)) (pi / 2) (random_V8 0.1 (name item))
                   (itemIndex_V8 (name item) items) (length items)"
  from q have "q \<in> set quadrants" by (simp add: find_Some_mem)
  then have "sectorOf q = (0, pi / 2) \<or> sectorOf q = (pi / 2, pi) \<or> sectorOf q = (pi, 3 * pi / 2)
       \<or> sectorOf q = (3 * pi / 2, 2 * pi)"
    by (rule quadrants_sector)
  then have sec: "snd (sectorOf q) = fst (sectorOf q) + pi / 2"
    by auto
  from findIndex_Some [OF k] have kl: "k < length rings_V8" by simp
  from rings_V8_band [OF kl] have "minRadiusOf rings_V8 k + 3 \<le> (ring_radius (rings_V8 ! k) - 15) - 3"
    by simp
  from radius_V8_bounds [OF this, of "random_V8 0.2 (name item)" "random_V8 0.3 (name item)"]
  have r: "minRadiusOf rings_V8 k + 3 \<le> ?r" "?r \<le> ring_radius (rings_V8 ! k) - 15 - 3"
    by simp_all
  from random_V8_unit [of "0.1" "name item"] itemIndex_V8_range [OF n]
  have "fst (sectorOf q) + 3 / 20 * (pi / 2) \<le> ?a \<and> ?a \<le> fst (sectorOf q) + 17 / 20 * (pi / 2)"
    by (intro angle_V8_bounds) simp_all
  then have a: "fst (sectorOf q) + 3 / 20 * (snd (sectorOf q) - fst (sectorOf q)) \<le> ?a"
    "?a \<le> snd (sectorOf q) - 3 / 20 * (snd (sectorOf q) - fst (sectorOf q))"
    unfolding sec by simp_all
  have single: "length items = 1 \<longrightarrow>
          ?a = fst (sectorOf q) + pi / 2 * 0.5 + (random_V8 0.1 (name item) - 0.5) * (pi / 2) * 0.3
        \<and> \<bar>?a - (fst (sectorOf q) + snd (sectorOf q)) / 2\<bar>
             \<le> 3 / 20 * (snd (sectorOf q) - fst (sectorOf q))"
  proof
    assume l: "length items = 1"
    define a1 where "a1 = angle_V8 (fst (sectorOf q)) (pi / 2) (random_V8 0.1 (name item))
                   (itemIndex_V8 (name item) items) 1"
    have b: "\<bar>a1 - (fst (sectorOf q) + pi / 2 / 2)\<bar> \<le> 3 / 20 * (pi / 2)"
      unfolding a1_def using random_V8_unit [of "0.1" "name item"] by (intro angle_V8_single) simp_all
    have m: "(fst (sectorOf q) + snd (sectorOf q)) / 2 = fst (sectorOf q) + pi / 2 / 2"
      "snd (sectorOf q) - fst (sectorOf q) = pi / 2"
      unfolding sec by simp_all
    have e: "a1 = fst (sectorOf q) + pi / 2 * 0.5 + (random_V8 0.1 (name item) - 0.5) * (pi / 2) * 0.3"
      unfolding a1_def angle_V8_single_eq by (simp add: algebra_simps)
    from b e show "?a = fst (sectorOf q) + pi / 2 * 0.5 + (random_V8 0.1 (name item) - 0.5) * (pi / 2) * 0.3
        \<and> \<bar>?a - (fst (sectorOf q) + snd (sectorOf q)) / 2\<bar>
             \<le> 3 / 20 * (snd (sectorOf q) - fst (sectorOf q))"
      unfolding l m a1_def [symmetric] by blast
  qed
  have "\<bar>fst (calculatePosition_V8 item items) - (center_V8 + ?r * cos ?a)\<bar> \<le> 4"
    "\<bar>snd (calculatePosition_V8 item items) - (center_V8 + ?r * sin ?a)\<bar> \<le> 4"
    using jitter_V8 [of "0.2" "name item"] jitter_V8 [of "0.3" "name item"]
    by (simp_all add: calculatePosition_V8_resolved [OF q k])
  with r a single show ?thesis by blast
qed

lemma group_holds_item:
  assumes "i < length radar_data"
  shows "name (radar_data ! i)
     \<in> name ` set (filter (\<lambda>other. ring other = ring (radar_data ! i)
                                  \<and> quadrant other = quadrant (radar_data ! i)) radar_data)"
proof -
  have "radar_data ! i \<in> set radar_data" using assms by simp
  then show ?thesis by (simp add: image_iff) blast
qed

lemma find_Tools:
  "find (\<lambda>q. quadrant_name q = ''Tools'' \<or> key q = normalizeKey ''Tools'') quadrants
     = Some \<lparr>startAngle = 270, endAngle = 360, quadrant_name = ''Tools'', key = ''tools''\<rparr>"
  by (simp add: quadrants_def nk1)

lemma findIndex_Adopt:
  "findIndex (\<lambda>r. ring_name r = ''Adopt'' \<or> altName r = ''Adopt'') rings_V8 = Some 0"
  by (simp add: rings_V8_def)

subsection \<open>Numeric bounds for the seeded random numbers\<close>

lemma sin_poly:
  fixes x :: real
  assumes "0 \<le> x"
  shows "\<bar>sin x - (x - x ^ 3 / 6 + x ^ 5 / 120 - x ^ 7 / 5040 + x ^ 9 / 362880)\<bar> \<le> x ^ 10 / 3628800"
proof -
  have a: "\<bar>sin x - (\<Sum>m<10. sin_coeff m * x ^ m)\<bar> \<le> inverse (fact 10) * \<bar>x\<bar> ^ 10"
    by (rule Maclaurin_sin_bound)
  have b: "(\<Sum>m<10. sin_coeff m * x ^ m) = x - x ^ 3 / 6 + x ^ 5 / 120 - x ^ 7 / 5040 + x ^ 9 / 362880"
  proof -
    have s: "{..<10::nat} = {0, 1, 2, 3, 4, 5, 6, 7, 8, 9}" by auto
    have c: "sin_coeff 0 = 0" "sin_coeff (Suc 0) = 1" "sin_coeff 2 = 0" "sin_coeff 3 = - 1 / 6"
      "sin_coeff 4 = 0" "sin_coeff 5 = 1 / 120" "sin_coeff 6 = 0" "sin_coeff 7 = - 1 / 5040"
      "sin_coeff 8 = 0" "sin_coeff 9 = 1 / 362880"
      by (simp_all add: sin_coeff_def fact_numeral)
    show ?thesis unfolding s by (simp add: c)
  qed
  have c: "inverse (fact 10) * \<bar>x\<bar> ^ 10 = x ^ 10 / 3628800"
    using assms by (simp add: fact_numeral)
  from a show ?thesis unfolding b c .
qed

lemma pi_lower: "31415926 / 10000000 < pi"
proof -
  define x :: real where "x = 31415926 / 60000000"
  have "\<bar>sin x - (x - x ^ 3 / 6 + x ^ 5 / 120 - x ^ 7 / 5040 + x ^ 9 / 362880)\<bar> \<le> x ^ 10 / 3628800"
    by (rule sin_poly) (simp add: x_def)
  moreover have "x - x ^ 3 / 6 + x ^ 5 / 120 - x ^ 7 / 5040 + x ^ 9 / 362880 + x ^ 10 / 3628800 < 1 / 2"
    unfolding x_def by (simp add: power_divide)
  ultimately have "sin x < 1 / 2" by linarith
  then have "sin x < sin (pi / 6)" by (simp only: sin_30)
  moreover have "- (pi / 2) \<le> x" "x \<le> pi / 2" using pi_ge_3 by (simp_all add: x_def)
  ultimately have "x < pi / 6"
    using pi_ge_3 by (subst (asm) sin_mono_less_eq) simp_all
  then show ?thesis by (simp add: x_def)
qed

lemma pi_upper: "pi < 31415927 / 10000000"
proof -
  define x :: real where "x = 31415927 / 60000000"
  have "\<bar>sin x - (x - x ^ 3 / 6 + x ^ 5 / 120 - x ^ 7 / 5040 + x ^ 9 / 362880)\<bar> \<le> x ^ 10 / 3628800"
    by (rule sin_poly) (simp add: x_def)
  moreover have "1 / 2 < x - x ^ 3 / 6 + x ^ 5 / 120 - x ^ 7 / 5040 + x ^ 9 / 362880 - x ^ 10 / 3628800"
    unfolding x_def by (simp add: power_divide)
  ultimately have "1 / 2 < sin x" by linarith
  then have "sin (pi / 6) < sin x" by (simp only: sin_30)
  moreover have "- (pi / 2) \<le> x" "x \<le> pi / 2" using pi_ge_3 by (simp_all add: x_def)
  ultimately have "pi / 6 < x"
    using pi_ge_3 by (subst (asm) sin_mono_less_eq) simp_all
  then show ?thesis by (simp add: x_def)
qed

lemma sin_386_shift: "sin (386::real) = sin (123 * pi - 386)"
proof -
  have "sin (123 * pi - 386) = sin (real 123 * pi) * cos 386 - cos (real 123 * pi) * sin 386"
    by (simp add: sin_diff)
  also have "\<dots> = sin 386"
    unfolding sin_npi cos_npi by simp
  finally show ?thesis by simp
qed

lemma sin_386: "4040 / 10000 \<le> sin (386::real) \<and> sin (386::real) < (4040 + 1 / 6) / 10000"
proof -
  define lo :: real where "lo = 123 * (31415926 / 10000000) - 386"
  define hi :: real where "hi = 123 * (31415927 / 10000000) - 386"
  define d :: real where "d = 123 * pi - 386"
  have d: "lo < d" "d < hi"
    using pi_lower pi_upper by (simp_all add: lo_def hi_def d_def)
  have lo0: "0 \<le> lo" and hi0: "0 \<le> hi" and hi1: "hi \<le> 1" by (simp_all add: lo_def hi_def)
  have half: "1 \<le> pi / 2" using pi_ge_3 by simp
  have "sin lo \<le> sin d"
    using d lo0 hi1 half by (subst sin_mono_le_eq) simp_all
  moreover have "sin d \<le> sin hi"
    using d lo0 hi1 half by (subst sin_mono_le_eq) simp_all
  moreover have "\<bar>sin lo - (lo - lo ^ 3 / 6 + lo ^ 5 / 120 - lo ^ 7 / 5040 + lo ^ 9 / 362880)\<bar> \<le> lo ^ 10 / 3628800"
    by (rule sin_poly [OF lo0])
  moreover have "4040 / 10000 \<le> lo - lo ^ 3 / 6 + lo ^ 5 / 120 - lo ^ 7 / 5040 + lo ^ 9 / 362880 - lo ^ 10 / 3628800"
    unfolding lo_def by (simp add: power_divide)
  moreover have "\<bar>sin hi - (hi - hi ^ 3 / 6 + hi ^ 5 / 120 - hi ^ 7 / 5040 + hi ^ 9 / 362880)\<bar> \<le> hi ^ 10 / 3628800"
    by (rule sin_poly [OF hi0])
  moreover have "hi - hi ^ 3 / 6 + hi ^ 5 / 120 - hi ^ 7 / 5040 + hi ^ 9 / 362880 + hi ^ 10 / 3628800 < (4040 + 1 / 6) / 10000"
    unfolding hi_def by (simp add: power_divide)
  ultimately have "4040 / 10000 \<le> sin d \<and> sin d < (4040 + 1 / 6) / 10000"
    by linarith
  then show ?thesis by (simp add: sin_386_shift d_def)
qed

lemma seededRandom_386: "0 \<le> seededRandom 386 \<and> seededRandom 386 < 1 / 6"
proof -
  define x :: real where "x = sin 386 * 10000"
  have x: "4040 \<le> x" "x < 4040 + 1 / 6" using sin_386 by (simp_all add: x_def)
  then have "\<lfloor>x\<rfloor> = 4040" by linarith
  with x show ?thesis by (simp add: seededRandom_def x_def [symmetric])
qed

subsection \<open>Concrete inputs of the two seeded layouts\<close>

lemma seed_Java: "generateSeed ''Java'' = 386"
  by code_simp

lemma find_LF:
  "find (\<lambda>q. key q = normalizeKey ''Languages & Frameworks'') quadrants
     = Some \<lparr>startAngle = 0, endAngle = 90, quadrant_name = ''Languages & Frameworks'',
             key = ''languagesframeworks''\<rparr>"
  by (simp add: quadrants_def nk2)

lemma findIndex_ADOPT: "findIndex (\<lambda>r. ring_name r = ''ADOPT'') rings_TR = Some 0"
  by (simp add: rings_TR_def)

lemma candidate_Java:
  "3 * pi / 2 < normalizedAngle (fst (candidate_TR 386 0 (pi / 2) 25 20 0 1 0) - center_TR,
                                 snd (candidate_TR 386 0 (pi / 2) 25 20 0 1 0) - center_TR)"
proof -
  define r where "r = seededRandom 386"
  define angle where "angle = pi / 2 * (1 / 10) + (r - 1 / 2) * (pi / 2) * (3 / 10)"
  define radius where "radius = 25 + seededRandom 387 * 20"
  have r: "0 \<le> r" "r < 1 / 6" using seededRandom_386 by (simp_all add: r_def)
  have e: "angle = pi * (3 * r / 20 - 1 / 40)" by (simp add: angle_def field_simps)
  have "pi * (3 * r / 20 - 1 / 40) < 0"
    using r by (intro mult_pos_neg) simp_all
  moreover have "pi * (- (1 / 40)) \<le> pi * (3 * r / 20 - 1 / 40)"
    using r by (intro mult_left_mono) simp_all
  ultimately have b: "pi * (3 * r / 20 - 1 / 40) < 0" "- (pi / 40) \<le> pi * (3 * r / 20 - 1 / 40)"
    by simp_all
  have a: "angle < 0" "- (pi / 2) < angle" "- pi < angle"
    using b pi_gt_zero unfolding e by linarith+
  have rad: "0 < radius" using seededRandom_unit [of 387] by (simp add: radius_def)
  have "0 < cos angle" using a by (intro cos_gt_zero_pi) simp_all
  then have x: "0 < radius * cos angle" using rad by simp
  have "0 < sin (- angle)" using a by (intro sin_gt_zero) simp_all
  then have "sin angle < 0" by simp
  then have y: "radius * sin angle < 0" using rad by (simp add: mult_pos_neg)
  have c: "candidate_TR 386 0 (pi / 2) 25 20 0 1 0
         = (center_TR + radius * cos angle, center_TR + radius * sin angle)"
    by (simp add: candidate_TR_def Let_def angle_def radius_def r_def)
  show ?thesis
    unfolding c using normalizedAngle_quadrant4 [OF x y] by simp
qed

lemma processedData_TR_Java:
  "coords (processedData_TR (Some [technology ''Java'' ''Languages & Frameworks'' ''ADOPT'']) ! 0)
     = candidate_TR 386 0 (pi / 2) 25 20 0 1 0"
proof -
  define item where "item = RadarTechnology.extend (technology ''Java'' ''Languages & Frameworks'' ''ADOPT'')
      (RadarItem.fields center_TR center_TR 0)"
  have sel: "name item = ''Java''" "quadrant item = ''Languages & Frameworks''" "ring item = ''ADOPT''"
    by (simp_all add: item_def technology_def RadarTechnology.extend_def RadarTechnology.defs RadarItem.defs)
  have pos: "\<not> pi \<le> 0" using pi_gt_zero by linarith
  have "calculatePosition_attempts_TR item [item] 0
      = placeLoop (candidate_TR 386 0 (pi / 2) 25 20 0 1) [] 25 50 0 (center_TR, center_TR) 0"
    by (simp add: calculatePosition_attempts_TR_def sel find_LF findIndex_ADOPT seed_Java Let_def
        angleRangeOf_def minRadiusOf_def rings_TR_def pos)
  also have "\<dots> = (candidate_TR 386 0 (pi / 2) 25 20 0 1 0, 0)"
    by (rule placeLoop_step_accept) simp_all
  finally have p: "calculatePosition_TR item [item] 0 = candidate_TR 386 0 (pi / 2) 25 20 0 1 0"
    by (simp add: calculatePosition_TR_def)
  have "processedData_TR (Some [technology ''Java'' ''Languages & Frameworks'' ''ADOPT''])
      = [item\<lparr>item_x := fst (calculatePosition_TR item [item] 0),
               item_y := snd (calculatePosition_TR item [item] 0)\<rparr>]"
    by (simp add: processedData_TR_def tempItems_TR_def processStep_TR_def Let_def item_def)
  then show ?thesis
    by (simp add: coords_def p)
qed

lemma find_Platforms:
  "find (\<lambda>q. quadrant_name q = ''Platforms'' \<or> key q = normalizeKey ''Platforms'') quadrants
     = Some \<lparr>startAngle = 90, endAngle = 180, quadrant_name = ''Platforms'', key = ''platforms''\<rparr>"
  by (simp add: quadrants_def nk3)

lemma findIndex_Trial:
  "findIndex (\<lambda>r. ring_name r = ''Trial'' \<or> altName r = ''Trial'') rings_V8 = Some 1"
  by (simp add: rings_V8_def)

lemma find_Tools_TR:
  "find (\<lambda>q. key q = normalizeKey ''Tools'') quadrants
     = Some \<lparr>startAngle = 270, endAngle = 360, quadrant_name = ''Tools'', key = ''tools''\<rparr>"
  by (simp add: quadrants_def nk1)

lemma findIndex_TRIAL: "findIndex (\<lambda>r. ring_name r = ''TRIAL'') rings_TR = Some 1"
  by (simp add: rings_TR_def)

subsection \<open>The emergency relaxation under a stack of siblings\<close>











subsection \<open>The best position of the retry loop\<close>

lemma positionedAt_sel [simp]:
  "name (positionedAt n x y) = n" "tp_x (positionedAt n x y) = Some x" "tp_y (positionedAt n x y) = Some y"
  by (simp_all add: positionedAt_def technology_def RadarTechnology.defs TechnologyPosition.defs)

lemma hasCollision_opt_iff:
  "hasCollision_opt nm items md p
     \<longleftrightarrow> (\<exists>other \<in> set items. name other \<noteq> nm
           \<and> (\<exists>ox oy. tp_x other = Some ox \<and> tp_y other = Some oy \<and> distance p (ox, oy) < md))"
  by (induction items) (auto split: option.splits)

lemma placeLoop_best:
  assumes "\<And>j. attempts \<le> j \<Longrightarrow> j < maxAttempts \<Longrightarrow> tooClose md es (c j)"
  shows "(fst (placeLoop c es md maxAttempts attempts bp bd) = bp
          \<and> (\<forall>j. attempts \<le> j \<and> j < maxAttempts \<longrightarrow> recordedDistance md es (c j) \<le> bd))
       \<or> (\<exists>k. attempts \<le> k \<and> k < maxAttempts
             \<and> fst (placeLoop c es md maxAttempts attempts bp bd) = c k
             \<and> bd < recordedDistance md es (c k)
             \<and> (\<forall>j. attempts \<le> j \<and> j < maxAttempts
                   \<longrightarrow> recordedDistance md es (c j) \<le> recordedDistance md es (c k)))"
  using assms
proof (induction "maxAttempts - attempts" arbitrary: attempts bp bd)
  case 0
  then show ?case by (subst (1 2) placeLoop_unfold) simp
next
  case (Suc d)
  then have a: "attempts < maxAttempts" by simp
  with Suc.prems have t: "tooClose md es (c attempts)" by simp
  let ?rd = "\<lambda>j. recordedDistance md es (c j)"
  have IH: "(fst (placeLoop c es md maxAttempts (Suc attempts) bp' bd') = bp'
          \<and> (\<forall>j. Suc attempts \<le> j \<and> j < maxAttempts \<longrightarrow> ?rd j \<le> bd'))
       \<or> (\<exists>k. Suc attempts \<le> k \<and> k < maxAttempts
             \<and> fst (placeLoop c es md maxAttempts (Suc attempts) bp' bd') = c k
             \<and> bd' < ?rd k
             \<and> (\<forall>j. Suc attempts \<le> j \<and> j < maxAttempts \<longrightarrow> ?rd j \<le> ?rd k))" for bp' bd'
    by (rule Suc.hyps(1)) (use Suc.hyps(2) Suc.prems in auto)
  have split: "attempts \<le> j \<longleftrightarrow> j = attempts \<or> Suc attempts \<le> j" for j by auto
  show ?case
  proof (cases "?rd attempts > bd")
    case True
    with a t have eq: "placeLoop c es md maxAttempts attempts bp bd
        = placeLoop c es md maxAttempts (Suc attempts) (c attempts) (?rd attempts)"
      by (subst placeLoop_unfold) simp
    from IH [of "c attempts" "?rd attempts"] show ?thesis
    proof
      assume "fst (placeLoop c es md maxAttempts (Suc attempts) (c attempts) (?rd attempts)) = c attempts
          \<and> (\<forall>j. Suc attempts \<le> j \<and> j < maxAttempts \<longrightarrow> ?rd j \<le> ?rd attempts)"
      with True a have "attempts \<le> attempts \<and> attempts < maxAttempts
             \<and> fst (placeLoop c es md maxAttempts attempts bp bd) = c attempts
             \<and> bd < ?rd attempts
             \<and> (\<forall>j. attempts \<le> j \<and> j < maxAttempts \<longrightarrow> ?rd j \<le> ?rd attempts)"
        unfolding eq by (auto simp: split [of _])
      then show ?thesis by blast
    next
      assume "\<exists>k. Suc attempts \<le> k \<and> k < maxAttempts
             \<and> fst (placeLoop c es md maxAttempts (Suc attempts) (c attempts) (?rd attempts)) = c k
             \<and> ?rd attempts < ?rd k
             \<and> (\<forall>j. Suc attempts \<le> j \<and> j < maxAttempts \<longrightarrow> ?rd j \<le> ?rd k)"
      then obtain k where k: "Suc attempts \<le> k" "k < maxAttempts"
        "fst (placeLoop c es md maxAttempts (Suc attempts) (c attempts) (?rd attempts)) = c k"
        "?rd attempts < ?rd k" "\<forall>j. Suc attempts \<le> j \<and> j < maxAttempts \<longrightarrow> ?rd j \<le> ?rd k"
        by blast
      with True have "attempts \<le> k \<and> k < maxAttempts
             \<and> fst (placeLoop c es md maxAttempts attempts bp bd) = c k
             \<and> bd < ?rd k
             \<and> (\<forall>j. attempts \<le> j \<and> j < maxAttempts \<longrightarrow> ?rd j \<le> ?rd k)"
        unfolding eq by (auto simp: split [of _])
      then show ?thesis by blast
    qed
  next
    case False
    with a t have eq: "placeLoop c es md maxAttempts attempts bp bd
        = placeLoop c es md maxAttempts (Suc attempts) bp bd"
      by (subst placeLoop_unfold) simp
    from IH [of bp bd] show ?thesis
    proof
      assume "fst (placeLoop c es md maxAttempts (Suc attempts) bp bd) = bp
          \<and> (\<forall>j. Suc attempts \<le> j \<and> j < maxAttempts \<longrightarrow> ?rd j \<le> bd)"
      with False have "fst (placeLoop c es md maxAttempts attempts bp bd) = bp
          \<and> (\<forall>j. attempts \<le> j \<and> j < maxAttempts \<longrightarrow> ?rd j \<le> bd)"
        unfolding eq by (auto simp: split [of _])
      then show ?thesis by blast
    next
      assume "\<exists>k. Suc attempts \<le> k \<and> k < maxAttempts
             \<and> fst (placeLoop c es md maxAttempts (Suc attempts) bp bd) = c k
             \<and> bd < ?rd k
             \<and> (\<forall>j. Suc attempts \<le> j \<and> j < maxAttempts \<longrightarrow> ?rd j \<le> ?rd k)"
      then obtain k where k: "Suc attempts \<le> k" "k < maxAttempts"
        "fst (placeLoop c es md maxAttempts (Suc attempts) bp bd) = c k"
        "bd < ?rd k" "\<forall>j. Suc attempts \<le> j \<and> j < maxAttempts \<longrightarrow> ?rd j \<le> ?rd k"
        by blast
      with False have "attempts \<le> k \<and> k < maxAttempts
             \<and> fst (placeLoop c es md maxAttempts attempts bp bd) = c k
             \<and> bd < ?rd k
             \<and> (\<forall>j. attempts \<le> j \<and> j < maxAttempts \<longrightarrow> ?rd j \<le> ?rd k)"
        unfolding eq by (auto simp: split [of _])
      then show ?thesis by blast
    qed
  qed
qed

lemma placeLoop_single_sibling:
  assumes md: "md \<le> MAX_VALUE"
    and c: "\<And>j. j < maxAttempts \<Longrightarrow> distance (c j) e < md"
  shows "(fst (placeLoop c [e] md maxAttempts 0 bp 0) = bp
          \<and> (\<forall>j < maxAttempts. distance (c j) e = 0))
       \<or> (\<exists>k < maxAttempts. fst (placeLoop c [e] md maxAttempts 0 bp 0) = c k
             \<and> 0 < distance (c k) e
             \<and> (\<forall>j < maxAttempts. distance (c j) e \<le> distance (c k) e))"
proof -
  have rd: "recordedDistance md [e] (c j) = distance (c j) e" if "j < maxAttempts" for j
    using c [OF that] md by (intro recordedDistance_first) simp_all
  have d0: "0 \<le> distance p q" for p q by (simp add: distance_def)
  have t: "\<And>j. 0 \<le> j \<Longrightarrow> j < maxAttempts \<Longrightarrow> tooClose md [e] (c j)"
    using c by simp
  from placeLoop_best [of 0 maxAttempts md "[e]" c bp 0, OF t]
  show ?thesis
  proof
    assume "fst (placeLoop c [e] md maxAttempts 0 bp 0) = bp
          \<and> (\<forall>j. 0 \<le> j \<and> j < maxAttempts \<longrightarrow> recordedDistance md [e] (c j) \<le> 0)"
    then have "fst (placeLoop c [e] md maxAttempts 0 bp 0) = bp
          \<and> (\<forall>j < maxAttempts. distance (c j) e = 0)"
      using rd d0 [of "c _" e] by (auto simp: order_antisym)
    then show ?thesis by blast
  next
    assume "\<exists>k. 0 \<le> k \<and> k < maxAttempts
             \<and> fst (placeLoop c [e] md maxAttempts 0 bp 0) = c k
             \<and> 0 < recordedDistance md [e] (c k)
             \<and> (\<forall>j. 0 \<le> j \<and> j < maxAttempts
                   \<longrightarrow> recordedDistance md [e] (c j) \<le> recordedDistance md [e] (c k))"
    then obtain k where "k < maxAttempts" "fst (placeLoop c [e] md maxAttempts 0 bp 0) = c k"
      "0 < recordedDistance md [e] (c k)"
      "\<forall>j. 0 \<le> j \<and> j < maxAttempts
                   \<longrightarrow> recordedDistance md [e] (c j) \<le> recordedDistance md [e] (c k)"
      by blast
    then have "k < maxAttempts \<and> fst (placeLoop c [e] md maxAttempts 0 bp 0) = c k
             \<and> 0 < distance (c k) e
             \<and> (\<forall>j < maxAttempts. distance (c j) e \<le> distance (c k) e)"
      using rd by auto
    then show ?thesis by blast
  qed
qed

lemma polar_opt_axis [simp]: "polar_opt c (r, 0) = (c + r, c)"
  by (simp add: polar_opt_def)

lemma distance_level [simp]: "distance (a, c) (b, c) = \<bar>a - b\<bar>"
  by (simp add: distance_def)

lemma MAX_VALUE_25 [simp]: "25 \<le> MAX_VALUE"
  using MAX_VALUE_large by simp

text \<open>
  The scan of the siblings in \<^verbatim>\<open>tech-radar.tsx\<close> stops at the first sibling that is too
  close: with siblings at \<open>(0, 0)\<close> and \<open>(21, 0)\<close> the candidate \<open>(20, 0)\<close> is recorded with
  the distance 20 and kept as the best one, although its nearest sibling is at the
  distance 1 and that of the other candidate at the distance 10.
\<close>

lemma scan_stops_at_first_collision:
  "fst (placeLoop (\<lambda>attempt. if attempt = 0 then (20, 0) else (- 10, 0))
          [(0, 0), (21, 0)] 25 2 0 (200, 200) 0) = (20, 0)
   \<and> Min (set (map (distance (20, 0)) [(0, 0), (21, 0)])) = 1
   \<and> Min (set (map (distance (- 10, 0)) [(0, 0), (21, 0)])) = 10"
proof -
  have m: "(20::real) \<le> MAX_VALUE" "(10::real) \<le> MAX_VALUE"
    using MAX_VALUE_large by simp_all
  have r0: "recordedDistance 25 [(0, 0), (21, 0)] (20, 0) = 20"
    using m by (subst recordedDistance_first) simp_all
  have r1: "recordedDistance 25 [(0, 0), (21, 0)] (- 10, 0) = 10"
    using m by (subst recordedDistance_first) simp_all
  have "placeLoop (\<lambda>attempt. if attempt = 0 then (20, 0) else (- 10, 0))
          [(0, 0), (21, 0)] 25 2 0 (200, 200) 0 = ((20, 0), 2)"
    apply (subst placeLoop_unfold)
    apply (simp add: r0)
    apply (subst placeLoop_unfold)
    apply (simp add: r1)
    apply (subst placeLoop_unfold)
    apply simp
    done
  then show ?thesis by simp
qed

section \<open>The claims\<close>

text \<open>
  C8. The seed is the sum of the character codes of the name, so every permutation
  of the characters of a name (a string with the same multiset of characters) has the
  same seed; being a function of the string alone, equal names have equal seeds.
\<close>

theorem generateSeed_permutation:
  "mset s = mset s' \<Longrightarrow> generateSeed s = generateSeed s'"
proof -
  assume "mset s = mset s'"
  then have "mset (map (of_char :: char \<Rightarrow> nat) s) = mset (map of_char s')"
    by (metis mset_map)
  then have "sum_list (map (of_char :: char \<Rightarrow> nat) s) = sum_list (map of_char s')"
    by (metis sum_mset_sum_list)
  then show ?thesis
    by (simp add: generateSeed_sum_list)
qed

theorem generateSeed_permutation_witness:
  "mset ''Rust'' = mset ''tsuR'' \<and> generateSeed ''Rust'' = generateSeed ''tsuR''"
  using generateSeed_permutation [of "''Rust''" "''tsuR''"] by simp

text \<open>
  C2, as amended. Both retry loops take the candidates in the order of the attempts and
  return the first one that does not collide, with the number of its attempt, at once
  when there are no siblings; they never raise. In \<^verbatim>\<open>tech-radar.tsx\<close> a candidate collides
  when some sibling is nearer than \<open>minDistance\<close>; in \<^verbatim>\<open>calculateOptimizedPosition\<close> when
  some sibling of another name, whose coordinates are numbers, is nearer than
  \<open>minDistance\<close>. When every candidate collides, the loop of \<^verbatim>\<open>calculateOptimizedPosition\<close>,
  which keeps no best candidate, returns the candidate it drew last, which it has not
  tested. The loop of \<^verbatim>\<open>tech-radar.tsx\<close> then stops after \<open>maxAttempts\<close> attempts and
  returns its initial best position or one of the candidates it tried; with a single
  sibling (and \<open>minDistance\<close> at most \<^verbatim>\<open>Number.MAX_VALUE\<close>, the initial best distance 0) it
  returns a candidate that is farthest from the sibling, and the initial position only
  when every candidate lies on the sibling. Which candidate it returns among several
  siblings is not stated.
\<close>

theorem placement_loops:
  "(k < maxAttempts \<and> \<not> tooClose minDistance existingPositions (candidate k)
      \<and> (\<forall>j < k. tooClose minDistance existingPositions (candidate j))
     \<longrightarrow> placeLoop candidate existingPositions minDistance maxAttempts 0 bestPosition bestDistance
           = (candidate k, k))
   \<and> (existingPositions = [] \<and> 0 < maxAttempts
     \<longrightarrow> placeLoop candidate existingPositions minDistance maxAttempts 0 bestPosition bestDistance
           = (candidate 0, 0))
   \<and> ((\<forall>j < maxAttempts. tooClose minDistance existingPositions (candidate j))
     \<longrightarrow> snd (placeLoop candidate existingPositions minDistance maxAttempts 0 bestPosition bestDistance)
           = maxAttempts
         \<and> (fst (placeLoop candidate existingPositions minDistance maxAttempts 0 bestPosition bestDistance)
               = bestPosition
             \<or> (\<exists>j < maxAttempts.
                  fst (placeLoop candidate existingPositions minDistance maxAttempts 0 bestPosition bestDistance)
                    = candidate j)))
   \<and> (minDistance \<le> MAX_VALUE \<and> (\<forall>j < maxAttempts. distance (candidate j) sibling < minDistance)
     \<longrightarrow> (fst (placeLoop candidate [sibling] minDistance maxAttempts 0 bestPosition 0) = bestPosition
           \<and> (\<forall>j < maxAttempts. distance (candidate j) sibling = 0))
         \<or> (\<exists>k < maxAttempts.
               fst (placeLoop candidate [sibling] minDistance maxAttempts 0 bestPosition 0) = candidate k
             \<and> 0 < distance (candidate k) sibling
             \<and> (\<forall>j < maxAttempts. distance (candidate j) sibling \<le> distance (candidate k) sibling)))
   \<and> (hasCollision_opt techName items minDistance p
        \<longleftrightarrow> (\<exists>other \<in> set items. name other \<noteq> techName
              \<and> (\<exists>ox oy. tp_x other = Some ox \<and> tp_y other = Some oy
                     \<and> distance p (ox, oy) < minDistance)))
   \<and> (k < maxAttempts
      \<and> \<not> hasCollision_opt techName items minDistance (polar_opt center (nthCandidate resample initial k))
      \<and> (\<forall>j < k. hasCollision_opt techName items minDistance
                     (polar_opt center (nthCandidate resample initial j)))
     \<longrightarrow> adjustLoop resample
           (\<lambda>final. hasCollision_opt techName items minDistance (polar_opt center final))
           maxAttempts 0 initial
         = (nthCandidate resample initial k, k))
   \<and> ((\<forall>j < maxAttempts. hasCollision_opt techName items minDistance
                             (polar_opt center (nthCandidate resample initial j)))
     \<longrightarrow> adjustLoop resample
           (\<lambda>final. hasCollision_opt techName items minDistance (polar_opt center final))
           maxAttempts 0 initial
         = (nthCandidate resample initial maxAttempts, maxAttempts))"
proof (intro conjI impI)
  assume "k < maxAttempts \<and> \<not> tooClose minDistance existingPositions (candidate k)
      \<and> (\<forall>j < k. tooClose minDistance existingPositions (candidate j))"
  then show "placeLoop candidate existingPositions minDistance maxAttempts 0 bestPosition bestDistance
           = (candidate k, k)"
    by (intro placeLoop_accept) auto
next
  assume "existingPositions = [] \<and> 0 < maxAttempts"
  then show "placeLoop candidate existingPositions minDistance maxAttempts 0 bestPosition bestDistance
           = (candidate 0, 0)"
    by (intro placeLoop_accept) auto
next
  assume a: "\<forall>j < maxAttempts. tooClose minDistance existingPositions (candidate j)"
  from placeLoop_exhausted [of 0 maxAttempts minDistance existingPositions candidate bestPosition bestDistance] a
  show "snd (placeLoop candidate existingPositions minDistance maxAttempts 0 bestPosition bestDistance)
           = maxAttempts"
    by simp
  from placeLoop_exhausted [of 0 maxAttempts minDistance existingPositions candidate bestPosition bestDistance] a
  show "fst (placeLoop candidate existingPositions minDistance maxAttempts 0 bestPosition bestDistance)
               = bestPosition
             \<or> (\<exists>j < maxAttempts.
                  fst (placeLoop candidate existingPositions minDistance maxAttempts 0 bestPosition bestDistance)
                    = candidate j)"
    by auto
next
  assume "minDistance \<le> MAX_VALUE \<and> (\<forall>j < maxAttempts. distance (candidate j) sibling < minDistance)"
  then show "(fst (placeLoop candidate [sibling] minDistance maxAttempts 0 bestPosition 0) = bestPosition
           \<and> (\<forall>j < maxAttempts. distance (candidate j) sibling = 0))
         \<or> (\<exists>k < maxAttempts.
               fst (placeLoop candidate [sibling] minDistance maxAttempts 0 bestPosition 0) = candidate k
             \<and> 0 < distance (candidate k) sibling
             \<and> (\<forall>j < maxAttempts. distance (candidate j) sibling \<le> distance (candidate k) sibling))"
    by (intro placeLoop_single_sibling) auto
next
  show "hasCollision_opt techName items minDistance p
        \<longleftrightarrow> (\<exists>other \<in> set items. name other \<noteq> techName
              \<and> (\<exists>ox oy. tp_x other = Some ox \<and> tp_y other = Some oy
                     \<and> distance p (ox, oy) < minDistance))"
    by (rule hasCollision_opt_iff)
next
  assume "k < maxAttempts
      \<and> \<not> hasCollision_opt techName items minDistance (polar_opt center (nthCandidate resample initial k))
      \<and> (\<forall>j < k. hasCollision_opt techName items minDistance
                     (polar_opt center (nthCandidate resample initial j)))"
  then show "adjustLoop resample
           (\<lambda>final. hasCollision_opt techName items minDistance (polar_opt center final))
           maxAttempts 0 initial
         = (nthCandidate resample initial k, k)"
    by (intro adjustLoop_accept) auto
next
  assume "\<forall>j < maxAttempts. hasCollision_opt techName items minDistance
                             (polar_opt center (nthCandidate resample initial j))"
  then show "adjustLoop resample
           (\<lambda>final. hasCollision_opt techName items minDistance (polar_opt center final))
           maxAttempts 0 initial
         = (nthCandidate resample initial maxAttempts, maxAttempts)"
    by (intro adjustLoop_exhausted) auto
qed

text \<open>
  The amended claim at concrete candidates: a sibling at the origin; two siblings that
  every candidate collides with; three colliding candidates of which the second is the
  farthest; and the loop of \<^verbatim>\<open>calculateOptimizedPosition\<close> with a sibling of the same name,
  which does not count, and one of another name.
\<close>

theorem placement_loops_witness:
  "placeLoop (\<lambda>attempt. (30 * real attempt, 0)) [(0, 0)] 25 50 0 (200, 200) 0 = ((30, 0), 1)
   \<and> placeLoop (\<lambda>attempt. (30 * real attempt, 0)) [] 25 50 0 (200, 200) 0 = ((0, 0), 0)
   \<and> snd (placeLoop (\<lambda>attempt. (10, 0)) [(0, 0), (5, 0)] 25 50 0 (200, 200) 0) = 50
   \<and> fst (placeLoop (\<lambda>attempt. if attempt = 1 then (12, 0) else (10, 0)) [(0, 0)] 25 3 0 (200, 200) 0)
       = (12, 0)
   \<and> adjustLoop (\<lambda>attempts. (40, 0))
        (\<lambda>final. hasCollision_opt ''A'' [positionedAt ''A'' 300 300, positionedAt ''B'' 300 300] 35
                    (polar_opt 300 final)) 10 0 (10, 0)
       = ((40, 0), 1)
   \<and> adjustLoop (\<lambda>attempts. (10, 0))
        (\<lambda>final. hasCollision_opt ''A'' [positionedAt ''B'' 300 300] 35 (polar_opt 300 final)) 10 0 (20, 0)
       = ((10, 0), 10)"
proof -
  have "placeLoop (\<lambda>attempt. (30 * real attempt, 0)) [(0, 0)] 25 50 0 (200, 200) 0
      = ((30 * real (1::nat), 0), 1)"
    by (rule placement_loops [where maxAttempts = 50 and minDistance = 25 and k = 1
      and candidate = "\<lambda>attempt. (30 * real attempt, 0)" and bestPosition = "(200, 200)"
      and bestDistance = 0 and existingPositions = "[(0, 0)]", THEN conjunct1, THEN mp]) simp
  then have a: "placeLoop (\<lambda>attempt. (30 * real attempt, 0)) [(0, 0)] 25 50 0 (200, 200) 0 = ((30, 0), 1)"
    by simp
  have "placeLoop (\<lambda>attempt. (30 * real attempt, 0)) [] 25 50 0 (200, 200) 0
      = ((30 * real (0::nat), 0), 0)"
    by (rule placement_loops [where maxAttempts = 50 and minDistance = 25
      and candidate = "\<lambda>attempt. (30 * real attempt, 0)" and bestPosition = "(200, 200)"
      and bestDistance = 0 and existingPositions = "[]", THEN conjunct2, THEN conjunct1, THEN mp]) simp
  then have b: "placeLoop (\<lambda>attempt. (30 * real attempt, 0)) [] 25 50 0 (200, 200) 0 = ((0, 0), 0)"
    by simp
  have "\<forall>j < (50::nat). tooClose 25 [(0, 0), (5, 0)] (10, 0)" by simp
  from placement_loops [where maxAttempts = 50 and minDistance = 25
      and existingPositions = "[(0, 0), (5, 0)]" and candidate = "\<lambda>attempt. (10, 0)"
      and bestPosition = "(200, 200)" and bestDistance = 0,
      THEN conjunct2, THEN conjunct2, THEN conjunct1, THEN mp, OF this]
  have c: "snd (placeLoop (\<lambda>attempt. (10, 0)) [(0, 0), (5, 0)] 25 50 0 (200, 200) 0) = 50"
    by (rule conjunct1)
  let ?c = "\<lambda>attempt::nat. if attempt = 1 then (12, 0) else (10::real, 0::real)"
  have "(fst (placeLoop ?c [(0, 0)] 25 3 0 (200, 200) 0) = (200, 200)
           \<and> (\<forall>j < 3. distance (?c j) (0, 0) = 0))
         \<or> (\<exists>k < 3. fst (placeLoop ?c [(0, 0)] 25 3 0 (200, 200) 0) = ?c k
             \<and> 0 < distance (?c k) (0, 0)
             \<and> (\<forall>j < 3. distance (?c j) (0, 0) \<le> distance (?c k) (0, 0)))"
    by (rule placement_loops [where maxAttempts = 3 and minDistance = 25 and sibling = "(0, 0)"
      and candidate = ?c and bestPosition = "(200, 200)",
      THEN conjunct2, THEN conjunct2, THEN conjunct2, THEN conjunct1, THEN mp]) simp
  then have d: "fst (placeLoop ?c [(0, 0)] 25 3 0 (200, 200) 0) = (12, 0)"
  proof
    assume "fst (placeLoop ?c [(0, 0)] 25 3 0 (200, 200) 0) = (200, 200)
           \<and> (\<forall>j < 3. distance (?c j) (0, 0) = 0)"
    then have z: "\<And>j. j < 3 \<Longrightarrow> distance (?c j) (0, 0) = 0" by blast
    from z [of 0] show ?thesis by simp
  next
    assume "\<exists>k < 3. fst (placeLoop ?c [(0, 0)] 25 3 0 (200, 200) 0) = ?c k
             \<and> 0 < distance (?c k) (0, 0)
             \<and> (\<forall>j < 3. distance (?c j) (0, 0) \<le> distance (?c k) (0, 0))"
    then obtain k where k: "fst (placeLoop ?c [(0, 0)] 25 3 0 (200, 200) 0) = ?c k"
      and m: "\<forall>j < 3. distance (?c j) (0, 0) \<le> distance (?c k) (0, 0)"
      by blast
    from m have z: "\<And>j. j < 3 \<Longrightarrow> distance (?c j) (0, 0) \<le> distance (?c k) (0, 0)" by blast
    from z [of 1] have "k = 1" by (cases "k = 1") simp_all
    with k show ?thesis by simp
  qed
  have e: "adjustLoop (\<lambda>attempts. (40, 0))
        (\<lambda>final. hasCollision_opt ''A'' [positionedAt ''A'' 300 300, positionedAt ''B'' 300 300] 35
                    (polar_opt 300 final)) 10 0 (10, 0)
       = ((40, 0), 1)"
  proof -
    have n: "nthCandidate (\<lambda>attempts. (40, 0)) (10, 0) 1 = (40, 0)"
      "nthCandidate (\<lambda>attempts. (40, 0)) (10, 0) (Suc 0) = (40, 0)"
      "nthCandidate (\<lambda>attempts. (40, 0)) (10, 0) 0 = (10, 0)"
      by (simp_all add: nthCandidate_def)
    have "(1::nat) < 10
      \<and> \<not> hasCollision_opt ''A'' [positionedAt ''A'' 300 300, positionedAt ''B'' 300 300] 35
            (polar_opt 300 (nthCandidate (\<lambda>attempts. (40, 0)) (10, 0) 1))
      \<and> (\<forall>j < 1. hasCollision_opt ''A'' [positionedAt ''A'' 300 300, positionedAt ''B'' 300 300] 35
                     (polar_opt 300 (nthCandidate (\<lambda>attempts. (40, 0)) (10, 0) j)))"
      by (simp add: n)
    from placement_loops [where maxAttempts = 10 and minDistance = 35 and k = 1 and techName = "''A''"
      and items = "[positionedAt ''A'' 300 300, positionedAt ''B'' 300 300]" and center = 300
      and resample = "\<lambda>attempts. (40, 0)" and initial = "(10, 0)",
      THEN conjunct2, THEN conjunct2, THEN conjunct2, THEN conjunct2, THEN conjunct2, THEN conjunct1,
      THEN mp, OF this]
    show ?thesis by (simp only: n)
  qed
  have f: "adjustLoop (\<lambda>attempts. (10, 0))
        (\<lambda>final. hasCollision_opt ''A'' [positionedAt ''B'' 300 300] 35 (polar_opt 300 final)) 10 0 (20, 0)
       = ((10, 0), 10)"
  proof -
    have n: "nthCandidate (\<lambda>attempts. (10, 0)) (20, 0) 10 = (10, 0)"
      by (simp add: nthCandidate_def)
    have col: "hasCollision_opt ''A'' [positionedAt ''B'' 300 300] 35
                (polar_opt 300 (nthCandidate (\<lambda>attempts. (10, 0)) (20, 0) j))" for j
      by (cases j) (simp_all add: nthCandidate_def)
    then have "\<forall>j < (10::nat). hasCollision_opt ''A'' [positionedAt ''B'' 300 300] 35
                (polar_opt 300 (nthCandidate (\<lambda>attempts. (10, 0)) (20, 0) j))"
      by blast
    from placement_loops [where maxAttempts = 10 and minDistance = 35 and techName = "''A''"
      and items = "[positionedAt ''B'' 300 300]" and center = 300
      and resample = "\<lambda>attempts. (10, 0)" and initial = "(20, 0)",
      THEN conjunct2, THEN conjunct2, THEN conjunct2, THEN conjunct2, THEN conjunct2, THEN conjunct2,
      THEN mp, OF this]
    show ?thesis by (simp only: n)
  qed
  from a b c d e f show ?thesis by (simp only: simp_thms)
qed

text \<open>
  C2 as stated fails on the loop of \<^verbatim>\<open>calculateOptimizedPosition\<close>, which tracks no best
  candidate: with one sibling at the centre \<open>(300, 300)\<close>, the first candidate at the
  distance 30 and the ten drawn after it at the distances 10 to 19 all collide
  (\<open>minDistance = 35\<close>), and the loop returns the last one, at the distance 19, not the
  first, which is the farthest from the sibling.
\<close>

theorem last_candidate_counterexample:
  "adjustLoop (\<lambda>attempts. (10 + real attempts, 0))
     (\<lambda>final. hasCollision_opt ''A'' [positionedAt ''B'' 300 300] 35 (polar_opt 300 final)) 10 0 (30, 0)
     = ((19, 0), 10)
   \<and> distance (polar_opt 300 (19, 0)) (300, 300) = 19
   \<and> distance (polar_opt 300 (30, 0)) (300, 300) = 30"
proof -
  have col: "hasCollision_opt ''A'' [positionedAt ''B'' 300 300] 35
               (polar_opt 300 (nthCandidate (\<lambda>attempts. (10 + real attempts, 0)) (30, 0) j))"
    if "j < 10" for j
    using that by (cases j) (simp_all add: nthCandidate_def)
  have "adjustLoop (\<lambda>attempts. (10 + real attempts, 0))
     (\<lambda>final. hasCollision_opt ''A'' [positionedAt ''B'' 300 300] 35 (polar_opt 300 final)) 10 0 (30, 0)
     = (nthCandidate (\<lambda>attempts. (10 + real attempts, 0)) (30, 0) 10, 10)"
    by (rule adjustLoop_exhausted) (rule col)
  then show ?thesis by (simp add: nthCandidate_def)
qed

text \<open>
  C6. The retry loop of \<^verbatim>\<open>tech-radar.tsx\<close> leaves with \<^verbatim>\<open>attempts\<close> at most \<open>maxAttempts\<close>
  (50 in \<^verbatim>\<open>calculatePosition\<close>) and reads no candidate beyond the first \<open>maxAttempts\<close>;
  the loop of \<^verbatim>\<open>calculateOptimizedPosition\<close> leaves with \<^verbatim>\<open>attempts\<close> at most
  \<open>maxAttempts\<close> (10); a \<^verbatim>\<open>for\<close> loop runs its body once for each index below its bound,
  so the force relaxation of \<^verbatim>\<open>findForceBasedPosition\<close> is exactly 50 steps and that of
  \<^verbatim>\<open>findEmergencyPosition\<close> exactly 30. All of them are total functions: placement
  returns also when the separation cannot be had.
\<close>

theorem loops_bounded:
  "snd (placeLoop candidate existingPositions minDistance maxAttempts 0 bestPosition bestDistance)
     \<le> maxAttempts
   \<and> ((\<forall>k < maxAttempts. candidate k = candidate' k) \<longrightarrow>
        placeLoop candidate existingPositions minDistance maxAttempts 0 bestPosition bestDistance
          = placeLoop candidate' existingPositions minDistance maxAttempts 0 bestPosition bestDistance)
   \<and> snd (calculatePosition_attempts_TR item allItems itemIndex) \<le> 50
   \<and> snd (adjustLoop resample collides maxAttempts 0 final) \<le> maxAttempts
   \<and> snd (calculateOptimizedPosition_attempts tech items center) \<le> 10
   \<and> forLoop 0 iterations body s = (fold body [0..<iterations] s, iterations)
   \<and> findForceBasedPosition ringConfig quadrantConfig positions d
        = ((forceStep ringConfig quadrantConfig positions d) ^^ 50) (midPoint ringConfig quadrantConfig)
   \<and> findEmergencyPosition ringConfig quadrantConfig positions
        = ((emergencyStep ringConfig positions) ^^ 30) (midPoint ringConfig quadrantConfig)"
proof -
  have "snd (placeLoop candidate existingPositions minDistance maxAttempts 0 bestPosition bestDistance)
     \<le> maxAttempts"
    using placeLoop_attempts [of candidate existingPositions minDistance maxAttempts 0] by simp
  moreover have "(\<forall>k < maxAttempts. candidate k = candidate' k) \<longrightarrow>
        placeLoop candidate existingPositions minDistance maxAttempts 0 bestPosition bestDistance
          = placeLoop candidate' existingPositions minDistance maxAttempts 0 bestPosition bestDistance"
    by (auto intro: placeLoop_cong)
  moreover have "snd (adjustLoop resample collides maxAttempts 0 final) \<le> maxAttempts"
    using adjustLoop_attempts [of resample collides maxAttempts 0 final] by simp
  moreover have "forLoop 0 iterations body s = (fold body [0..<iterations] s, iterations)"
    by (simp add: forLoop_fold del: forLoop.simps)
  ultimately show ?thesis
    by (simp only: calculatePosition_attempts_TR_le calculateOptimizedPosition_attempts_le
        findForceBasedPosition_funpow findEmergencyPosition_funpow simp_thms)
qed

text \<open>Two candidate sequences that agree on the first 50 attempts give the same placement.\<close>

theorem loops_bounded_witness:
  "placeLoop (\<lambda>k. (real k, 0)) [] 25 50 0 (200, 200) 0
     = placeLoop (\<lambda>k. (real (min k 49), 0)) [] 25 50 0 (200, 200) 0"
  by (rule loops_bounded [THEN conjunct2, THEN conjunct1, THEN mp]) (simp add: min_def)




text \<open>
  C5 at the failing input. In the optimized layout the quadrant
  \<^verbatim>\<open>"constructor"\<close> is not one of the four configured keys, but
  \<^verbatim>\<open>quadrantMap["constructor"]\<close> reads the inherited \<^verbatim>\<open>Object.prototype.constructor\<close>,
  the guard \<^verbatim>\<open>!quadrantConfig\<close> does not fire, and the item gets the coordinates
  \<^verbatim>\<open>NaN\<close>, \<^verbatim>\<open>NaN\<close> instead of the centre.
\<close>

theorem constructor_quadrant_opt:
  "map (\<lambda>p. (name p, tp_x p, tp_y p))
     (calculateTechnologyPositions_opt [technology ''Rust'' ''constructor'' ''Adopt''])
   = [(''Rust'', None, None)]"
proof -
  have "calculateOptimizedPosition (technology ''Rust'' ''constructor'' ''Adopt'') [] 300 = (None, None)"
    by (rule inherited_opt) (simp_all add: nk_constructor nk3 getProperty_constructor getProperty_adopt)
  then show ?thesis
    by (simp add: calculateTechnologyPositions_opt_def positionStep_opt_def Let_def
        RadarTechnology.extend_def TechnologyPosition.fields_def technology_def)
qed

text \<open>
  C10. In the seeded-jitter layout two input items with the same name, quadrant and ring
  have the same seed and the same index in their group (\<^verbatim>\<open>findIndex\<close> by name finds the
  first of them), and get the same coordinates.
\<close>

theorem duplicate_names_collapse:
  assumes "i < length radar_data" and "j < length radar_data"
    and "name (radar_data ! i) = name (radar_data ! j)"
    and "quadrant (radar_data ! i) = quadrant (radar_data ! j)"
    and "ring (radar_data ! i) = ring (radar_data ! j)"
  shows "generateSeed (name (radar_data ! i)) = generateSeed (name (radar_data ! j))
    \<and> findIndex (\<lambda>other. name other = name (radar_data ! i))
          (filter (\<lambda>other. ring other = ring (radar_data ! i) \<and> quadrant other = quadrant (radar_data ! i))
             radar_data)
        = findIndex (\<lambda>other. name other = name (radar_data ! j))
          (filter (\<lambda>other. ring other = ring (radar_data ! j) \<and> quadrant other = quadrant (radar_data ! j))
             radar_data)
    \<and> coords (processedData_V8 (Some radar_data) ! i) = coords (processedData_V8 (Some radar_data) ! j)"
proof -
  have "calculatePosition_V8 (radar_data ! i)
          (filter (\<lambda>other. ring other = ring (radar_data ! i) \<and> quadrant other = quadrant (radar_data ! i))
             radar_data)
      = calculatePosition_V8 (radar_data ! j)
          (filter (\<lambda>other. ring other = ring (radar_data ! j) \<and> quadrant other = quadrant (radar_data ! j))
             radar_data)"
    by (rule calculatePosition_V8_cong) (simp_all add: assms)
  with assms show ?thesis
    by (simp add: processedData_V8_nth processItem_V8_coords)
qed

text \<open>Two items named Rust in one group, a third item between them.\<close>

theorem duplicate_names_collapse_witness:
  "coords (processedData_V8 (Some [technology ''Rust'' ''Tools'' ''Adopt'',
                                   technology ''Go'' ''Tools'' ''Adopt'',
                                   (technology ''Rust'' ''Tools'' ''Adopt'')\<lparr>score := 9\<rparr>]) ! 0)
   = coords (processedData_V8 (Some [technology ''Rust'' ''Tools'' ''Adopt'',
                                   technology ''Go'' ''Tools'' ''Adopt'',
                                   (technology ''Rust'' ''Tools'' ''Adopt'')\<lparr>score := 9\<rparr>]) ! 2)"
  using duplicate_names_collapse [of 0 "[technology ''Rust'' ''Tools'' ''Adopt'',
                                   technology ''Go'' ''Tools'' ''Adopt'',
                                   (technology ''Rust'' ''Tools'' ''Adopt'')\<lparr>score := 9\<rparr>]" 2]
  by simp

text \<open>
  C1, as amended. In the seeded-jitter layout (\<^verbatim>\<open>radar V8.tsx\<close>) the coordinates of an
  item are a function of its name, quadrant and ring and of the names, in input order,
  of the input items that have its ring and quadrant: two items of two inputs that agree
  on these get the same coordinates, whatever else the inputs hold and wherever the items
  stand in them. \<^verbatim>\<open>generateGridPositions\<close> of the spiral layout reads \<^verbatim>\<open>Math.random\<close>: it
  draws 40 values for each item, and its result is a function of its arguments together
  with the values drawn.
\<close>

theorem placement_function_of:
  "(i < length radar_data \<and> j < length radar_data'
      \<and> name (radar_data ! i) = name (radar_data' ! j)
      \<and> quadrant (radar_data ! i) = quadrant (radar_data' ! j)
      \<and> ring (radar_data ! i) = ring (radar_data' ! j)
      \<and> map name (filter (\<lambda>other. ring other = ring (radar_data ! i)
                                   \<and> quadrant other = quadrant (radar_data ! i)) radar_data)
          = map name (filter (\<lambda>other. ring other = ring (radar_data' ! j)
                                   \<and> quadrant other = quadrant (radar_data' ! j)) radar_data')
     \<longrightarrow> coords (processedData_V8 (Some radar_data) ! i)
           = coords (processedData_V8 (Some radar_data') ! j))
   \<and> ((\<forall>k. n \<le> k \<and> k < n + 40 * itemCount \<longrightarrow> rnd k = rnd' k)
     \<longrightarrow> generateGridPositions ringConfig quadrantConfig itemCount existingPositions rnd n
           = generateGridPositions ringConfig quadrantConfig itemCount existingPositions rnd' n)
   \<and> snd (generateGridPositions ringConfig quadrantConfig itemCount existingPositions rnd n)
       = n + 40 * itemCount"
proof (intro conjI impI)
  assume a: "i < length radar_data \<and> j < length radar_data'
      \<and> name (radar_data ! i) = name (radar_data' ! j)
      \<and> quadrant (radar_data ! i) = quadrant (radar_data' ! j)
      \<and> ring (radar_data ! i) = ring (radar_data' ! j)
      \<and> map name (filter (\<lambda>other. ring other = ring (radar_data ! i)
                                   \<and> quadrant other = quadrant (radar_data ! i)) radar_data)
          = map name (filter (\<lambda>other. ring other = ring (radar_data' ! j)
                                   \<and> quadrant other = quadrant (radar_data' ! j)) radar_data')"
  then have "calculatePosition_V8 (radar_data ! i)
          (filter (\<lambda>other. ring other = ring (radar_data ! i) \<and> quadrant other = quadrant (radar_data ! i))
             radar_data)
      = calculatePosition_V8 (radar_data' ! j)
          (filter (\<lambda>other. ring other = ring (radar_data' ! j) \<and> quadrant other = quadrant (radar_data' ! j))
             radar_data')"
    by (intro calculatePosition_V8_cong conjunct1 [OF conjunct2 [OF conjunct2 [OF a]]]
        conjunct1 [OF conjunct2 [OF conjunct2 [OF conjunct2 [OF a]]]]
        conjunct1 [OF conjunct2 [OF conjunct2 [OF conjunct2 [OF conjunct2 [OF a]]]]]
        conjunct2 [OF conjunct2 [OF conjunct2 [OF conjunct2 [OF conjunct2 [OF a]]]]])
  with a show "coords (processedData_V8 (Some radar_data) ! i)
           = coords (processedData_V8 (Some radar_data') ! j)"
    by (simp add: processedData_V8_nth processItem_V8_coords)
next
  assume "\<forall>k. n \<le> k \<and> k < n + 40 * itemCount \<longrightarrow> rnd k = rnd' k"
  then show "generateGridPositions ringConfig quadrantConfig itemCount existingPositions rnd n
           = generateGridPositions ringConfig quadrantConfig itemCount existingPositions rnd' n"
    by (intro generateGridPositions_cong) simp
next
  show "snd (generateGridPositions ringConfig quadrantConfig itemCount existingPositions rnd n)
       = n + 40 * itemCount"
    by (rule generateGridPositions_draws)
qed

text \<open>
  An item that is alone in its group in two different inputs, first in the one and second
  in the other; and two sequences of random values that agree on the 80 values drawn for
  two items.
\<close>

theorem placement_function_of_witness:
  "coords (processedData_V8 (Some [technology ''Rust'' ''Tools'' ''Adopt'',
                                   technology ''Go'' ''Tools'' ''Trial'']) ! 0)
     = coords (processedData_V8 (Some [technology ''Kotlin'' ''Platforms'' ''Adopt'',
                                      (technology ''Rust'' ''Tools'' ''Adopt'')\<lparr>score := 9\<rparr>,
                                      technology ''Go'' ''Tools'' ''Trial'']) ! 1)
   \<and> generateGridPositions HOLD PLAT 2 [] (\<lambda>k. 1 / 2) 0
     = generateGridPositions HOLD PLAT 2 [] (\<lambda>k. if k < 80 then 1 / 2 else 0) 0"
proof -
  have "coords (processedData_V8 (Some [technology ''Rust'' ''Tools'' ''Adopt'',
                                   technology ''Go'' ''Tools'' ''Trial'']) ! 0)
     = coords (processedData_V8 (Some [technology ''Kotlin'' ''Platforms'' ''Adopt'',
                                      (technology ''Rust'' ''Tools'' ''Adopt'')\<lparr>score := 9\<rparr>,
                                      technology ''Go'' ''Tools'' ''Trial'']) ! 1)"
    by (rule placement_function_of [THEN conjunct1, THEN mp]) simp
  moreover have "generateGridPositions HOLD PLAT 2 [] (\<lambda>k. 1 / 2) 0
     = generateGridPositions HOLD PLAT 2 [] (\<lambda>k. if k < 80 then 1 / 2 else 0) 0"
    by (rule placement_function_of [THEN conjunct2, THEN conjunct1, THEN mp]) simp
  ultimately show ?thesis by simp
qed

text \<open>
  C1 as stated fails on the spiral layout: for the same two items of the ring
  \<^verbatim>\<open>HOLD\<close> (radius 180) in the sector \<^verbatim>\<open>platforms\<close>, with no item placed before them,
  \<^verbatim>\<open>generateGridPositions\<close> returns different coordinates under two different sequences
  of values of \<^verbatim>\<open>Math.random\<close> (all \<open>1/2\<close>, all \<open>3/4\<close>).
\<close>

theorem random_draws_counterexample:
  "fst (generateGridPositions HOLD PLAT 2 [] (\<lambda>k. 1 / 2) 0)
     \<noteq> fst (generateGridPositions HOLD PLAT 2 [] (\<lambda>k. 3 / 4) 0)"
  using cos_differs by (simp add: grid_half grid_three_quarters)

text \<open>
  C9. In \<^verbatim>\<open>radar V8.tsx\<close>, an item that is alone in its group (the items with its ring and
  quadrant strings) is placed, up to the final jitter of at most 4 in each coordinate, at
  the polar point of the angle \<open>start + range * 0.5 + (random1 - 0.5) * range * 0.3\<close>, which
  does not depend on an index and is within \<open>0.15 * range\<close> of the middle of the sector,
  and of a radius between \<open>minRadius + 3\<close> and \<open>maxRadius - 3\<close>; the placed point lies
  strictly inside the sector and strictly inside the ring band. The sector and the band
  are those of the item's quadrant and ring, which are configured ones (another item has
  no sector or band).
\<close>

theorem single_item_placement:
  assumes "i < length radar_data"
    and "find (\<lambda>q. quadrant_name q = quadrant (radar_data ! i)
                   \<or> key q = normalizeKey (quadrant (radar_data ! i))) quadrants = Some q"
    and "findIndex (\<lambda>r. ring_name r = ring (radar_data ! i) \<or> altName r = ring (radar_data ! i))
           rings_V8 = Some ringIndex"
    and "length (filter (\<lambda>other. ring other = ring (radar_data ! i)
                                 \<and> quadrant other = quadrant (radar_data ! i)) radar_data) = 1"
  shows "(\<exists>radius angle.
            angle = fst (sectorOf q) + pi / 2 * 0.5
                      + (random_V8 0.1 (name (radar_data ! i)) - 0.5) * (pi / 2) * 0.3
          \<and> \<bar>angle - (fst (sectorOf q) + snd (sectorOf q)) / 2\<bar>
               \<le> 3 / 20 * (snd (sectorOf q) - fst (sectorOf q))
          \<and> minRadiusOf rings_V8 ringIndex + 3 \<le> radius
          \<and> radius \<le> ring_radius (rings_V8 ! ringIndex) - 15 - 3
          \<and> \<bar>item_x (processedData_V8 (Some radar_data) ! i) - (center_V8 + radius * cos angle)\<bar> \<le> 4
          \<and> \<bar>item_y (processedData_V8 (Some radar_data) ! i) - (center_V8 + radius * sin angle)\<bar> \<le> 4)
       \<and> strictlyInside center_V8 (sectorOf q) (bandOf rings_V8 ringIndex)
            (coords (processedData_V8 (Some radar_data) ! i))"
proof -
  let ?g = "filter (\<lambda>other. ring other = ring (radar_data ! i)
                                 \<and> quadrant other = quadrant (radar_data ! i)) radar_data"
  have c: "coords (processedData_V8 (Some radar_data) ! i) = calculatePosition_V8 (radar_data ! i) ?g"
    using assms(1) by (simp add: processedData_V8_nth processItem_V8_coords)
  then have xy: "item_x (processedData_V8 (Some radar_data) ! i) = fst (calculatePosition_V8 (radar_data ! i) ?g)"
    "item_y (processedData_V8 (Some radar_data) ! i) = snd (calculatePosition_V8 (radar_data ! i) ?g)"
    by (simp_all add: coords_def prod_eq_iff)
  from calculatePosition_V8_polar [OF assms(2,3) group_holds_item [OF assms(1)]] assms(4)
  have "\<exists>radius angle.
            angle = fst (sectorOf q) + pi / 2 * 0.5
                      + (random_V8 0.1 (name (radar_data ! i)) - 0.5) * (pi / 2) * 0.3
          \<and> \<bar>angle - (fst (sectorOf q) + snd (sectorOf q)) / 2\<bar>
               \<le> 3 / 20 * (snd (sectorOf q) - fst (sectorOf q))
          \<and> minRadiusOf rings_V8 ringIndex + 3 \<le> radius
          \<and> radius \<le> ring_radius (rings_V8 ! ringIndex) - 15 - 3
          \<and> \<bar>item_x (processedData_V8 (Some radar_data) ! i) - (center_V8 + radius * cos angle)\<bar> \<le> 4
          \<and> \<bar>item_y (processedData_V8 (Some radar_data) ! i) - (center_V8 + radius * sin angle)\<bar> \<le> 4"
    unfolding xy by blast
  moreover have "strictlyInside center_V8 (sectorOf q) (bandOf rings_V8 ringIndex)
            (coords (processedData_V8 (Some radar_data) ! i))"
    unfolding c by (rule calculatePosition_V8_inside [OF assms(2,3) group_holds_item [OF assms(1)]])
  ultimately show ?thesis by blast
qed

text \<open>One item, Rust, in the sector Tools and the ring Adopt.\<close>

theorem single_item_placement_witness:
  "strictlyInside center_V8
     (sectorOf \<lparr>startAngle = 270, endAngle = 360, quadrant_name = ''Tools'', key = ''tools''\<rparr>)
     (bandOf rings_V8 0)
     (coords (processedData_V8 (Some [technology ''Rust'' ''Tools'' ''Adopt'']) ! 0))"
  using single_item_placement [of 0 "[technology ''Rust'' ''Tools'' ''Adopt'']"
      "\<lparr>startAngle = 270, endAngle = 360, quadrant_name = ''Tools'', key = ''tools''\<rparr>" 0]
  by (simp add: find_Tools findIndex_Adopt)

text \<open>
  C3, as amended. In \<^verbatim>\<open>radar V8.tsx\<close> every output item whose quadrant and ring are
  configured lies strictly inside its sector and its ring band; it is within 4 in each
  coordinate (the final jitter) of a polar point whose angle keeps the margin of
  \<open>0.15 * range\<close> to both sector boundaries and whose radius lies between
  \<open>minRadius + 3\<close> and \<open>maxRadius - 3\<close>. In \<^verbatim>\<open>tech-radar.tsx\<close> the position computed for
  such an item is the centre (the initial best position) or a point whose distance from
  the centre lies in \<open>[minRadius, maxRadius)\<close>; nothing is stated about its angle, which
  can leave the sector.
\<close>

theorem containment:
  "(i < length radar_data
      \<and> find (\<lambda>q. quadrant_name q = quadrant (radar_data ! i)
                   \<or> key q = normalizeKey (quadrant (radar_data ! i))) quadrants = Some q
      \<and> findIndex (\<lambda>r. ring_name r = ring (radar_data ! i) \<or> altName r = ring (radar_data ! i))
           rings_V8 = Some ringIndex
     \<longrightarrow> strictlyInside center_V8 (sectorOf q) (bandOf rings_V8 ringIndex)
            (coords (processedData_V8 (Some radar_data) ! i))
         \<and> (\<exists>radius angle.
               fst (sectorOf q) + 3 / 20 * (snd (sectorOf q) - fst (sectorOf q)) \<le> angle
             \<and> angle \<le> snd (sectorOf q) - 3 / 20 * (snd (sectorOf q) - fst (sectorOf q))
             \<and> minRadiusOf rings_V8 ringIndex + 3 \<le> radius
             \<and> radius \<le> ring_radius (rings_V8 ! ringIndex) - 15 - 3
             \<and> \<bar>item_x (processedData_V8 (Some radar_data) ! i) - (center_V8 + radius * cos angle)\<bar> \<le> 4
             \<and> \<bar>item_y (processedData_V8 (Some radar_data) ! i) - (center_V8 + radius * sin angle)\<bar> \<le> 4))
   \<and> (find (\<lambda>q. key q = normalizeKey (quadrant item)) quadrants = Some q'
      \<and> findIndex (\<lambda>r. ring_name r = ring item) rings_TR = Some ringIndex'
     \<longrightarrow> calculatePosition_TR item allItems itemIndex = (center_TR, center_TR)
         \<or> (minRadiusOf rings_TR ringIndex'
               \<le> distance (calculatePosition_TR item allItems itemIndex) (center_TR, center_TR)
            \<and> distance (calculatePosition_TR item allItems itemIndex) (center_TR, center_TR)
                 < ring_radius (rings_TR ! ringIndex') - 15))"
proof (intro conjI impI)
  assume a: "i < length radar_data
      \<and> find (\<lambda>q. quadrant_name q = quadrant (radar_data ! i)
                   \<or> key q = normalizeKey (quadrant (radar_data ! i))) quadrants = Some q
      \<and> findIndex (\<lambda>r. ring_name r = ring (radar_data ! i) \<or> altName r = ring (radar_data ! i))
           rings_V8 = Some ringIndex"
  let ?g = "filter (\<lambda>other. ring other = ring (radar_data ! i)
                                 \<and> quadrant other = quadrant (radar_data ! i)) radar_data"
  from a have i: "i < length radar_data"
    and q: "find (\<lambda>q. quadrant_name q = quadrant (radar_data ! i)
                   \<or> key q = normalizeKey (quadrant (radar_data ! i))) quadrants = Some q"
    and k: "findIndex (\<lambda>r. ring_name r = ring (radar_data ! i) \<or> altName r = ring (radar_data ! i))
           rings_V8 = Some ringIndex"
    by blast+
  have c: "coords (processedData_V8 (Some radar_data) ! i) = calculatePosition_V8 (radar_data ! i) ?g"
    using i by (simp add: processedData_V8_nth processItem_V8_coords)
  then have xy: "item_x (processedData_V8 (Some radar_data) ! i) = fst (calculatePosition_V8 (radar_data ! i) ?g)"
    "item_y (processedData_V8 (Some radar_data) ! i) = snd (calculatePosition_V8 (radar_data ! i) ?g)"
    by (simp_all add: coords_def prod_eq_iff)
  show "strictlyInside center_V8 (sectorOf q) (bandOf rings_V8 ringIndex)
            (coords (processedData_V8 (Some radar_data) ! i))"
    unfolding c by (rule calculatePosition_V8_inside [OF q k group_holds_item [OF i]])
  from calculatePosition_V8_polar [OF q k group_holds_item [OF i]]
  show "\<exists>radius angle.
               fst (sectorOf q) + 3 / 20 * (snd (sectorOf q) - fst (sectorOf q)) \<le> angle
             \<and> angle \<le> snd (sectorOf q) - 3 / 20 * (snd (sectorOf q) - fst (sectorOf q))
             \<and> minRadiusOf rings_V8 ringIndex + 3 \<le> radius
             \<and> radius \<le> ring_radius (rings_V8 ! ringIndex) - 15 - 3
             \<and> \<bar>item_x (processedData_V8 (Some radar_data) ! i) - (center_V8 + radius * cos angle)\<bar> \<le> 4
             \<and> \<bar>item_y (processedData_V8 (Some radar_data) ! i) - (center_V8 + radius * sin angle)\<bar> \<le> 4"
    unfolding xy by blast
next
  assume "find (\<lambda>q. key q = normalizeKey (quadrant item)) quadrants = Some q'
      \<and> findIndex (\<lambda>r. ring_name r = ring item) rings_TR = Some ringIndex'"
  then show "calculatePosition_TR item allItems itemIndex = (center_TR, center_TR)
         \<or> (minRadiusOf rings_TR ringIndex'
               \<le> distance (calculatePosition_TR item allItems itemIndex) (center_TR, center_TR)
            \<and> distance (calculatePosition_TR item allItems itemIndex) (center_TR, center_TR)
                 < ring_radius (rings_TR ! ringIndex') - 15)"
    using calculatePosition_TR_band [of item q' ringIndex' allItems itemIndex] by blast
qed

text \<open>
  One item in the sector Platforms and the ring Trial of \<^verbatim>\<open>radar V8.tsx\<close>, and one in the
  sector Tools and the ring TRIAL of \<^verbatim>\<open>tech-radar.tsx\<close>.
\<close>

theorem containment_witness:
  "strictlyInside center_V8
     (sectorOf \<lparr>startAngle = 90, endAngle = 180, quadrant_name = ''Platforms'', key = ''platforms''\<rparr>)
     (bandOf rings_V8 1)
     (coords (processedData_V8 (Some [technology ''Go'' ''Platforms'' ''Trial'']) ! 0))
   \<and> (calculatePosition_TR
         (RadarTechnology.extend (technology ''Go'' ''Tools'' ''TRIAL'')
            (RadarItem.fields center_TR center_TR 0)) [] 0 = (center_TR, center_TR)
      \<or> (minRadiusOf rings_TR 1
            \<le> distance (calculatePosition_TR
                  (RadarTechnology.extend (technology ''Go'' ''Tools'' ''TRIAL'')
                     (RadarItem.fields center_TR center_TR 0)) [] 0) (center_TR, center_TR)
          \<and> distance (calculatePosition_TR
                  (RadarTechnology.extend (technology ''Go'' ''Tools'' ''TRIAL'')
                     (RadarItem.fields center_TR center_TR 0)) [] 0) (center_TR, center_TR)
               < ring_radius (rings_TR ! 1) - 15))"
proof -
  have sel: "quadrant (RadarTechnology.extend (technology ''Go'' ''Tools'' ''TRIAL'')
                 (RadarItem.fields center_TR center_TR 0)) = ''Tools''"
    "ring (RadarTechnology.extend (technology ''Go'' ''Tools'' ''TRIAL'')
                 (RadarItem.fields center_TR center_TR 0)) = ''TRIAL''"
    by (simp_all add: technology_def RadarTechnology.defs RadarItem.defs)
  have "strictlyInside center_V8
     (sectorOf \<lparr>startAngle = 90, endAngle = 180, quadrant_name = ''Platforms'', key = ''platforms''\<rparr>)
     (bandOf rings_V8 1)
     (coords (processedData_V8 (Some [technology ''Go'' ''Platforms'' ''Trial'']) ! 0))"
    using containment [where i = 0 and radar_data = "[technology ''Go'' ''Platforms'' ''Trial'']"
        and q = "\<lparr>startAngle = 90, endAngle = 180, quadrant_name = ''Platforms'', key = ''platforms''\<rparr>"
        and ringIndex = 1, THEN conjunct1]
    by (simp add: find_Platforms findIndex_Trial)
  moreover have "calculatePosition_TR
         (RadarTechnology.extend (technology ''Go'' ''Tools'' ''TRIAL'')
            (RadarItem.fields center_TR center_TR 0)) [] 0 = (center_TR, center_TR)
      \<or> (minRadiusOf rings_TR 1
            \<le> distance (calculatePosition_TR
                  (RadarTechnology.extend (technology ''Go'' ''Tools'' ''TRIAL'')
                     (RadarItem.fields center_TR center_TR 0)) [] 0) (center_TR, center_TR)
          \<and> distance (calculatePosition_TR
                  (RadarTechnology.extend (technology ''Go'' ''Tools'' ''TRIAL'')
                     (RadarItem.fields center_TR center_TR 0)) [] 0) (center_TR, center_TR)
               < ring_radius (rings_TR ! 1) - 15)"
    by (rule containment [where item = "RadarTechnology.extend (technology ''Go'' ''Tools'' ''TRIAL'')
            (RadarItem.fields center_TR center_TR 0)"
          and q' = "\<lparr>startAngle = 270, endAngle = 360, quadrant_name = ''Tools'', key = ''tools''\<rparr>"
          and ringIndex' = 1, THEN conjunct2, THEN mp])
       (simp add: sel find_Tools_TR findIndex_TRIAL)
  ultimately show ?thesis by blast
qed

text \<open>
  The claim as stated fails in \<^verbatim>\<open>tech-radar.tsx\<close>: the only item of the input, Java in
  Languages \<open>&\<close> Frameworks (sector from 0 to 90 degrees) and ADOPT, has the seed 386 and
  \<open>random(386) < 1/6\<close>, so its angle \<open>range * 0.1 + (random(386) - 0.5) * range * 0.3\<close> is
  negative and the point lies above the horizontal axis through the centre, at an angle
  beyond 270 degrees.
\<close>

theorem containment_counterexample:
  "find (\<lambda>q. key q = normalizeKey ''Languages & Frameworks'') quadrants
     = Some \<lparr>startAngle = 0, endAngle = 90, quadrant_name = ''Languages & Frameworks'',
             key = ''languagesframeworks''\<rparr>
   \<and> findIndex (\<lambda>r. ring_name r = ''ADOPT'') rings_TR = Some 0
   \<and> snd (sectorOf \<lparr>startAngle = 0, endAngle = 90, quadrant_name = ''Languages & Frameworks'',
                     key = ''languagesframeworks''\<rparr>)
       < normalizedAngle
           (item_x (processedData_TR (Some [technology ''Java'' ''Languages & Frameworks'' ''ADOPT'']) ! 0) - center_TR,
            item_y (processedData_TR (Some [technology ''Java'' ''Languages & Frameworks'' ''ADOPT'']) ! 0) - center_TR)"
proof -
  let ?p = "processedData_TR (Some [technology ''Java'' ''Languages & Frameworks'' ''ADOPT'']) ! 0"
  have xy: "item_x ?p = fst (candidate_TR 386 0 (pi / 2) 25 20 0 1 0)"
    "item_y ?p = snd (candidate_TR 386 0 (pi / 2) 25 20 0 1 0)"
    using processedData_TR_Java by (simp_all add: coords_def prod_eq_iff)
  have "pi / 2 < 3 * pi / 2" by simp
  also note candidate_Java
  finally have "snd (sectorOf \<lparr>startAngle = 0, endAngle = 90, quadrant_name = ''Languages & Frameworks'',
                     key = ''languagesframeworks''\<rparr>)
       < normalizedAngle (item_x ?p - center_TR, item_y ?p - center_TR)"
    unfolding xy by (simp add: sectorOf_def)
  with find_LF findIndex_ADOPT show ?thesis by blast
qed


end
